theory Spec2Isabelle
  imports Complex_Main
begin

section \<open>Python exceptions\<close>

text \<open>
  Every \<open>raise\<close> of the sources, and every exception the Python runtime or torch raises
  on the paths modelled here, is a value of this type. A fallible computation returns
  \<open>error + 'a\<close>, with \<open>Inl\<close> for the exception.
\<close>

datatype error =
    ImportError | ModuleNotFoundError | FileNotFoundError | OSError
  | KeyError | ValueError | IndexError | AttributeError | AssertionError
  | UnboundLocalError | NotImplementedError | RuntimeError | OtherError

text \<open>
  The part of Python's exception class hierarchy that the \<open>except\<close> clauses of
  \<open>py4cast/datasets/__init__.py\<close> depend on: \<open>ModuleNotFoundError\<close> is a subclass of
  \<open>ImportError\<close>, \<open>FileNotFoundError\<close> of \<open>OSError\<close>.
\<close>

fun is_instance :: "error \<Rightarrow> error \<Rightarrow> bool" where
  "is_instance e c =
     (e = c \<or> (e = ModuleNotFoundError \<and> c = ImportError)
            \<or> (e = FileNotFoundError \<and> c = OSError))"

definition catches :: "error list \<Rightarrow> error \<Rightarrow> bool" where
  "catches classes e = list_ex (is_instance e) classes"

definition bind :: "error + 'a \<Rightarrow> ('a \<Rightarrow> error + 'b) \<Rightarrow> error + 'b" where
  "bind m f = (case m of Inl e \<Rightarrow> Inl e | Inr x \<Rightarrow> f x)"


section \<open>\<open>bin/train_vincent.py\<close>: the training entry point\<close>

text \<open>
  \<open>main\<close> ends in one call on the trainer: \<open>trainer.test(model, dataloaders = l)\<close> or
  \<open>trainer.fit(model, train_dataloaders = t, val_dataloaders = v)\<close>. The call is the
  observable effect of \<open>main\<close>.
\<close>

datatype 'l trainer_call = Test 'l | Fit 'l 'l

record 'l dataset =
  loader :: 'l

text \<open>\<open>if tp.evaluation:\<close> on a value that is \<open>None\<close> or a string.\<close>

fun truthy :: "string option \<Rightarrow> bool" where
  "truthy None = False"
| "truthy (Some s) = (s \<noteq> [])"

text \<open>
  Lines 69 to 77 of \<open>main\<close>. The local variable \<open>eval_loader\<close> is \<open>None\<close> while it is
  unbound; both of its assignments stand inside the branch \<open>tp.evaluation == "val"\<close>,
  and reading it unbound raises \<open>UnboundLocalError\<close>.
\<close>

definition main ::
  "'l dataset \<Rightarrow> 'l dataset \<Rightarrow> 'l dataset \<Rightarrow> string option \<Rightarrow> error + 'l trainer_call"
where
  "main training_dataset val_dataset test_dataset evaluation =
     (let train_loader = loader training_dataset;
          val_loader = loader val_dataset;
          test_loader = loader test_dataset
      in if truthy evaluation then
           (let eval_loader =
                  (if evaluation = Some ''val''
                   then (let eval_loader = Some val_loader;
                             eval_loader = Some test_loader
                         in eval_loader)
                   else None)
            in case eval_loader of
                 None \<Rightarrow> Inl UnboundLocalError
               | Some l \<Rightarrow> Inr (Test l))
         else Inr (Fit train_loader val_loader))"


section \<open>\<open>py4cast/datasets/__init__.py\<close>: the dataset registry\<close>

text \<open>
  The module body runs once, at import. Its state is the \<open>registry\<close> dictionary and the
  warnings issued so far (\<open>warnings.warn\<close> under the default filter records a warning and
  returns). What the three relative imports do is the environment's choice and a
  parameter of the model: each either yields the imported class or raises.
\<close>

record 'd module_state =
  registry :: "string \<rightharpoonup> ('d \<times> string)"
  warnings :: "string list"

text \<open>
  One guarded block: \<open>try: from .m import K; registry[name] = (K, root / file)\<close> with
  \<open>except classes: warnings.warn(msg)\<close>. An exception that no class of the clause
  matches propagates and aborts the import of the module.
\<close>

definition register_guarded ::
  "error list \<Rightarrow> string \<Rightarrow> string \<Rightarrow> string \<Rightarrow> error + 'd \<Rightarrow> 'd module_state
     \<Rightarrow> error + 'd module_state"
where
  "register_guarded classes name config msg outcome st =
     (case outcome of
        Inr kls \<Rightarrow> Inr (st\<lparr>registry := (registry st)(name \<mapsto> (kls, config))\<rparr>)
      | Inl e \<Rightarrow>
          if catches classes e then Inr (st\<lparr>warnings := warnings st @ [msg]\<rparr>)
          else Inl e)"

definition datasets_module ::
  "string \<Rightarrow> error + unit \<Rightarrow> error + 'd \<Rightarrow> error + 'd \<Rightarrow> error + 'd module_state"
where
  "datasets_module default_config_root base_import smeagol_import titan_import =
     bind base_import (\<lambda>_.
     bind (register_guarded [ImportError] ''smeagol''
             (default_config_root @ ''/smeagol.json'')
             ''Could not import SmeagolDataset.'' smeagol_import
             \<lparr>registry = Map.empty, warnings = []\<rparr>) (\<lambda>st.
     register_guarded [ImportError, FileNotFoundError, ModuleNotFoundError] ''titan''
             (default_config_root @ ''/titan.json'')
             ''Could not import TitanDataset.'' titan_import st))"

text \<open>
  \<open>get_datasets\<close> up to the call of \<open>from_json\<close>: the lookup of the class and of the
  configuration file it will be built from.
\<close>

definition get_datasets ::
  "'d module_state \<Rightarrow> string \<Rightarrow> string option \<Rightarrow> error + ('d \<times> string)"
where
  "get_datasets st name config_file =
     (case registry st name of
        None \<Rightarrow> Inl ValueError
      | Some (dataset_kls, default_config) \<Rightarrow>
          Inr (dataset_kls, (case config_file of None \<Rightarrow> default_config | Some c \<Rightarrow> c)))"

text \<open>A missing optional dependency surfaces as one of the two import exceptions.\<close>

definition missing_dependency :: "error + 'd \<Rightarrow> bool" where
  "missing_dependency outcome =
     (outcome = Inl ModuleNotFoundError \<or> outcome = Inl ImportError)"

definition imported :: "error + 'd \<Rightarrow> bool" where
  "imported outcome = (case outcome of Inr _ \<Rightarrow> True | Inl _ \<Rightarrow> False)"


section \<open>Tensors\<close>

text \<open>
  A torch tensor is its shape and its entries. Two ranks occur in \<open>models.py\<close>: static
  feature matrices of shape \<open>(N, d)\<close> and batched representations of shape \<open>(B, N, d)\<close>,
  stored batch-major. The shape is carried explicitly, so that a dimension of size zero
  keeps the other sizes, as in torch. \<open>wf2\<close> and \<open>wf3\<close> say that the entries fill the
  shape.
\<close>

datatype 'a tensor2 = Tensor2 (rows2: nat) (cols2: nat) (vals2: "'a list list")

datatype 'a tensor3 =
  Tensor3 (dimB: nat) (dimN: nat) (dimF: nat) (vals: "'a list list list")

definition wf2 :: "'a tensor2 \<Rightarrow> bool" where
  "wf2 x = (length (vals2 x) = rows2 x \<and> list_all (\<lambda>r. length r = cols2 x) (vals2 x))"

definition wf3 :: "'a tensor3 \<Rightarrow> bool" where
  "wf3 t = (length (vals t) = dimB t
            \<and> list_all (\<lambda>s. length s = dimN t \<and> list_all (\<lambda>r. length r = dimF t) s) (vals t))"

definition shape3 :: "'a tensor3 \<Rightarrow> nat \<times> nat \<times> nat" where
  "shape3 t = (dimB t, dimN t, dimF t)"

definition has_shape :: "nat \<Rightarrow> nat \<Rightarrow> nat \<Rightarrow> 'a tensor3 \<Rightarrow> bool" where
  "has_shape B N F t = (wf3 t \<and> dimB t = B \<and> dimN t = N \<and> dimF t = F)"

text \<open>
  \<open>torch.cat(ts, dim=1)\<close>: the tensors must agree in every dimension but the node
  axis and the list must not be empty, else torch raises a \<open>RuntimeError\<close>; the result
  holds, for each batch element, the rows of the tensors one after the other.
\<close>

definition join_nodes :: "nat \<Rightarrow> 'a list list list list \<Rightarrow> 'a list list list" where
  "join_nodes B vss = foldr (map2 (@)) vss (replicate B [])"

definition cat_nodes :: "'a tensor3 list \<Rightarrow> error + 'a tensor3" where
  "cat_nodes ts =
     (case ts of
        [] \<Rightarrow> Inl RuntimeError
      | t # rest \<Rightarrow>
          if list_all (\<lambda>u. dimB u = dimB t \<and> dimF u = dimF t) rest
          then Inr (Tensor3 (dimB t) (sum_list (map dimN ts)) (dimF t)
                      (join_nodes (dimB t) (map vals ts)))
          else Inl RuntimeError)"

text \<open>
  \<open>torch.split(t, sizes, dim=1)\<close> with a list of sizes: the sizes must sum to the size
  of the node axis, else torch raises a \<open>RuntimeError\<close>; piece \<open>k\<close> holds the next
  \<open>sizes[k]\<close> rows of every batch element.
\<close>

fun split_vals :: "nat \<Rightarrow> nat \<Rightarrow> 'a list list list \<Rightarrow> nat list \<Rightarrow> 'a tensor3 list" where
  "split_vals B F v [] = []"
| "split_vals B F v (n # ns) =
     Tensor3 B n F (map (take n) v) # split_vals B F (map (drop n) v) ns"

definition split_nodes :: "'a tensor3 \<Rightarrow> nat list \<Rightarrow> error + 'a tensor3 list" where
  "split_nodes t sizes =
     (if sum_list sizes = dimN t
      then Inr (split_vals (dimB t) (dimF t) (vals t) sizes)
      else Inl RuntimeError)"

text \<open>
  Modelled from the spec: \<open>expand_to_batch\<close> is a method of \<open>ARModel\<close>
  (\<open>pnia/models/ar_model.py\<close>), which the sources here do not include. The spec speaks
  of "batch-expanded" static features: the matrix of shape \<open>(N, d)\<close> is repeated along
  a new leading axis, giving shape \<open>(B, N, d)\<close>.
\<close>

definition expand_to_batch :: "'a tensor2 \<Rightarrow> nat \<Rightarrow> 'a tensor3" where
  "expand_to_batch x batch_size =
     Tensor3 batch_size (rows2 x) (cols2 x) (replicate batch_size (vals2 x))"

text \<open>Python list indexing with an index that is not negative, and \<open>xs[-1]\<close>.\<close>

definition get :: "'x list \<Rightarrow> nat \<Rightarrow> error + 'x" where
  "get xs i = (if i < length xs then Inr (xs ! i) else Inl IndexError)"

definition put :: "'x list \<Rightarrow> nat \<Rightarrow> 'x \<Rightarrow> error + 'x list" where
  "put xs i v = (if i < length xs then Inr (xs[i := v]) else Inl IndexError)"

definition get_last :: "'x list \<Rightarrow> error + 'x" where
  "get_last xs = (if xs = [] then Inl IndexError else Inr (last xs))"

definition put_last :: "'x list \<Rightarrow> 'x \<Rightarrow> error + 'x list" where
  "put_last xs v = (if xs = [] then Inl IndexError else Inr (butlast xs @ [v]))"

text \<open>\<open>enumerate(xs, start=s)\<close>.\<close>

definition enumerate_from :: "nat \<Rightarrow> 'x list \<Rightarrow> (nat \<times> 'x) list" where
  "enumerate_from s xs = zip [s..<s + length xs] xs"

text \<open>\<open>range(n - 2, -1, -1)\<close>: the levels \<open>n - 2\<close> down to 0, none when \<open>n < 2\<close>.\<close>

definition levels_down :: "nat \<Rightarrow> nat list" where
  "levels_down n = rev [0..<n - 1]"


section \<open>Sub-networks and the trace of their calls\<close>

text \<open>
  The networks themselves come from outside the repository: \<open>utils.make_mlp\<close> and
  \<open>InteractionNet\<close> of \<open>neural_lam\<close>. They are parameters of the model. Every network
  instance has a name, which is its path in the module tree (\<open>mesh_down_gnns.k.l\<close> is
  \<open>MeshDownGnn k l\<close>); the constructors below draw each instance from the factories
  under its name.
\<close>

datatype net_id =
    MeshEmbedder nat | MeshSameEmbedder nat | MeshUpEmbedder nat | MeshDownEmbedder nat
  | MeshInitGnn nat | MeshReadGnn nat | ProcessorNet nat
  | MeshDownGnn nat nat | MeshDownSameGnn nat nat
  | MeshUpGnn nat nat | MeshUpSameGnn nat nat
  | G2mEmbedder | M2gEmbedder | G2mGnn | M2gGnn

type_synonym 'a mlp = "'a tensor2 \<Rightarrow> error + 'a tensor2"

type_synonym 'a forward =
  "'a tensor3 \<Rightarrow> 'a tensor3 \<Rightarrow> 'a tensor3 \<Rightarrow> error + ('a tensor3 \<times> 'a tensor3)"

text \<open>The arguments of the \<open>InteractionNet\<close> constructor.\<close>

record inet_args =
  edge_index :: "(nat \<times> nat) list"
  net_hidden_dim :: nat
  net_hidden_layers :: nat
  update_edges :: bool
  aggr :: string
  edge_chunk_sizes :: "nat list option"
  aggr_chunk_sizes :: "nat list option"

record 'a nets =
  make_mlp :: "net_id \<Rightarrow> nat list \<Rightarrow> 'a mlp"
  interaction_net :: "net_id \<Rightarrow> inet_args \<Rightarrow> 'a forward"

text \<open>
  A constructed \<open>InteractionNet\<close>: its name and its forward function
  \<open>(send_rep, rec_rep, edge_rep) \<mapsto> (rec_rep', edge_rep')\<close>. A net built with
  \<open>update_edges=False\<close> returns the node representation alone (\<open>call_nodes\<close>).
\<close>

record 'a gnn =
  gnn_id :: net_id
  forward :: "'a forward"

definition mk_gnn :: "'a nets \<Rightarrow> net_id \<Rightarrow> inet_args \<Rightarrow> 'a gnn" where
  "mk_gnn nets i args = \<lparr>gnn_id = i, forward = interaction_net nets i args\<rparr>"

text \<open>
  The processing functions return their result together with the trace of the
  \<open>InteractionNet\<close> instances called, in call order; an exception ends the computation.
\<close>

type_synonym 'r traced = "error + ('r \<times> net_id list)"

definition returnT :: "'r \<Rightarrow> 'r traced" where
  "returnT x = Inr (x, [])"

definition liftT :: "error + 'r \<Rightarrow> 'r traced" where
  "liftT m = (case m of Inl e \<Rightarrow> Inl e | Inr x \<Rightarrow> Inr (x, []))"

definition bindT :: "'r traced \<Rightarrow> ('r \<Rightarrow> 's traced) \<Rightarrow> 's traced" where
  "bindT m f =
     (case m of
        Inl e \<Rightarrow> Inl e
      | Inr (x, t) \<Rightarrow> (case f x of Inl e \<Rightarrow> Inl e | Inr (y, t') \<Rightarrow> Inr (y, t @ t')))"

definition call :: "'a gnn \<Rightarrow> 'a tensor3 \<Rightarrow> 'a tensor3 \<Rightarrow> 'a tensor3
    \<Rightarrow> ('a tensor3 \<times> 'a tensor3) traced" where
  "call g send_rep rec_rep edge_rep =
     (case forward g send_rep rec_rep edge_rep of
        Inl e \<Rightarrow> Inl e
      | Inr out \<Rightarrow> Inr (out, [gnn_id g]))"

definition call_nodes :: "'a gnn \<Rightarrow> 'a tensor3 \<Rightarrow> 'a tensor3 \<Rightarrow> 'a tensor3
    \<Rightarrow> 'a tensor3 traced" where
  "call_nodes g send_rep rec_rep edge_rep =
     bindT (call g send_rep rec_rep edge_rep) (\<lambda>(new_node_rep, _). returnT new_node_rep)"

text \<open>
  \<open>pyg.nn.Sequential("mesh_rep, edge_rep", [(net, "mesh_rep, mesh_rep, edge_rep ->
  mesh_rep, edge_rep") for net in nets])\<close>: the nets in order, each one sending and
  receiving on the same node representation.
\<close>

fun sequential :: "'a gnn list \<Rightarrow> 'a tensor3 \<Rightarrow> 'a tensor3 \<Rightarrow> ('a tensor3 \<times> 'a tensor3) traced"
where
  "sequential [] mesh_rep edge_rep = returnT (mesh_rep, edge_rep)"
| "sequential (net # rest) mesh_rep edge_rep =
     bindT (call net mesh_rep mesh_rep edge_rep)
       (\<lambda>(mesh_rep, edge_rep). sequential rest mesh_rep edge_rep)"


section \<open>\<open>BaseHiGraphModel\<close>\<close>

text \<open>
  The hierarchical graph as \<open>load_graph\<close> delivers it: one entry per mesh level for the
  node features and the same-level edges, one entry per pair of adjacent levels for the
  up and the down edges. An edge index is a \<open>(2, M)\<close> tensor, here its \<open>M\<close> columns.
\<close>

record 'a hi_graph =
  mesh_static_features :: "'a tensor2 list"
  m2m_features :: "'a tensor2 list"
  mesh_up_features :: "'a tensor2 list"
  mesh_down_features :: "'a tensor2 list"
  m2m_edge_index :: "(nat \<times> nat) list list"
  mesh_up_edge_index :: "(nat \<times> nat) list list"
  mesh_down_edge_index :: "(nat \<times> nat) list list"

text \<open>\<open>hp.graph\<close>.\<close>

record graph_hp =
  hidden_dim :: nat
  hidden_layers :: nat
  processor_layers :: nat
  mesh_aggr :: string

record 'a base_hi_graph_model =
  graph :: "'a hi_graph"
  N_levels :: nat
  N_mesh_levels :: "nat list"
  mlp_blueprint_end :: "nat list"
  mesh_embedders :: "'a mlp list"
  mesh_same_embedders :: "'a mlp list"
  mesh_up_embedders :: "'a mlp list"
  mesh_down_embedders :: "'a mlp list"
  mesh_init_gnns :: "'a gnn list"
  mesh_read_gnns :: "'a gnn list"

definition default_args :: "(nat \<times> nat) list \<Rightarrow> graph_hp \<Rightarrow> inet_args" where
  "default_args ei hp =
     \<lparr>edge_index = ei, net_hidden_dim = hidden_dim hp, net_hidden_layers = hidden_layers hp,
      update_edges = True, aggr = ''sum'', edge_chunk_sizes = None, aggr_chunk_sizes = None\<rparr>"

text \<open>
  The loop of lines 162 to 169 prints the edge counts of every level; its indexing
  raises \<open>IndexError\<close> when a feature list is shorter than the list of levels.
\<close>

fun print_levels :: "'a hi_graph \<Rightarrow> nat \<Rightarrow> nat list \<Rightarrow> error + unit" where
  "print_levels g n [] = Inr ()"
| "print_levels g n (l # ls) =
     bind (get (m2m_features g) l) (\<lambda>_.
     bind (if l < n - 1
           then bind (get (mesh_up_features g) l) (\<lambda>_.
                bind (get (mesh_down_features g) l) (\<lambda>_. Inr ()))
           else Inr ()) (\<lambda>_.
     print_levels g n ls))"

definition BaseHiGraphModel_init ::
  "'a nets \<Rightarrow> graph_hp \<Rightarrow> 'a hi_graph \<Rightarrow> error + 'a base_hi_graph_model" where
  "BaseHiGraphModel_init nets hp g =
     (let n_levels = length (mesh_static_features g);
          blueprint_end = replicate (hidden_layers hp + 1) (hidden_dim hp)
      in bind (print_levels g n_levels [0..<n_levels]) (\<lambda>_.
         bind (get (mesh_static_features g) 0) (\<lambda>f0. let mesh_dim = cols2 f0 in
         bind (get (m2m_features g) 0) (\<lambda>f0. let mesh_same_dim = cols2 f0 in
         bind (get (mesh_up_features g) 0) (\<lambda>f0. let mesh_up_dim = cols2 f0 in
         bind (get (mesh_down_features g) 0) (\<lambda>f0. let mesh_down_dim = cols2 f0 in
         Inr \<lparr>graph = g,
              N_levels = n_levels,
              N_mesh_levels = map rows2 (mesh_static_features g),
              mlp_blueprint_end = blueprint_end,
              mesh_embedders =
                map (\<lambda>l. make_mlp nets (MeshEmbedder l) (mesh_dim # blueprint_end))
                  [0..<n_levels],
              mesh_same_embedders =
                map (\<lambda>l. make_mlp nets (MeshSameEmbedder l) (mesh_same_dim # blueprint_end))
                  [0..<n_levels],
              mesh_up_embedders =
                map (\<lambda>l. make_mlp nets (MeshUpEmbedder l) (mesh_up_dim # blueprint_end))
                  [0..<n_levels - 1],
              mesh_down_embedders =
                map (\<lambda>l. make_mlp nets (MeshDownEmbedder l) (mesh_down_dim # blueprint_end))
                  [0..<n_levels - 1],
              mesh_init_gnns =
                map (\<lambda>(l, ei). mk_gnn nets (MeshInitGnn l) (default_args ei hp))
                  (enumerate_from 0 (mesh_up_edge_index g)),
              mesh_read_gnns =
                map (\<lambda>(l, ei). mk_gnn nets (MeshReadGnn l)
                                 ((default_args ei hp)\<lparr>update_edges := False\<rparr>))
                  (enumerate_from 0 (mesh_down_edge_index g))\<rparr>))))))"

text \<open>
  \<open>[self.expand_to_batch(emb(feat), batch_size) for emb, feat in zip(embs, feats)]\<close>.
\<close>

fun embed_all :: "('a mlp \<times> 'a tensor2) list \<Rightarrow> nat \<Rightarrow> error + 'a tensor3 list" where
  "embed_all [] batch_size = Inr []"
| "embed_all ((emb, feat) # rest) batch_size =
     bind (emb feat) (\<lambda>x.
     bind (embed_all rest batch_size) (\<lambda>xs.
     Inr (expand_to_batch x batch_size # xs)))"

text \<open>The mesh init loop, lines 246 to 257.\<close>

fun mesh_init :: "(nat \<times> 'a gnn) list \<Rightarrow> 'a tensor3 list \<Rightarrow> 'a tensor3 list
    \<Rightarrow> ('a tensor3 list \<times> 'a tensor3 list) traced" where
  "mesh_init [] mesh_rep_levels mesh_up_rep = returnT (mesh_rep_levels, mesh_up_rep)"
| "mesh_init ((level_l, gnn) # rest) mesh_rep_levels mesh_up_rep =
     bindT (liftT (get mesh_rep_levels (level_l - 1))) (\<lambda>send_node_rep.
     bindT (liftT (get mesh_rep_levels level_l)) (\<lambda>rec_node_rep.
     bindT (liftT (get mesh_up_rep (level_l - 1))) (\<lambda>edge_rep.
     bindT (call gnn send_node_rep rec_node_rep edge_rep) (\<lambda>(new_node_rep, new_edge_rep).
     bindT (liftT (put mesh_rep_levels level_l new_node_rep)) (\<lambda>mesh_rep_levels.
     bindT (liftT (put mesh_up_rep (level_l - 1) new_edge_rep)) (\<lambda>mesh_up_rep.
     mesh_init rest mesh_rep_levels mesh_up_rep))))))"

text \<open>The mesh read out loop, lines 265 to 277.\<close>

fun mesh_read_out :: "(nat \<times> 'a gnn) list \<Rightarrow> 'a tensor3 list \<Rightarrow> 'a tensor3 list
    \<Rightarrow> 'a tensor3 list traced" where
  "mesh_read_out [] mesh_rep_levels mesh_down_rep = returnT mesh_rep_levels"
| "mesh_read_out ((level_l, gnn) # rest) mesh_rep_levels mesh_down_rep =
     bindT (liftT (get mesh_rep_levels (level_l + 1))) (\<lambda>send_node_rep.
     bindT (liftT (get mesh_rep_levels level_l)) (\<lambda>rec_node_rep.
     bindT (liftT (get mesh_down_rep level_l)) (\<lambda>edge_rep.
     bindT (call_nodes gnn send_node_rep rec_node_rep edge_rep) (\<lambda>new_node_rep.
     bindT (liftT (put mesh_rep_levels level_l new_node_rep)) (\<lambda>mesh_rep_levels.
     mesh_read_out rest mesh_rep_levels mesh_down_rep)))))"

type_synonym 'a hi_lists =
  "'a tensor3 list \<times> 'a tensor3 list \<times> 'a tensor3 list \<times> 'a tensor3 list"

text \<open>
  \<open>process_step\<close> of the hierarchical models. \<open>hi_processor_step\<close> is the method the
  subclass provides; in \<open>BaseHiGraphModel\<close> itself it raises \<open>NotImplementedError\<close>.
\<close>

definition hi_processor_step_base ::
  "'a tensor3 list \<Rightarrow> 'a tensor3 list \<Rightarrow> 'a tensor3 list \<Rightarrow> 'a tensor3 list
     \<Rightarrow> 'a hi_lists traced" where
  "hi_processor_step_base mesh_rep_levels mesh_same_rep mesh_up_rep mesh_down_rep =
     Inl NotImplementedError"

definition process_step ::
  "('a tensor3 list \<Rightarrow> 'a tensor3 list \<Rightarrow> 'a tensor3 list \<Rightarrow> 'a tensor3 list
      \<Rightarrow> 'a hi_lists traced)
     \<Rightarrow> 'a base_hi_graph_model \<Rightarrow> 'a tensor3 \<Rightarrow> 'a tensor3 traced" where
  "process_step hi_processor_step m mesh_rep =
     (let batch_size = dimB mesh_rep in
      bindT (liftT (embed_all (zip (drop 1 (mesh_embedders m))
                                   (drop 1 (mesh_static_features (graph m)))) batch_size))
        (\<lambda>higher.
      let mesh_rep_levels = mesh_rep # higher in
      bindT (liftT (embed_all (zip (mesh_same_embedders m) (m2m_features (graph m)))
                      batch_size)) (\<lambda>mesh_same_rep.
      bindT (liftT (embed_all (zip (mesh_up_embedders m) (mesh_up_features (graph m)))
                      batch_size)) (\<lambda>mesh_up_rep.
      bindT (liftT (embed_all (zip (mesh_down_embedders m) (mesh_down_features (graph m)))
                      batch_size)) (\<lambda>mesh_down_rep.
      bindT (mesh_init (enumerate_from 1 (mesh_init_gnns m)) mesh_rep_levels mesh_up_rep)
        (\<lambda>(mesh_rep_levels, mesh_up_rep).
      bindT (hi_processor_step mesh_rep_levels mesh_same_rep mesh_up_rep mesh_down_rep)
        (\<lambda>(mesh_rep_levels, _, _, mesh_down_rep).
      bindT (mesh_read_out (zip (levels_down (N_levels m)) (rev (mesh_read_gnns m)))
               mesh_rep_levels mesh_down_rep) (\<lambda>mesh_rep_levels.
      liftT (get mesh_rep_levels 0)))))))))"


section \<open>\<open>HiLAMParallel\<close>\<close>

record 'a hilam_parallel =
  par_base :: "'a base_hi_graph_model"
  edge_split_sections :: "nat list"
  processor :: "'a tensor3 \<Rightarrow> 'a tensor3 \<Rightarrow> ('a tensor3 \<times> 'a tensor3) traced"

text \<open>
  \<open>torch.cat(total_edge_index_list, dim=1)\<close> on edge indices: the columns one after the
  other; torch raises on an empty list.
\<close>

definition cat_edge_index :: "(nat \<times> nat) list list \<Rightarrow> error + (nat \<times> nat) list" where
  "cat_edge_index eis = (if eis = [] then Inl RuntimeError else Inr (concat eis))"

definition HiLAMParallel_init ::
  "'a nets \<Rightarrow> graph_hp \<Rightarrow> 'a hi_graph \<Rightarrow> error + 'a hilam_parallel" where
  "HiLAMParallel_init nets hp g =
     bind (BaseHiGraphModel_init nets hp g) (\<lambda>b.
     let total_edge_index_list =
           m2m_edge_index g @ mesh_up_edge_index g @ mesh_down_edge_index g
     in bind (cat_edge_index total_edge_index_list) (\<lambda>total_edge_index.
        let sections = map length total_edge_index_list
        in Inr \<lparr>par_base = b,
                edge_split_sections = sections,
                processor =
                  (if processor_layers hp = 0
                   then (\<lambda>x edge_attr. returnT (x, edge_attr))
                   else sequential
                          (map (\<lambda>k. mk_gnn nets (ProcessorNet k)
                                  ((default_args total_edge_index hp)
                                     \<lparr>edge_chunk_sizes := Some sections,
                                      aggr_chunk_sizes := Some (N_mesh_levels b)\<rparr>))
                            [0..<processor_layers hp]))\<rparr>))"

text \<open>
  \<open>HiLAMParallel.hi_processor_step\<close>, lines 410 to 430. The slices of the tuple of
  edge sections are \<open>[:N]\<close>, \<open>[N : N + (N - 1)]\<close> and \<open>[N + (N - 1):]\<close> with
  \<open>N = N_levels\<close>, which is at least 1 in every constructed model.
\<close>

definition hi_processor_step_parallel ::
  "'a hilam_parallel \<Rightarrow> 'a tensor3 list \<Rightarrow> 'a tensor3 list \<Rightarrow> 'a tensor3 list
     \<Rightarrow> 'a tensor3 list \<Rightarrow> 'a hi_lists traced" where
  "hi_processor_step_parallel m mesh_rep_levels mesh_same_rep mesh_up_rep mesh_down_rep =
     (let n = N_levels (par_base m) in
      bindT (liftT (cat_nodes mesh_rep_levels)) (\<lambda>mesh_rep.
      bindT (liftT (cat_nodes (mesh_same_rep @ mesh_up_rep @ mesh_down_rep)))
        (\<lambda>mesh_edge_rep.
      bindT (processor m mesh_rep mesh_edge_rep) (\<lambda>(mesh_rep, mesh_edge_rep).
      bindT (liftT (split_nodes mesh_rep (N_mesh_levels (par_base m))))
        (\<lambda>mesh_rep_levels.
      bindT (liftT (split_nodes mesh_edge_rep (edge_split_sections m)))
        (\<lambda>mesh_edge_rep_sections.
      let mesh_same_rep = take n mesh_edge_rep_sections;
          mesh_up_rep = take (n - 1) (drop n mesh_edge_rep_sections);
          mesh_down_rep = drop (n + (n - 1)) mesh_edge_rep_sections
      in returnT (mesh_rep_levels, mesh_same_rep, mesh_up_rep, mesh_down_rep)))))))"


section \<open>\<open>HiLAM\<close>\<close>

record 'a hilam =
  seq_base :: "'a base_hi_graph_model"
  mesh_down_gnns :: "'a gnn list list"
  mesh_down_same_gnns :: "'a gnn list list"
  mesh_up_gnns :: "'a gnn list list"
  mesh_up_same_gnns :: "'a gnn list list"

text \<open>
  \<open>make_same_gnns\<close>, \<open>make_up_gnns\<close> and \<open>make_down_gnns\<close>: one net per edge index of the
  family. The first argument names the instances, by level.
\<close>

definition make_gnns ::
  "(nat \<Rightarrow> net_id) \<Rightarrow> 'a nets \<Rightarrow> graph_hp \<Rightarrow> (nat \<times> nat) list list \<Rightarrow> 'a gnn list" where
  "make_gnns name nets hp edge_indices =
     map (\<lambda>(l, ei). mk_gnn nets (name l) (default_args ei hp))
       (enumerate_from 0 edge_indices)"

definition HiLAM_init :: "'a nets \<Rightarrow> graph_hp \<Rightarrow> 'a hi_graph \<Rightarrow> error + 'a hilam" where
  "HiLAM_init nets hp g =
     bind (BaseHiGraphModel_init nets hp g) (\<lambda>b.
     Inr \<lparr>seq_base = b,
          mesh_down_gnns =
            map (\<lambda>k. make_gnns (MeshDownGnn k) nets hp (mesh_down_edge_index g))
              [0..<processor_layers hp],
          mesh_down_same_gnns =
            map (\<lambda>k. make_gnns (MeshDownSameGnn k) nets hp (m2m_edge_index g))
              [0..<processor_layers hp],
          mesh_up_gnns =
            map (\<lambda>k. make_gnns (MeshUpGnn k) nets hp (mesh_up_edge_index g))
              [0..<processor_layers hp],
          mesh_up_same_gnns =
            map (\<lambda>k. make_gnns (MeshUpSameGnn k) nets hp (m2m_edge_index g))
              [0..<processor_layers hp]\<rparr>)"

text \<open>The loop of \<open>mesh_down_step\<close>, lines 490 to 506.\<close>

fun down_loop :: "(nat \<times> 'a gnn \<times> 'a gnn) list \<Rightarrow> 'a tensor3 list \<Rightarrow> 'a tensor3 list
    \<Rightarrow> 'a tensor3 list \<Rightarrow> ('a tensor3 list \<times> 'a tensor3 list \<times> 'a tensor3 list) traced"
where
  "down_loop [] mesh_rep_levels mesh_same_rep mesh_down_rep =
     returnT (mesh_rep_levels, mesh_same_rep, mesh_down_rep)"
| "down_loop ((level_l, down_gnn, same_gnn) # rest) mesh_rep_levels mesh_same_rep
      mesh_down_rep =
     bindT (liftT (get mesh_rep_levels (level_l + 1))) (\<lambda>send_node_rep.
     bindT (liftT (get mesh_rep_levels level_l)) (\<lambda>rec_node_rep.
     bindT (liftT (get mesh_down_rep level_l)) (\<lambda>down_edge_rep.
     bindT (liftT (get mesh_same_rep level_l)) (\<lambda>same_edge_rep.
     bindT (call down_gnn send_node_rep rec_node_rep down_edge_rep)
       (\<lambda>(new_node_rep, new_down_rep).
     bindT (liftT (put mesh_down_rep level_l new_down_rep)) (\<lambda>mesh_down_rep.
     bindT (call same_gnn new_node_rep new_node_rep same_edge_rep)
       (\<lambda>(new_level_rep, new_same_rep).
     bindT (liftT (put mesh_rep_levels level_l new_level_rep)) (\<lambda>mesh_rep_levels.
     bindT (liftT (put mesh_same_rep level_l new_same_rep)) (\<lambda>mesh_same_rep.
     down_loop rest mesh_rep_levels mesh_same_rep mesh_down_rep)))))))))"

definition mesh_down_step ::
  "nat \<Rightarrow> 'a tensor3 list \<Rightarrow> 'a tensor3 list \<Rightarrow> 'a tensor3 list \<Rightarrow> 'a gnn list
     \<Rightarrow> 'a gnn list \<Rightarrow> ('a tensor3 list \<times> 'a tensor3 list \<times> 'a tensor3 list) traced"
where
  "mesh_down_step n_levels mesh_rep_levels mesh_same_rep mesh_down_rep down_gnns same_gnns =
     bindT (liftT (get_last same_gnns)) (\<lambda>top_gnn.
     bindT (liftT (get_last mesh_rep_levels)) (\<lambda>top_rep.
     bindT (liftT (get_last mesh_same_rep)) (\<lambda>top_same_rep.
     bindT (call top_gnn top_rep top_rep top_same_rep) (\<lambda>(new_top_rep, new_same_rep).
     bindT (liftT (put_last mesh_rep_levels new_top_rep)) (\<lambda>mesh_rep_levels.
     bindT (liftT (put_last mesh_same_rep new_same_rep)) (\<lambda>mesh_same_rep.
     down_loop (zip (levels_down n_levels) (zip (rev down_gnns) (rev (butlast same_gnns))))
       mesh_rep_levels mesh_same_rep mesh_down_rep))))))"

text \<open>The loop of \<open>mesh_up_step\<close>, lines 522 to 538.\<close>

fun up_loop :: "(nat \<times> 'a gnn \<times> 'a gnn) list \<Rightarrow> 'a tensor3 list \<Rightarrow> 'a tensor3 list
    \<Rightarrow> 'a tensor3 list \<Rightarrow> ('a tensor3 list \<times> 'a tensor3 list \<times> 'a tensor3 list) traced"
where
  "up_loop [] mesh_rep_levels mesh_same_rep mesh_up_rep =
     returnT (mesh_rep_levels, mesh_same_rep, mesh_up_rep)"
| "up_loop ((level_l, up_gnn, same_gnn) # rest) mesh_rep_levels mesh_same_rep mesh_up_rep =
     bindT (liftT (get mesh_rep_levels (level_l - 1))) (\<lambda>send_node_rep.
     bindT (liftT (get mesh_rep_levels level_l)) (\<lambda>rec_node_rep.
     bindT (liftT (get mesh_up_rep (level_l - 1))) (\<lambda>up_edge_rep.
     bindT (liftT (get mesh_same_rep level_l)) (\<lambda>same_edge_rep.
     bindT (call up_gnn send_node_rep rec_node_rep up_edge_rep)
       (\<lambda>(new_node_rep, new_up_rep).
     bindT (liftT (put mesh_up_rep (level_l - 1) new_up_rep)) (\<lambda>mesh_up_rep.
     bindT (call same_gnn new_node_rep new_node_rep same_edge_rep)
       (\<lambda>(new_level_rep, new_same_rep).
     bindT (liftT (put mesh_rep_levels level_l new_level_rep)) (\<lambda>mesh_rep_levels.
     bindT (liftT (put mesh_same_rep level_l new_same_rep)) (\<lambda>mesh_same_rep.
     up_loop rest mesh_rep_levels mesh_same_rep mesh_up_rep)))))))))"

definition mesh_up_step ::
  "'a tensor3 list \<Rightarrow> 'a tensor3 list \<Rightarrow> 'a tensor3 list \<Rightarrow> 'a gnn list
     \<Rightarrow> 'a gnn list \<Rightarrow> ('a tensor3 list \<times> 'a tensor3 list \<times> 'a tensor3 list) traced"
where
  "mesh_up_step mesh_rep_levels mesh_same_rep mesh_up_rep up_gnns same_gnns =
     bindT (liftT (get same_gnns 0)) (\<lambda>bottom_gnn.
     bindT (liftT (get mesh_rep_levels 0)) (\<lambda>bottom_rep.
     bindT (liftT (get mesh_same_rep 0)) (\<lambda>bottom_same_rep.
     bindT (call bottom_gnn bottom_rep bottom_rep bottom_same_rep)
       (\<lambda>(new_bottom_rep, new_same_rep).
     bindT (liftT (put mesh_rep_levels 0 new_bottom_rep)) (\<lambda>mesh_rep_levels.
     bindT (liftT (put mesh_same_rep 0 new_same_rep)) (\<lambda>mesh_same_rep.
     up_loop (enumerate_from 1 (zip up_gnns (drop 1 same_gnns)))
       mesh_rep_levels mesh_same_rep mesh_up_rep))))))"

text \<open>
  \<open>HiLAM.hi_processor_step\<close>: for each processing layer, a down sweep and then an up
  sweep, with the nets of that layer.
\<close>

fun hi_layers ::
  "nat \<Rightarrow> ('a gnn list \<times> 'a gnn list \<times> 'a gnn list \<times> 'a gnn list) list
     \<Rightarrow> 'a tensor3 list \<Rightarrow> 'a tensor3 list \<Rightarrow> 'a tensor3 list \<Rightarrow> 'a tensor3 list
     \<Rightarrow> 'a hi_lists traced" where
  "hi_layers n_levels [] mesh_rep_levels mesh_same_rep mesh_up_rep mesh_down_rep =
     returnT (mesh_rep_levels, mesh_same_rep, mesh_up_rep, mesh_down_rep)"
| "hi_layers n_levels ((down_gnns, down_same_gnns, up_gnns, up_same_gnns) # rest)
      mesh_rep_levels mesh_same_rep mesh_up_rep mesh_down_rep =
     bindT (mesh_down_step n_levels mesh_rep_levels mesh_same_rep mesh_down_rep
              down_gnns down_same_gnns)
       (\<lambda>(mesh_rep_levels, mesh_same_rep, mesh_down_rep).
     bindT (mesh_up_step mesh_rep_levels mesh_same_rep mesh_up_rep up_gnns up_same_gnns)
       (\<lambda>(mesh_rep_levels, mesh_same_rep, mesh_up_rep).
     hi_layers n_levels rest mesh_rep_levels mesh_same_rep mesh_up_rep mesh_down_rep))"

definition hi_processor_step_seq ::
  "'a hilam \<Rightarrow> 'a tensor3 list \<Rightarrow> 'a tensor3 list \<Rightarrow> 'a tensor3 list
     \<Rightarrow> 'a tensor3 list \<Rightarrow> 'a hi_lists traced" where
  "hi_processor_step_seq m mesh_rep_levels mesh_same_rep mesh_up_rep mesh_down_rep =
     hi_layers (N_levels (seq_base m))
       (zip (mesh_down_gnns m) (zip (mesh_down_same_gnns m)
          (zip (mesh_up_gnns m) (mesh_up_same_gnns m))))
       mesh_rep_levels mesh_same_rep mesh_up_rep mesh_down_rep"


section \<open>Shapes, well-formed graphs and the contracts of the sub-networks\<close>

text \<open>
  \<open>shapes B F ns ts\<close>: the list \<open>ts\<close> has one tensor per entry of \<open>ns\<close>, tensor \<open>l\<close>
  of shape \<open>(B, ns[l], F)\<close>.
\<close>

definition shapes :: "nat \<Rightarrow> nat \<Rightarrow> nat list \<Rightarrow> 'a tensor3 list \<Rightarrow> bool" where
  "shapes B F ns ts = list_all2 (\<lambda>t n. has_shape B n F t) ts ns"

text \<open>
  The node counts an \<open>InteractionNet\<close> is built for. Its constructor (in \<open>neural_lam\<close>)
  shifts the sender row and the receiver row of the edge index to start at 0 and takes
  \<open>num_rec = edge_index[1].max() + 1\<close>; its forward pass aggregates the messages into
  \<open>num_rec\<close> rows, which it concatenates with the receiver representation, and looks the
  senders up behind the receivers. So a net accepts exactly \<open>num_rec\<close> receivers and at
  least as many senders as its sender indices span; with other counts, or on an empty
  edge index, it raises. An edge index is the list of its (sender, receiver) columns.
\<close>

definition num_rec :: "(nat \<times> nat) list \<Rightarrow> nat" where
  "num_rec ei = Max (set (map snd ei)) - Min (set (map snd ei)) + 1"

definition num_send :: "(nat \<times> nat) list \<Rightarrow> nat" where
  "num_send ei = Max (set (map fst ei)) - Min (set (map fst ei)) + 1"

definition fits :: "(nat \<times> nat) list \<Rightarrow> nat \<Rightarrow> nat \<Rightarrow> bool" where
  "fits ei n_send n_rec = (ei \<noteq> [] \<and> n_rec = num_rec ei \<and> num_send ei \<le> n_send)"

text \<open>
  What the spec (4.1) and the docstrings of \<open>models.py\<close> say of an \<open>InteractionNet\<close>
  over \<open>M\<close> edges in hidden dimension \<open>d\<close>, built for \<open>n_send\<close> senders and \<open>n_rec\<close>
  receivers: on sender, receiver and edge representations of shapes \<open>(B, n_send, d)\<close>,
  \<open>(B, n_rec, d)\<close> and \<open>(B, M, d)\<close> it returns a receiver representation and an edge
  representation of the shapes it was given. \<open>inet_contract\<close> asks this of every net
  the factory builds, for the node counts that fit the edge index of the net; it
  says nothing of a net on other counts.
\<close>

definition gnn_ok :: "nat \<Rightarrow> nat \<Rightarrow> nat \<Rightarrow> nat \<Rightarrow> 'a gnn \<Rightarrow> bool" where
  "gnn_ok d M n_send n_rec g =
     (\<forall>B s r e.
        has_shape B n_send d s \<and> has_shape B n_rec d r \<and> has_shape B M d e \<longrightarrow>
        (\<exists>r' e'. forward g s r e = Inr (r', e')
                  \<and> has_shape B n_rec d r' \<and> has_shape B M d e'))"

definition inet_contract :: "'a nets \<Rightarrow> bool" where
  "inet_contract nets =
     (\<forall>i args n_send n_rec.
        fits (edge_index args) n_send n_rec \<longrightarrow>
        gnn_ok (net_hidden_dim args) (length (edge_index args)) n_send n_rec
          (mk_gnn nets i args))"

text \<open>
  \<open>utils.make_mlp(blueprint)\<close> maps the last axis from \<open>blueprint[0]\<close> to
  \<open>blueprint[-1]\<close> features and keeps the other axes.
\<close>

definition mlp_ok :: "nat \<Rightarrow> nat \<Rightarrow> 'a mlp \<Rightarrow> bool" where
  "mlp_ok d_in d_out f =
     (\<forall>x. wf2 x \<and> cols2 x = d_in \<longrightarrow>
        (\<exists>y. f x = Inr y \<and> wf2 y \<and> rows2 y = rows2 x \<and> cols2 y = d_out))"

definition mlp_contract :: "'a nets \<Rightarrow> bool" where
  "mlp_contract nets =
     (\<forall>i blueprint. blueprint \<noteq> [] \<longrightarrow>
        mlp_ok (hd blueprint) (last blueprint) (make_mlp nets i blueprint))"

text \<open>
  \<open>edges_fit eis S R\<close>: the edge index of entry \<open>l\<close> fits \<open>S l\<close> senders and \<open>R l\<close>
  receivers.
\<close>

definition edges_fit :: "(nat \<times> nat) list list \<Rightarrow> (nat \<Rightarrow> nat) \<Rightarrow> (nat \<Rightarrow> nat) \<Rightarrow> bool" where
  "edges_fit eis S R = list_all (\<lambda>l. fits (eis ! l) (S l) (R l)) [0..<length eis]"

text \<open>
  A well-formed hierarchical graph with \<open>L \<ge> 2\<close> levels: \<open>L\<close> entries for the nodes and
  the same-level edges, \<open>L - 1\<close> for the up and the down edges; within a family all
  feature matrices have the feature size of level 0 (the assumption of line 172); every
  feature matrix has one row per column of its edge index; and every edge index fits
  the node counts of the levels it joins: the same-level edges of level \<open>l\<close> send and
  receive on level \<open>l\<close>, the up edges \<open>l\<close> send on level \<open>l\<close> and receive on level
  \<open>l + 1\<close>, the down edges \<open>l\<close> send on level \<open>l + 1\<close> and receive on level \<open>l\<close>.
\<close>

definition same_cols :: "'a tensor2 list \<Rightarrow> bool" where
  "same_cols fs = list_all (\<lambda>f. wf2 f \<and> cols2 f = cols2 (hd fs)) fs"

definition graph_fits :: "'a hi_graph \<Rightarrow> nat list \<Rightarrow> bool" where
  "graph_fits g Ns =
     (edges_fit (m2m_edge_index g) (\<lambda>l. Ns ! l) (\<lambda>l. Ns ! l)
      \<and> edges_fit (mesh_up_edge_index g) (\<lambda>l. Ns ! l) (\<lambda>l. Ns ! (l + 1))
      \<and> edges_fit (mesh_down_edge_index g) (\<lambda>l. Ns ! (l + 1)) (\<lambda>l. Ns ! l))"

definition wf_hi_graph :: "'a hi_graph \<Rightarrow> bool" where
  "wf_hi_graph g =
     (let L = length (mesh_static_features g)
      in 2 \<le> L
         \<and> length (m2m_features g) = L
         \<and> length (mesh_up_features g) = L - 1
         \<and> length (mesh_down_features g) = L - 1
         \<and> same_cols (mesh_static_features g)
         \<and> same_cols (m2m_features g)
         \<and> same_cols (mesh_up_features g)
         \<and> same_cols (mesh_down_features g)
         \<and> map length (m2m_edge_index g) = map rows2 (m2m_features g)
         \<and> map length (mesh_up_edge_index g) = map rows2 (mesh_up_features g)
         \<and> map length (mesh_down_edge_index g) = map rows2 (mesh_down_features g)
         \<and> graph_fits g (map rows2 (mesh_static_features g)))"

text \<open>
  What \<open>process_step\<close> needs of the method \<open>hi_processor_step\<close> (its docstring: "Returns
  same lists"): on lists of the shapes of the graph it returns node and down-edge lists
  of the same shapes.
\<close>

definition hi_step_contract ::
  "('a tensor3 list \<Rightarrow> 'a tensor3 list \<Rightarrow> 'a tensor3 list \<Rightarrow> 'a tensor3 list
      \<Rightarrow> 'a hi_lists traced)
     \<Rightarrow> nat \<Rightarrow> nat \<Rightarrow> nat list \<Rightarrow> nat list \<Rightarrow> nat list \<Rightarrow> nat list \<Rightarrow> bool" where
  "hi_step_contract hi_step B d Ns Ms Mu Md =
     (\<forall>levels same up down.
        shapes B d Ns levels \<and> shapes B d Ms same \<and> shapes B d Mu up \<and> shapes B d Md down
        \<longrightarrow> (\<exists>levels' same' up' down' tr.
               hi_step levels same up down = Inr ((levels', same', up', down'), tr)
               \<and> shapes B d Ns levels' \<and> shapes B d Md down'))"

text \<open>
  The calls of one \<open>HiLAM\<close> processing layer \<open>k\<close> on \<open>n\<close> levels, in order: the down
  sweep from level \<open>n - 1\<close> to level 0, then the up sweep from level 0 to level \<open>n - 1\<close>.
\<close>

definition down_trace :: "nat \<Rightarrow> nat \<Rightarrow> net_id list" where
  "down_trace k n =
     MeshDownSameGnn k (n - 1)
       # concat (map (\<lambda>l. [MeshDownGnn k l, MeshDownSameGnn k l]) (rev [0..<n - 1]))"

definition up_trace :: "nat \<Rightarrow> nat \<Rightarrow> net_id list" where
  "up_trace k n =
     MeshUpSameGnn k 0
       # concat (map (\<lambda>l. [MeshUpGnn k (l - 1), MeshUpSameGnn k l]) [1..<n])"

definition seq_trace :: "nat \<Rightarrow> nat \<Rightarrow> net_id list" where
  "seq_trace n layers = concat (map (\<lambda>k. down_trace k n @ up_trace k n) [0..<layers])"

text \<open>
  A family of nets, one per entry of \<open>Ms\<close>: net \<open>l\<close> is named \<open>name l\<close> and keeps the
  contract of an \<open>InteractionNet\<close> over \<open>Ms[l]\<close> edges in hidden dimension \<open>d\<close>, built
  for \<open>S l\<close> senders and \<open>R l\<close> receivers.
\<close>

definition family_ok ::
  "nat \<Rightarrow> nat list \<Rightarrow> (nat \<Rightarrow> nat) \<Rightarrow> (nat \<Rightarrow> nat) \<Rightarrow> (nat \<Rightarrow> net_id) \<Rightarrow> 'a gnn list \<Rightarrow> bool"
where
  "family_ok d Ms S R name gs =
     (length gs = length Ms
      \<and> (\<forall>l < length Ms. gnn_ok d (Ms ! l) (S l) (R l) (gs ! l) \<and> gnn_id (gs ! l) = name l))"


section \<open>A small concrete model\<close>

text \<open>
  Stand-ins for the external networks, used to run the models on concrete input.
  Every MLP returns the zero matrix of its output width. Every \<open>InteractionNet\<close> checks
  what the real one requires (node counts that fit its edge index, one edge
  representation per edge, equal batch sizes, the hidden dimension on every input) and
  raises a \<open>RuntimeError\<close> otherwise; it adds one to each entry of the receiver
  representation and returns the edge representation as it is.

  The graph has two mesh levels: the nodes 0, 1, 2 on level 0 and the nodes 3, 4 on
  level 1.
\<close>

definition bump :: "('a::{plus,one}) tensor3 \<Rightarrow> 'a tensor3" where
  "bump t = Tensor3 (dimB t) (dimN t) (dimF t) (map (map (map (\<lambda>x. x + 1))) (vals t))"

definition toy_forward :: "inet_args \<Rightarrow> ('a::{plus,one}) forward" where
  "toy_forward args send_rep rec_rep edge_rep =
     (if fits (edge_index args) (dimN send_rep) (dimN rec_rep)
         \<and> dimN edge_rep = length (edge_index args)
         \<and> dimB send_rep = dimB rec_rep \<and> dimB edge_rep = dimB rec_rep
         \<and> dimF send_rep = net_hidden_dim args \<and> dimF rec_rep = net_hidden_dim args
         \<and> dimF edge_rep = net_hidden_dim args
      then Inr (bump rec_rep, edge_rep)
      else Inl RuntimeError)"

definition toy_nets :: "('a::{zero,plus,one}) nets" where
  "toy_nets =
     \<lparr>make_mlp = (\<lambda>i blueprint x.
         Inr (Tensor2 (rows2 x) (last blueprint)
                (replicate (rows2 x) (replicate (last blueprint) 0)))),
      interaction_net = (\<lambda>i args. toy_forward args)\<rparr>"

definition toy_graph :: "('a::{zero,one}) hi_graph" where
  "toy_graph =
     \<lparr>mesh_static_features = [Tensor2 3 1 [[0], [1], [0]], Tensor2 2 1 [[1], [0]]],
      m2m_features = [Tensor2 3 1 [[1], [0], [1]], Tensor2 2 1 [[0], [1]]],
      mesh_up_features = [Tensor2 2 1 [[1], [1]]],
      mesh_down_features = [Tensor2 3 1 [[0], [1], [1]]],
      m2m_edge_index = [[(0, 1), (1, 2), (2, 0)], [(3, 4), (4, 3)]],
      mesh_up_edge_index = [[(0, 3), (2, 4)]],
      mesh_down_edge_index = [[(3, 0), (3, 1), (4, 2)]]\<rparr>"

definition toy_hp :: "nat \<Rightarrow> graph_hp" where
  "toy_hp layers =
     \<lparr>hidden_dim = 2, hidden_layers = 1, processor_layers = layers, mesh_aggr = ''sum''\<rparr>"

definition toy_levels :: "int tensor3 list" where
  "toy_levels = [Tensor3 1 3 2 [[[1, 1], [2, 2], [3, 3]]], Tensor3 1 2 2 [[[4, 4], [5, 5]]]]"

definition toy_same :: "int tensor3 list" where
  "toy_same = [Tensor3 1 3 2 [[[0, 1], [0, 2], [0, 3]]], Tensor3 1 2 2 [[[0, 4], [0, 5]]]]"

definition toy_up :: "int tensor3 list" where
  "toy_up = [Tensor3 1 2 2 [[[0, 6], [0, 7]]]]"

definition toy_down :: "int tensor3 list" where
  "toy_down = [Tensor3 1 3 2 [[[0, 8], [0, 9], [0, 10]]]]"


section \<open>\<open>BaseGraphModel.predict_step\<close>\<close>

text \<open>
  \<open>torch.cat(ts, dim=-1)\<close>: the tensors must agree in batch size and node count; the
  rows of the result are the rows of the tensors one after the other.
\<close>

definition join_feats :: "nat \<Rightarrow> nat \<Rightarrow> 'a list list list list \<Rightarrow> 'a list list list" where
  "join_feats B N vss = foldr (map2 (map2 (@))) vss (replicate B (replicate N []))"

definition cat_last :: "'a tensor3 list \<Rightarrow> error + 'a tensor3" where
  "cat_last ts =
     (case ts of
        [] \<Rightarrow> Inl RuntimeError
      | t # rest \<Rightarrow>
          if list_all (\<lambda>u. dimB u = dimB t \<and> dimN u = dimN t) rest
          then Inr (Tensor3 (dimB t) (dimN t) (sum_list (map dimF ts))
                      (join_feats (dimB t) (dimN t) (map vals ts)))
          else Inl RuntimeError)"

text \<open>
  Broadcasting: two sizes are compatible when they are equal or one of them is 1; an
  axis of size 1 is repeated to the size of the other. Incompatible sizes raise a
  \<open>RuntimeError\<close>. \<open>with_vec f t v\<close> is \<open>t f v\<close> for a tensor of shape \<open>(B, N, F)\<close> and a
  vector of shape \<open>(F,)\<close>, \<open>with_tensor f a b\<close> is \<open>a f b\<close> for two tensors of rank 3.
\<close>

definition bdim :: "nat \<Rightarrow> nat \<Rightarrow> nat option" where
  "bdim a b = (if a = b then Some a else if a = 1 then Some b
               else if b = 1 then Some a else None)"

definition stretch :: "nat \<Rightarrow> 'x list \<Rightarrow> 'x list" where
  "stretch n xs = (if length xs = n then xs else case xs of [x] \<Rightarrow> replicate n x | _ \<Rightarrow> xs)"

definition with_vec :: "('a \<Rightarrow> 'a \<Rightarrow> 'a) \<Rightarrow> 'a tensor3 \<Rightarrow> 'a list \<Rightarrow> error + 'a tensor3" where
  "with_vec f t v =
     (case bdim (dimF t) (length v) of
        None \<Rightarrow> Inl RuntimeError
      | Some F \<Rightarrow>
          Inr (Tensor3 (dimB t) (dimN t) F
                 (map (map (\<lambda>r. map2 f (stretch F r) (stretch F v))) (vals t))))"

definition stretch3 :: "nat \<Rightarrow> nat \<Rightarrow> nat \<Rightarrow> 'a list list list \<Rightarrow> 'a list list list" where
  "stretch3 B N F v = stretch B (map (\<lambda>s. stretch N (map (stretch F) s)) v)"

definition with_tensor ::
  "('a \<Rightarrow> 'a \<Rightarrow> 'a) \<Rightarrow> 'a tensor3 \<Rightarrow> 'a tensor3 \<Rightarrow> error + 'a tensor3" where
  "with_tensor f a b =
     (case (bdim (dimB a) (dimB b), bdim (dimN a) (dimN b), bdim (dimF a) (dimF b)) of
        (Some B, Some N, Some F) \<Rightarrow>
          Inr (Tensor3 B N F
                 (map2 (map2 (map2 f)) (stretch3 B N F (vals a)) (stretch3 B N F (vals b))))
      | _ \<Rightarrow> Inl RuntimeError)"

text \<open>
  The attributes of a \<open>BaseGraphModel\<close> that \<open>predict_step\<close> reads. The sub-networks
  are functions on tensors that may raise; \<open>g2m_gnn\<close> and \<open>m2g_gnn\<close> are built with
  \<open>update_edges=False\<close> and return the receiver representation alone.
  \<open>embedd_mesh_nodes\<close> and \<open>process_step\<close> are the methods of the subclass (the fields
  \<open>embedd_mesh_nodes\<close> and \<open>process_step_method\<close>); in \<open>BaseGraphModel\<close> itself both
  raise \<open>NotImplementedError\<close>. \<open>step_diff_std\<close> and \<open>step_diff_mean\<close> are the
  per-feature statistics of the one-step differences, vectors of shape \<open>(d_f,)\<close>.
\<close>

type_synonym 'a net3 = "'a tensor3 \<Rightarrow> error + 'a tensor3"

type_synonym 'a gnn_nodes = "'a tensor3 \<Rightarrow> 'a tensor3 \<Rightarrow> 'a tensor3 \<Rightarrow> error + 'a tensor3"

record 'a base_graph_model =
  grid_static_features :: "'a tensor2"
  g2m_features :: "'a tensor2"
  m2g_features :: "'a tensor2"
  step_diff_std :: "'a list"
  step_diff_mean :: "'a list"
  grid_embedder :: "'a net3"
  g2m_embedder :: "'a mlp"
  m2g_embedder :: "'a mlp"
  g2m_gnn :: "'a gnn_nodes"
  encoding_grid_mlp :: "'a net3"
  m2g_gnn :: "'a gnn_nodes"
  output_map :: "'a net3"
  embedd_mesh_nodes :: "error + 'a tensor2"
  process_step_method :: "'a net3"

text \<open>Lines 99 to 134 of \<open>predict_step\<close>: the network output before rescaling.\<close>

definition net_output ::
  "('a::{plus,times}) base_graph_model \<Rightarrow> 'a tensor3 \<Rightarrow> 'a tensor3 \<Rightarrow> 'a tensor3
     \<Rightarrow> 'a tensor3 \<Rightarrow> error + 'a tensor3" where
  "net_output m prev_state prev_prev_state batch_static_features forcing =
     (let batch_size = dimB prev_state in
      bind (cat_last [prev_state, prev_prev_state, batch_static_features, forcing,
                      expand_to_batch (grid_static_features m) batch_size])
        (\<lambda>grid_features.
      bind (grid_embedder m grid_features) (\<lambda>grid_emb.
      bind (g2m_embedder m (g2m_features m)) (\<lambda>g2m_emb.
      bind (m2g_embedder m (m2g_features m)) (\<lambda>m2g_emb.
      bind (embedd_mesh_nodes m) (\<lambda>mesh_emb.
      let mesh_emb_expanded = expand_to_batch mesh_emb batch_size;
          g2m_emb_expanded = expand_to_batch g2m_emb batch_size
      in
      bind (g2m_gnn m grid_emb mesh_emb_expanded g2m_emb_expanded) (\<lambda>mesh_rep.
      bind (encoding_grid_mlp m grid_emb) (\<lambda>encoded.
      bind (with_tensor (+) grid_emb encoded) (\<lambda>grid_rep.
      bind (process_step_method m mesh_rep) (\<lambda>mesh_rep.
      let m2g_emb_expanded = expand_to_batch m2g_emb batch_size in
      bind (m2g_gnn m mesh_rep grid_rep m2g_emb_expanded) (\<lambda>grid_rep.
      output_map m grid_rep)))))))))))"

text \<open>\<open>predict_step\<close>: the rescaling and the residual connection, lines 137 to 140.\<close>

definition predict_step ::
  "('a::{plus,times}) base_graph_model \<Rightarrow> 'a tensor3 \<Rightarrow> 'a tensor3 \<Rightarrow> 'a tensor3
     \<Rightarrow> 'a tensor3 \<Rightarrow> error + 'a tensor3" where
  "predict_step m prev_state prev_prev_state batch_static_features forcing =
     bind (net_output m prev_state prev_prev_state batch_static_features forcing)
       (\<lambda>net_output.
     bind (with_vec (*) net_output (step_diff_std m)) (\<lambda>scaled.
     bind (with_vec (+) scaled (step_diff_mean m)) (\<lambda>rescaled_net_output.
     with_tensor (+) prev_state rescaled_net_output)))"

text \<open>
  What a hierarchical model gives to \<open>predict_step\<close>:
  \<open>BaseHiGraphModel.embedd_mesh_nodes\<close> (line 213) embeds the static features of level
  0 alone, and \<open>process_step\<close> is the method above, run with the
  \<open>hi_processor_step\<close> of the subclass. \<open>untraced\<close> is the value of a traced
  computation without the list of calls.
\<close>

definition BaseHiGraphModel_embedd_mesh_nodes ::
  "'a base_hi_graph_model \<Rightarrow> error + 'a tensor2" where
  "BaseHiGraphModel_embedd_mesh_nodes m =
     bind (get (mesh_embedders m) 0) (\<lambda>emb.
     bind (get (mesh_static_features (graph m)) 0) emb)"

definition untraced :: "'r traced \<Rightarrow> error + 'r" where
  "untraced t = bind t (\<lambda>(r, tr). Inr r)"

definition HiLAM_process_step :: "'a hilam \<Rightarrow> 'a net3" where
  "HiLAM_process_step m mesh_rep =
     untraced (process_step (hi_processor_step_seq m) (seq_base m) mesh_rep)"

text \<open>
  A net built with \<open>update_edges=False\<close>, as \<open>g2m_gnn\<close> and \<open>m2g_gnn\<close> are (lines 55
  and 61), returns the node representation alone.
\<close>

definition nodes_only :: "'a forward \<Rightarrow> 'a gnn_nodes" where
  "nodes_only f send_rep rec_rep edge_rep =
     bind (f send_rep rec_rep edge_rep) (\<lambda>(new_node_rep, _). Inr new_node_rep)"

text \<open>
  The contracts of the sub-networks of \<open>predict_step\<close>. An MLP maps the last axis from
  \<open>d_in\<close> to \<open>d_out\<close> features, whatever the other axes. An \<open>InteractionNet\<close> over \<open>M\<close>
  edges, built for \<open>n_send\<close> senders and \<open>n_rec\<close> receivers, returns on representations
  of these counts a representation of the shape of the receivers; nothing is asked of
  it on other counts. \<open>process_step\<close> returns, on a mesh representation of the
  \<open>N_mesh\<close> nodes of the graph, a representation of the same shape (its docstring);
  nothing is asked of it on another number of nodes.
\<close>

definition net3_ok :: "nat \<Rightarrow> nat \<Rightarrow> 'a net3 \<Rightarrow> bool" where
  "net3_ok d_in d_out f =
     (\<forall>B N x. has_shape B N d_in x \<longrightarrow> (\<exists>y. f x = Inr y \<and> has_shape B N d_out y))"

definition gnn_nodes_ok :: "nat \<Rightarrow> nat \<Rightarrow> nat \<Rightarrow> nat \<Rightarrow> 'a gnn_nodes \<Rightarrow> bool" where
  "gnn_nodes_ok d M n_send n_rec g =
     (\<forall>B s r e.
        has_shape B n_send d s \<and> has_shape B n_rec d r \<and> has_shape B M d e \<longrightarrow>
        (\<exists>r'. g s r e = Inr r' \<and> has_shape B n_rec d r'))"

definition process_ok :: "nat \<Rightarrow> nat \<Rightarrow> 'a net3 \<Rightarrow> bool" where
  "process_ok N_mesh d_h f =
     (\<forall>B x. has_shape B N_mesh d_h x \<longrightarrow> (\<exists>y. f x = Inr y \<and> has_shape B N_mesh d_h y))"

text \<open>
  A model with grid features of sizes \<open>d_f\<close> (state), \<open>d_bs\<close> (batch static) and \<open>d_fo\<close>
  (forcing) on \<open>N_grid\<close> grid nodes and \<open>N_mesh\<close> mesh nodes, in hidden dimension
  \<open>d_h\<close>: the grid embedder takes \<open>grid_dim = 2 * d_f + d_static + d_fo + d_bs\<close>
  features (line 35), the output map returns \<open>d_f\<close> features (line 64),
  \<open>embedd_mesh_nodes\<close> returns a matrix of shape \<open>(N_mesh, d_h)\<close>, \<open>g2m_gnn\<close> sends
  from the grid to the mesh and \<open>m2g_gnn\<close> from the mesh to the grid.
\<close>

definition graph_model_ok ::
  "'a base_graph_model \<Rightarrow> nat \<Rightarrow> nat \<Rightarrow> nat \<Rightarrow> nat \<Rightarrow> nat \<Rightarrow> nat \<Rightarrow> bool" where
  "graph_model_ok m N_grid N_mesh d_f d_bs d_fo d_h =
     (wf2 (grid_static_features m) \<and> rows2 (grid_static_features m) = N_grid
      \<and> wf2 (g2m_features m) \<and> wf2 (m2g_features m)
      \<and> net3_ok (2 * d_f + cols2 (grid_static_features m) + d_fo + d_bs) d_h (grid_embedder m)
      \<and> mlp_ok (cols2 (g2m_features m)) d_h (g2m_embedder m)
      \<and> mlp_ok (cols2 (m2g_features m)) d_h (m2g_embedder m)
      \<and> (\<exists>mesh_emb. embedd_mesh_nodes m = Inr mesh_emb \<and> wf2 mesh_emb
                        \<and> rows2 mesh_emb = N_mesh \<and> cols2 mesh_emb = d_h)
      \<and> gnn_nodes_ok d_h (rows2 (g2m_features m)) N_grid N_mesh (g2m_gnn m)
      \<and> net3_ok d_h d_h (encoding_grid_mlp m)
      \<and> process_ok N_mesh d_h (process_step_method m)
      \<and> gnn_nodes_ok d_h (rows2 (m2g_features m)) N_mesh N_grid (m2g_gnn m)
      \<and> net3_ok d_h d_f (output_map m)
      \<and> length (step_diff_std m) = d_f \<and> length (step_diff_mean m) = d_f)"


text \<open>The rescaled and shifted row, and the entries of the residual sum.\<close>

definition rescale_row :: "('a::{plus,times}) list \<Rightarrow> 'a list \<Rightarrow> 'a list \<Rightarrow> 'a list" where
  "rescale_row std mean r = map2 (+) (map2 (*) r std) mean"

definition residual_vals ::
  "('a::{plus,times}) list \<Rightarrow> 'a list \<Rightarrow> 'a list list list \<Rightarrow> 'a list list list
     \<Rightarrow> 'a list list list" where
  "residual_vals std mean prev net =
     map2 (map2 (map2 (+))) prev (map (map (rescale_row std mean)) net)"


section \<open>Floating-point values\<close>

text \<open>
  The tensors of the model hold IEEE 754 floating-point numbers. \<open>ieee\<close> keeps what
  sets them apart from a field: the two infinities and the value that is not a number.
  A product of zero and an infinity is not a number, as is the sum of the two
  infinities, and every operation on what is not a number gives it back. The finite
  values are taken as real numbers: the rounding and the overflow of a finite result
  are left out (a product with zero and a sum with zero, which the theorems below use,
  are exact in IEEE arithmetic), and the two zeros are one value, as they are for
  \<open>torch.equal\<close>.
\<close>

datatype ieee = Fin real | PInf | NInf | NaN

instantiation ieee :: "{zero, one, plus, times}"
begin

definition zero_ieee :: ieee where
  "zero_ieee = Fin 0"

definition one_ieee :: ieee where
  "one_ieee = Fin 1"

fun plus_ieee :: "ieee \<Rightarrow> ieee \<Rightarrow> ieee" where
  "plus_ieee (Fin a) (Fin b) = Fin (a + b)"
| "plus_ieee NaN y = NaN"
| "plus_ieee x NaN = NaN"
| "plus_ieee PInf NInf = NaN"
| "plus_ieee NInf PInf = NaN"
| "plus_ieee PInf y = PInf"
| "plus_ieee x PInf = PInf"
| "plus_ieee NInf y = NInf"
| "plus_ieee x NInf = NInf"

fun times_ieee :: "ieee \<Rightarrow> ieee \<Rightarrow> ieee" where
  "times_ieee (Fin a) (Fin b) = Fin (a * b)"
| "times_ieee NaN y = NaN"
| "times_ieee x NaN = NaN"
| "times_ieee (Fin a) PInf = (if a = 0 then NaN else if 0 < a then PInf else NInf)"
| "times_ieee (Fin a) NInf = (if a = 0 then NaN else if 0 < a then NInf else PInf)"
| "times_ieee PInf (Fin b) = (if b = 0 then NaN else if 0 < b then PInf else NInf)"
| "times_ieee NInf (Fin b) = (if b = 0 then NaN else if 0 < b then NInf else PInf)"
| "times_ieee PInf PInf = PInf"
| "times_ieee PInf NInf = NInf"
| "times_ieee NInf PInf = NInf"
| "times_ieee NInf NInf = PInf"

instance ..

end



section \<open>A small \<open>BaseGraphModel\<close>\<close>

text \<open>
  A hierarchical model on two grid nodes (the nodes 5 and 6) and the mesh of the small
  graph above, with one state feature, one batch static feature, one forcing feature
  and one static grid feature, in hidden dimension 2. The grid embedder keeps the first
  two of the five grid features (the two states) and the encoding MLP returns zero;
  \<open>g2m_gnn\<close> and \<open>m2g_gnn\<close> are nets of the small factory over three edges from the
  grid to level 0 and two edges back; \<open>embedd_mesh_nodes\<close> and \<open>process_step\<close> are those
  of the \<open>HiLAM\<close> with one processing layer on the small graph. The output map and the
  statistics of the step differences are parameters.
\<close>

definition keep3 :: "nat \<Rightarrow> 'a net3" where
  "keep3 d x = Inr (Tensor3 (dimB x) (dimN x) d (map (map (take d)) (vals x)))"

definition const3 :: "nat \<Rightarrow> 'a \<Rightarrow> 'a net3" where
  "const3 d c x =
     Inr (Tensor3 (dimB x) (dimN x) d (replicate (dimB x) (replicate (dimN x) (replicate d c))))"

definition toy_g2m_edge_index :: "(nat \<times> nat) list" where
  "toy_g2m_edge_index = [(5, 0), (5, 1), (6, 2)]"

definition toy_m2g_edge_index :: "(nat \<times> nat) list" where
  "toy_m2g_edge_index = [(0, 5), (2, 6)]"

definition toy_model ::
  "'a net3 \<Rightarrow> 'a list \<Rightarrow> 'a list \<Rightarrow> ('a::{zero,one,plus,times}) base_graph_model" where
  "toy_model out_map std mean =
     \<lparr>grid_static_features = Tensor2 2 1 [[0], [0]],
      g2m_features = Tensor2 3 1 [[1], [1], [1]],
      m2g_features = Tensor2 2 1 [[1], [1]],
      step_diff_std = std,
      step_diff_mean = mean,
      grid_embedder = keep3 2,
      g2m_embedder = make_mlp toy_nets G2mEmbedder [1, 2],
      m2g_embedder = make_mlp toy_nets M2gEmbedder [1, 2],
      g2m_gnn = nodes_only (interaction_net toy_nets G2mGnn
                  ((default_args toy_g2m_edge_index (toy_hp 1))\<lparr>update_edges := False\<rparr>)),
      encoding_grid_mlp = const3 2 0,
      m2g_gnn = nodes_only (interaction_net toy_nets M2gGnn
                  ((default_args toy_m2g_edge_index (toy_hp 1))\<lparr>update_edges := False\<rparr>)),
      output_map = out_map,
      embedd_mesh_nodes =
        bind (HiLAM_init toy_nets (toy_hp 1) toy_graph)
          (\<lambda>h. BaseHiGraphModel_embedd_mesh_nodes (seq_base h)),
      process_step_method =
        (\<lambda>mesh_rep. bind (HiLAM_init toy_nets (toy_hp 1) toy_graph)
                      (\<lambda>h. HiLAM_process_step h mesh_rep))\<rparr>"

definition toy_prev :: "int tensor3" where
  "toy_prev = Tensor3 1 2 1 [[[5], [7]]]"

definition toy_prev_prev :: "int tensor3" where
  "toy_prev_prev = Tensor3 1 2 1 [[[4], [6]]]"

definition toy_batch_static :: "int tensor3" where
  "toy_batch_static = Tensor3 1 2 1 [[[1], [1]]]"

definition toy_forcing :: "int tensor3" where
  "toy_forcing = Tensor3 1 2 1 [[[9], [9]]]"



section \<open>\<open>GraphLAM.__init__\<close>\<close>

text \<open>
  Construction is modelled on the attributes of the object. An attribute is a tensor
  (kept by its shape), a \<open>BufferList\<close> of tensors, an integer, a boolean, a list of
  integers or a sub-module. The object is the association list of its attributes,
  \<open>setattr\<close> and \<open>register_buffer\<close> put a binding in front, and reading a name that has
  no binding raises \<open>AttributeError\<close>, as \<open>nn.Module.__getattr__\<close> does.
\<close>

datatype pyval =
    TensorVal "nat list" | BufferList "nat list list" | IntVal nat | BoolVal bool
  | IntList "nat list" | Module

type_synonym attrs = "(string \<times> pyval) list"

definition setattr :: "attrs \<Rightarrow> string \<Rightarrow> pyval \<Rightarrow> attrs" where
  "setattr self name v = (name, v) # self"

definition getattr :: "attrs \<Rightarrow> string \<Rightarrow> error + pyval" where
  "getattr self name =
     (case map_of self name of None \<Rightarrow> Inl AttributeError | Some v \<Rightarrow> Inr v)"

text \<open>
  \<open>a, b = x.shape\<close>, \<open>x.shape[0]\<close> and \<open>x.shape[1]\<close>. Only a tensor has a shape; the
  unpacking of a shape that has not two entries raises \<open>ValueError\<close>.
\<close>

fun shape_pair :: "pyval \<Rightarrow> error + (nat \<times> nat)" where
  "shape_pair (TensorVal [a, b]) = Inr (a, b)"
| "shape_pair (TensorVal _) = Inl ValueError"
| "shape_pair _ = Inl AttributeError"

fun shape_at :: "nat \<Rightarrow> pyval \<Rightarrow> error + nat" where
  "shape_at i (TensorVal s) = get s i"
| "shape_at i _ = Inl AttributeError"

fun int_of :: "pyval \<Rightarrow> error + nat" where
  "int_of (IntVal n) = Inr n"
| "int_of _ = Inl OtherError"

text \<open>The truth value of an attribute, for \<open>assert not self.hierarchical\<close>.\<close>

fun truth :: "pyval \<Rightarrow> bool" where
  "truth (BoolVal b) = b"
| "truth (IntVal n) = (n \<noteq> 0)"
| "truth (IntList l) = (l \<noteq> [])"
| "truth (BufferList l) = (l \<noteq> [])"
| "truth _ = True"

text \<open>
  \<open>BaseGraphModel.__init__\<close>, lines 14 to 65. \<open>ARModel.__init__\<close> and \<open>load_graph\<close> belong
  to \<open>pnia/models/ar_model.py\<close>, which the sources here do not include: what they
  return is a parameter, \<open>ar_init\<close> the attributes of the object after
  \<open>super().__init__(hp)\<close> and \<open>load_graph\<close> the pair of the hierarchical flag and the
  dictionary of graph tensors, each possibly an exception. \<open>utils.make_mlp\<close> and the
  \<open>InteractionNet\<close> constructor come from \<open>neural_lam\<close> and are taken to return a
  module. \<open>get_num_mesh\<close> is the method of the subclass.
\<close>

definition BaseGraphModel_init ::
  "(attrs \<Rightarrow> error + (nat \<times> nat)) \<Rightarrow> error + attrs \<Rightarrow> error + (bool \<times> attrs) \<Rightarrow> graph_hp
     \<Rightarrow> error + attrs" where
  "BaseGraphModel_init get_num_mesh ar_init load_graph hp =
     bind ar_init (\<lambda>self.
     bind load_graph (\<lambda>(hierarchical, graph_ldict).
     let self = setattr self ''hierarchical'' (BoolVal hierarchical);
         self = foldl (\<lambda>self (name, attr_value). setattr self name attr_value) self graph_ldict
     in
     bind (bind (getattr self ''grid_static_features'') shape_pair)
       (\<lambda>(N_grid, grid_static_dim).
     let self = setattr self ''N_grid'' (IntVal N_grid) in
     bind (get_num_mesh self) (\<lambda>(N_mesh, N_mesh_ignore).
     let self = setattr self ''N_mesh'' (IntVal N_mesh) in
     bind (bind (getattr self ''grid_state_dim'') int_of) (\<lambda>grid_state_dim.
     bind (bind (getattr self ''grid_forcing_dim'') int_of) (\<lambda>grid_forcing_dim.
     bind (bind (getattr self ''batch_static_feature_dim'') int_of)
       (\<lambda>batch_static_feature_dim.
     let grid_dim = 2 * grid_state_dim + grid_static_dim + grid_forcing_dim
                      + batch_static_feature_dim
     in
     bind (bind (getattr self ''g2m_features'') shape_pair) (\<lambda>(g2m_edges, g2m_dim).
     let self = setattr self ''g2m_edges'' (IntVal g2m_edges) in
     bind (bind (getattr self ''m2g_features'') shape_pair) (\<lambda>(m2g_edges, m2g_dim).
     let self = setattr self ''m2g_edges'' (IntVal m2g_edges);
         self = setattr self ''mlp_blueprint_end''
                  (IntList (replicate (hidden_layers hp + 1) (hidden_dim hp)));
         self = setattr self ''grid_embedder'' Module;
         self = setattr self ''g2m_embedder'' Module;
         self = setattr self ''m2g_embedder'' Module
     in
     bind (getattr self ''g2m_edge_index'') (\<lambda>_.
     let self = setattr self ''g2m_gnn'' Module;
         self = setattr self ''encoding_grid_mlp'' Module
     in
     bind (getattr self ''m2g_edge_index'') (\<lambda>_.
     let self = setattr self ''m2g_gnn'' Module;
         self = setattr self ''output_map'' Module
     in Inr self)))))))))))"

text \<open>\<open>GraphLAM.get_num_mesh\<close>: \<open>self.mesh_static_features.shape[0], 0\<close>.\<close>

definition GraphLAM_get_num_mesh :: "attrs \<Rightarrow> error + (nat \<times> nat)" where
  "GraphLAM_get_num_mesh self =
     bind (bind (getattr self ''mesh_static_features'') (shape_at 0)) (\<lambda>n. Inr (n, 0))"

text \<open>
  \<open>GraphLAM.__init__\<close>, lines 306 to 332. Line 309 asserts on the attribute
  \<open>hierarchical\<close>; line 310 prints the attribute \<open>hierachical\<close>. The processor nets read
  \<open>self.m2m_edge_index\<close> once per processing layer; with no processing layer the list
  of nets is empty and \<open>pyg.nn.Sequential\<close>, which asserts that it is given at least one
  module, raises.
\<close>

definition GraphLAM_init ::
  "error + attrs \<Rightarrow> error + (bool \<times> attrs) \<Rightarrow> graph_hp \<Rightarrow> error + attrs" where
  "GraphLAM_init ar_init load_graph hp =
     bind (BaseGraphModel_init GraphLAM_get_num_mesh ar_init load_graph hp) (\<lambda>self.
     bind (getattr self ''hierarchical'') (\<lambda>h.
     if truth h then Inl AssertionError else
     bind (getattr self ''hierachical'') (\<lambda>_.
     bind (bind (getattr self ''mesh_static_features'') (shape_at 1)) (\<lambda>mesh_dim.
     bind (bind (getattr self ''m2m_features'') shape_pair) (\<lambda>(m2m_edges, m2m_dim).
     bind (getattr self ''g2m_edges'') (\<lambda>_.
     bind (getattr self ''m2g_edges'') (\<lambda>_.
     bind (getattr self ''mlp_blueprint_end'') (\<lambda>_.
     let self = setattr self ''mesh_embedder'' Module;
         self = setattr self ''m2m_embedder'' Module
     in
     bind (if processor_layers hp = 0 then Inl AssertionError
           else getattr self ''m2m_edge_index'') (\<lambda>_.
     Inr (setattr self ''processor'' Module))))))))))"

text \<open>
  A valid configuration with a flat graph: the state, forcing and batch static feature
  sizes that \<open>ARModel.__init__\<close> sets, and the tensors of a graph with two grid nodes
  and three mesh nodes, each edge feature matrix with one row per edge.
\<close>

definition flat_ar :: attrs where
  "flat_ar =
     [(''grid_state_dim'', IntVal 1), (''grid_forcing_dim'', IntVal 1),
      (''batch_static_feature_dim'', IntVal 1),
      (''step_diff_mean'', TensorVal [1]), (''step_diff_std'', TensorVal [1])]"

definition flat_ldict :: attrs where
  "flat_ldict =
     [(''grid_static_features'', TensorVal [2, 1]),
      (''g2m_edge_index'', TensorVal [2, 2]), (''m2g_edge_index'', TensorVal [2, 2]),
      (''m2m_edge_index'', TensorVal [2, 4]),
      (''g2m_features'', TensorVal [2, 3]), (''m2g_features'', TensorVal [2, 3]),
      (''m2m_features'', TensorVal [4, 3]),
      (''mesh_static_features'', TensorVal [3, 2])]"


section \<open>Properties of the training entry point\<close>

lemma main_val_mode:
  "main tr va te (Some ''val'') = Inr (Test (loader te))"
  by (simp add: main_def)

lemma main_train_mode:
  "main tr va te None = Inr (Fit (loader tr) (loader va))"
  by (simp add: main_def)

text \<open>
  C10. The claim reads: in both evaluation modes, \<open>"val"\<close> and \<open>"test"\<close>, \<open>main\<close> calls
  \<open>trainer.test\<close> with the loader of the test dataset. In mode \<open>"test"\<close> the code binds
  \<open>eval_loader\<close> nowhere, since the assignment of the test loader stands inside the
  \<open>"val"\<close> branch: \<open>main\<close> raises \<open>UnboundLocalError\<close> and \<open>trainer.test\<close> is not
  called at all. The datasets here carry the loaders 0 (train), 1 (validation) and
  2 (test).
\<close>

theorem main_test_mode_unbound:
  "main \<lparr>loader = 0::nat\<rparr> \<lparr>loader = 1\<rparr> \<lparr>loader = 2\<rparr> (Some ''test'') = Inl UnboundLocalError
   \<and> main \<lparr>loader = 0::nat\<rparr> \<lparr>loader = 1\<rparr> \<lparr>loader = 2\<rparr> (Some ''val'') = Inr (Test 2)"
  by (simp add: main_def)


section \<open>Properties of the dataset registry\<close>

lemma register_guarded_ok:
  "register_guarded cs name cfg msg (Inr k) st
     = Inr (st\<lparr>registry := (registry st)(name \<mapsto> (k, cfg))\<rparr>)"
  by (simp add: register_guarded_def)

lemma register_guarded_missing:
  assumes "missing_dependency outcome" and "ImportError \<in> set cs"
  shows "register_guarded cs name cfg msg outcome st
           = Inr (st\<lparr>warnings := warnings st @ [msg]\<rparr>)"
proof -
  from assms(1) obtain e where e: "outcome = Inl e" "is_instance e ImportError"
    by (auto simp: missing_dependency_def)
  with assms(2) have "catches cs e"
    unfolding catches_def list_ex_iff by blast
  with e show ?thesis by (simp add: register_guarded_def)
qed

text \<open>
  C9. When the import of a dataset implementation fails for a missing dependency
  (\<open>ModuleNotFoundError\<close> or \<open>ImportError\<close>) and the other one either succeeds or fails the
  same way, the import of the module succeeds; a dataset whose import failed is absent
  from the registry and has produced one warning, one whose import succeeded is
  registered with its default configuration file, and \<open>get_datasets\<close> on an absent name
  is a \<open>ValueError\<close>.
\<close>

theorem missing_dependency_is_warning:
  fixes smeagol_import titan_import :: "error + 'd"
  assumes "imported smeagol_import \<or> missing_dependency smeagol_import"
    and "imported titan_import \<or> missing_dependency titan_import"
  shows "\<exists>st. datasets_module default_config_root (Inr ()) smeagol_import titan_import = Inr st
      \<and> (''smeagol'' \<in> dom (registry st)) = imported smeagol_import
      \<and> (''titan'' \<in> dom (registry st)) = imported titan_import
      \<and> dom (registry st) \<subseteq> {''smeagol'', ''titan''}
      \<and> warnings st =
           (if missing_dependency smeagol_import then [''Could not import SmeagolDataset.''] else [])
         @ (if missing_dependency titan_import then [''Could not import TitanDataset.''] else [])
      \<and> (missing_dependency smeagol_import \<longrightarrow> get_datasets st ''smeagol'' cf = Inl ValueError)
      \<and> (missing_dependency titan_import \<longrightarrow> get_datasets st ''titan'' cf = Inl ValueError)
      \<and> (\<forall>k. smeagol_import = Inr k \<longrightarrow>
             get_datasets st ''smeagol'' None = Inr (k, default_config_root @ ''/smeagol.json''))
      \<and> (\<forall>k. titan_import = Inr k \<longrightarrow>
             get_datasets st ''titan'' None = Inr (k, default_config_root @ ''/titan.json''))"
proof -
  let ?st0 = "\<lparr>registry = Map.empty, warnings = []\<rparr> :: 'd module_state"
  have ne: "''smeagol'' \<noteq> ''titan''" by simp
  consider (ss) ks kt where "smeagol_import = Inr ks" "titan_import = Inr kt"
    | (sf) ks where "smeagol_import = Inr ks" "missing_dependency titan_import"
    | (fs) kt where "missing_dependency smeagol_import" "titan_import = Inr kt"
    | (ff) "missing_dependency smeagol_import" "missing_dependency titan_import"
    using assms by (auto simp: imported_def split: sum.splits)
  then show ?thesis
  proof cases
    case ss
    then show ?thesis
      by (simp add: datasets_module_def bind_def register_guarded_ok imported_def
          missing_dependency_def get_datasets_def)
  next
    case sf
    then have "\<not> imported titan_import"
      by (auto simp: missing_dependency_def imported_def)
    with sf show ?thesis
      by (simp add: datasets_module_def bind_def register_guarded_ok
          register_guarded_missing imported_def get_datasets_def)
        (auto simp: missing_dependency_def)
  next
    case fs
    then have "\<not> imported smeagol_import"
      by (auto simp: missing_dependency_def imported_def)
    with fs show ?thesis
      by (simp add: datasets_module_def bind_def register_guarded_ok
          register_guarded_missing imported_def get_datasets_def)
        (auto simp: missing_dependency_def)
  next
    case ff
    then have "\<not> imported smeagol_import" "\<not> imported titan_import"
      by (auto simp: missing_dependency_def imported_def)
    with ff show ?thesis
      by (simp add: datasets_module_def bind_def register_guarded_missing get_datasets_def)
        (auto simp: missing_dependency_def)
  qed
qed

theorem missing_dependency_is_warning_witness:
  "\<exists>st. datasets_module ''config'' (Inr ()) (Inl ModuleNotFoundError) (Inr (7::nat)) = Inr st
      \<and> ''smeagol'' \<notin> dom (registry st)
      \<and> ''titan'' \<in> dom (registry st)
      \<and> warnings st = [''Could not import SmeagolDataset.'']
      \<and> get_datasets st ''smeagol'' None = Inl ValueError
      \<and> get_datasets st ''titan'' None = Inr (7, ''config/titan.json'')"
  using missing_dependency_is_warning
    [of "Inl ModuleNotFoundError" "Inr (7::nat)" "''config''" None]
  by (auto simp: imported_def missing_dependency_def)

section \<open>Monad laws\<close>

lemma bind_Inr [simp]: "bind (Inr x) f = f x"
  by (simp add: bind_def)

lemma bind_Inl [simp]: "bind (Inl e) f = Inl e"
  by (simp add: bind_def)

lemma bindT_Inl [simp]: "bindT (Inl e) f = Inl e"
  by (simp add: bindT_def)

lemma bindT_Inr:
  "bindT (Inr (x, t)) f = (case f x of Inl e \<Rightarrow> Inl e | Inr (y, t') \<Rightarrow> Inr (y, t @ t'))"
  by (simp add: bindT_def)

lemma bindT_Inr_Inr: "f x = Inr (y, t') \<Longrightarrow> bindT (Inr (x, t)) f = Inr (y, t @ t')"
  by (simp add: bindT_def)

lemma bindT_liftT_Inr [simp]: "bindT (liftT (Inr x)) f = f x"
  by (auto simp: bindT_def liftT_def split: sum.splits)

lemma bindT_liftT_Inl [simp]: "bindT (liftT (Inl e)) f = Inl e"
  by (simp add: bindT_def liftT_def)

lemma bindT_Inr_Nil [simp]: "bindT (Inr (x, [])) f = f x"
  by (auto simp: bindT_def split: sum.splits)

lemma bindT_returnT [simp]: "bindT (returnT x) f = f x"
  by (auto simp: bindT_def returnT_def split: sum.splits)

lemma liftT_Inr [simp]: "liftT (Inr x) = Inr (x, [])"
  by (simp add: liftT_def)

lemma get_ok [simp]: "i < length xs \<Longrightarrow> get xs i = Inr (xs ! i)"
  by (simp add: get_def)

lemma put_ok [simp]: "i < length xs \<Longrightarrow> put xs i v = Inr (xs[i := v])"
  by (simp add: put_def)

lemma get_last_ok [simp]: "xs \<noteq> [] \<Longrightarrow> get_last xs = Inr (last xs)"
  by (simp add: get_last_def)

lemma put_last_ok: "xs \<noteq> [] \<Longrightarrow> put_last xs v = Inr (xs[length xs - 1 := v])"
  by (induction xs rule: rev_induct) (simp_all add: put_last_def)

section \<open>Concatenation and split\<close>

lemma map2_append_take:
  "length v = length acc \<Longrightarrow> list_all (\<lambda>s. length s = n) v
     \<Longrightarrow> map (take n) (map2 (@) v acc) = v"
  by (induction v acc rule: list_induct2) auto

lemma map2_append_drop:
  "length v = length acc \<Longrightarrow> list_all (\<lambda>s. length s = n) v
     \<Longrightarrow> map (drop n) (map2 (@) v acc) = acc"
  by (induction v acc rule: list_induct2) auto

lemma length_join_nodes:
  "list_all (\<lambda>v. length v = B) vss \<Longrightarrow> length (join_nodes B vss) = B"
  by (induction vss) (auto simp: join_nodes_def)

lemma join_nodes_Cons: "join_nodes B (v # vss) = map2 (@) v (join_nodes B vss)"
  by (simp add: join_nodes_def)

lemma split_vals_join:
  assumes "list_all (\<lambda>t. wf3 t \<and> dimB t = B \<and> dimF t = F) ts"
  shows "split_vals B F (join_nodes B (map vals ts)) (map dimN ts) = ts"
  using assms
proof (induction ts)
  case Nil
  then show ?case by simp
next
  case (Cons t ts)
  then have t: "wf3 t" "dimB t = B" "dimF t = F"
    and ts: "list_all (\<lambda>t. wf3 t \<and> dimB t = B \<and> dimF t = F) ts" by simp_all
  have len: "length (vals t) = length (join_nodes B (map vals ts))"
    using t ts by (simp add: length_join_nodes wf3_def list_all_iff)
  have rows: "list_all (\<lambda>s. length s = dimN t) (vals t)"
    using t by (auto simp: wf3_def list_all_iff)
  have "Tensor3 B (dimN t) F (vals t) = t" using t by (cases t) simp
  then show ?case
    using Cons.IH [OF ts] map2_append_take [OF len rows] map2_append_drop [OF len rows]
    by (simp add: join_nodes_Cons)
qed

lemma cat_nodes_ok:
  assumes "ts \<noteq> []" and "list_all (\<lambda>t. dimB t = B \<and> dimF t = F) ts"
  shows "cat_nodes ts = Inr (Tensor3 B (sum_list (map dimN ts)) F (join_nodes B (map vals ts)))"
proof -
  obtain t rest where tr: "ts = t # rest" using assms(1) by (cases ts) auto
  have "list_all (\<lambda>u. dimB u = dimB t \<and> dimF u = dimF t) rest" "dimB t = B" "dimF t = F"
    using assms(2) tr by (auto simp: list_all_iff)
  then show ?thesis using tr by (simp add: cat_nodes_def)
qed

text \<open>
  C7. For tensors \<open>ts\<close> (at least one) that fill their shapes and agree in batch size
  and feature size, and the partition \<open>sizes\<close> of their node-axis sizes: concatenating
  them along the node axis and splitting the result by \<open>sizes\<close> gives back \<open>ts\<close>.
\<close>

theorem cat_split_roundtrip:
  assumes "ts \<noteq> []" and "list_all (\<lambda>t. wf3 t \<and> dimB t = B \<and> dimF t = F) ts"
    and "map dimN ts = sizes"
  shows "bind (cat_nodes ts) (\<lambda>c. split_nodes c sizes) = Inr ts"
proof -
  have "list_all (\<lambda>t. dimB t = B \<and> dimF t = F) ts"
    using assms(2) by (simp add: list_all_iff)
  from cat_nodes_ok [OF assms(1) this] show ?thesis
    using split_vals_join [OF assms(2)] assms(3)
    by (simp add: split_nodes_def)
qed

theorem cat_split_roundtrip_witness:
  "bind (cat_nodes [Tensor3 2 1 1 [[[1::int]], [[2]]], Tensor3 2 2 1 [[[3], [4]], [[5], [6]]]])
        (\<lambda>c. split_nodes c [1, 2])
     = Inr [Tensor3 2 1 1 [[[1]], [[2]]], Tensor3 2 2 1 [[[3], [4]], [[5], [6]]]]
   \<and> cat_nodes [Tensor3 2 1 1 [[[1::int]], [[2]]], Tensor3 2 2 1 [[[3], [4]], [[5], [6]]]]
     = Inr (Tensor3 2 3 1 [[[1], [3], [4]], [[2], [5], [6]]])"
  using cat_split_roundtrip
    [of "[Tensor3 2 1 1 [[[1::int]], [[2]]], Tensor3 2 2 1 [[[3], [4]], [[5], [6]]]]" 2 1 "[1, 2]"]
  by (simp add: wf3_def cat_nodes_def join_nodes_def numeral_2_eq_2)

section \<open>Shapes of lists of tensors\<close>

lemma shapes_length: "shapes B F ns ts \<Longrightarrow> length ts = length ns"
  by (simp add: shapes_def list_all2_lengthD)

lemma shapes_nth: "shapes B F ns ts \<Longrightarrow> i < length ns \<Longrightarrow> has_shape B (ns ! i) F (ts ! i)"
  by (simp add: shapes_def list_all2_conv_all_nth)

lemma shapes_update:
  "shapes B F ns ts \<Longrightarrow> has_shape B (ns ! i) F v \<Longrightarrow> shapes B F ns (ts[i := v])"
  using list_all2_update_cong [of "\<lambda>t n. has_shape B n F t" ts ns v "ns ! i" i]
  by (simp add: shapes_def)

lemma shapes_Cons [simp]:
  "shapes B F (n # ns) (t # ts) = (has_shape B n F t \<and> shapes B F ns ts)"
  by (simp add: shapes_def)

lemma shapes_Nil [simp]: "shapes B F [] []"
  by (simp add: shapes_def)

lemma shapes_append:
  "shapes B F ns ts \<Longrightarrow> shapes B F ms us \<Longrightarrow> shapes B F (ns @ ms) (ts @ us)"
  by (simp add: shapes_def list_all2_appendI)

lemma shapes_all:
  "shapes B F ns ts \<Longrightarrow> list_all (\<lambda>t. wf3 t \<and> dimB t = B \<and> dimF t = F) ts"
  by (auto simp: shapes_def list_all_iff has_shape_def in_set_conv_nth list_all2_conv_all_nth)

lemma shapes_dimN: "shapes B F ns ts \<Longrightarrow> map dimN ts = ns"
  by (auto simp: shapes_def has_shape_def list_all2_conv_all_nth intro: nth_equalityI)

section \<open>Calls of nets that keep their contract\<close>

lemma call_ok:
  assumes "gnn_ok d M ns nr g" "has_shape B ns d s" "has_shape B nr d r" "has_shape B M d e"
  shows "\<exists>r' e'. call g s r e = Inr ((r', e'), [gnn_id g])
                 \<and> has_shape B nr d r' \<and> has_shape B M d e'"
proof -
  from assms obtain r' e' where "forward g s r e = Inr (r', e')"
    "has_shape B nr d r'" "has_shape B M d e'"
    unfolding gnn_ok_def by blast
  then show ?thesis by (simp add: call_def)
qed

lemma call_nodes_ok:
  assumes "gnn_ok d M ns nr g" "has_shape B ns d s" "has_shape B nr d r" "has_shape B M d e"
  shows "\<exists>r'. call_nodes g s r e = Inr (r', [gnn_id g]) \<and> has_shape B nr d r'"
proof -
  from call_ok [OF assms] obtain r' e' where
    "call g s r e = Inr ((r', e'), [gnn_id g])" "has_shape B nr d r'" by blast
  then show ?thesis by (simp add: call_nodes_def bindT_Inr returnT_def)
qed

section \<open>The loops of the hierarchical models\<close>

lemma mesh_init_ok:
  assumes "shapes B d Ns levels" "shapes B d Mu up"
    and "list_all (\<lambda>(l, g). 1 \<le> l \<and> l < length Ns \<and> l - 1 < length Mu
                       \<and> gnn_ok d (Mu ! (l - 1)) (Ns ! (l - 1)) (Ns ! l) g) pairs"
  shows "\<exists>levels' up'. mesh_init pairs levels up = Inr ((levels', up'), map (\<lambda>(l, g). gnn_id g) pairs)
           \<and> shapes B d Ns levels' \<and> shapes B d Mu up'"
  using assms
proof (induction pairs arbitrary: levels up)
  case Nil
  then show ?case by (simp add: returnT_def)
next
  case (Cons p pairs)
  obtain l g where p: "p = (l, g)" by (cases p)
  from Cons.prems p have l: "1 \<le> l" "l < length Ns" "l - 1 < length Mu"
    and g: "gnn_ok d (Mu ! (l - 1)) (Ns ! (l - 1)) (Ns ! l) g"
    and rest: "list_all (\<lambda>(l, g). 1 \<le> l \<and> l < length Ns \<and> l - 1 < length Mu
                          \<and> gnn_ok d (Mu ! (l - 1)) (Ns ! (l - 1)) (Ns ! l) g) pairs"
    by simp_all
  note len = shapes_length [OF Cons.prems(1)] shapes_length [OF Cons.prems(2)]
  have s: "has_shape B (Ns ! (l - 1)) d (levels ! (l - 1))"
    and r: "has_shape B (Ns ! l) d (levels ! l)"
    and e: "has_shape B (Mu ! (l - 1)) d (up ! (l - 1))"
    using l Cons.prems(1,2) by (simp_all add: shapes_nth)
  from call_ok [OF g s r e] obtain r' e' where
    c: "call g (levels ! (l - 1)) (levels ! l) (up ! (l - 1)) = Inr ((r', e'), [gnn_id g])"
    and r': "has_shape B (Ns ! l) d r'" and e': "has_shape B (Mu ! (l - 1)) d e'"
    by blast
  from Cons.IH [OF shapes_update [OF Cons.prems(1) r'] shapes_update [OF Cons.prems(2) e'] rest]
  obtain levels' up' where
    ih: "mesh_init pairs (levels[l := r']) (up[l - 1 := e'])
           = Inr ((levels', up'), map (\<lambda>(l, g). gnn_id g) pairs)"
    and sh: "shapes B d Ns levels'" "shapes B d Mu up'"
    by blast
  have "mesh_init (p # pairs) levels up
          = Inr ((levels', up'), map (\<lambda>(l, g). gnn_id g) (p # pairs))"
    using l len c ih by (simp add: p bindT_Inr)
  with sh show ?case by blast
qed


lemma mesh_read_out_ok:
  assumes "shapes B d Ns levels" "shapes B d Md down"
    and "list_all (\<lambda>(l, g). l + 1 < length Ns \<and> l < length Md \<and> gnn_ok d (Md ! l) (Ns ! (l + 1)) (Ns ! l) g) pairs"
  shows "\<exists>levels'. mesh_read_out pairs levels down = Inr (levels', map (\<lambda>(l, g). gnn_id g) pairs)
           \<and> shapes B d Ns levels'"
  using assms
proof (induction pairs arbitrary: levels)
  case Nil
  then show ?case by (simp add: returnT_def)
next
  case (Cons p pairs)
  obtain l g where p: "p = (l, g)" by (cases p)
  from Cons.prems p have l: "l + 1 < length Ns" "l < length Md"
    and g: "gnn_ok d (Md ! l) (Ns ! (l + 1)) (Ns ! l) g"
    and rest: "list_all (\<lambda>(l, g). l + 1 < length Ns \<and> l < length Md \<and> gnn_ok d (Md ! l) (Ns ! (l + 1)) (Ns ! l) g) pairs"
    by simp_all
  note len = shapes_length [OF Cons.prems(1)] shapes_length [OF Cons.prems(2)]
  have s: "has_shape B (Ns ! (l + 1)) d (levels ! (l + 1))"
    and r: "has_shape B (Ns ! l) d (levels ! l)"
    and e: "has_shape B (Md ! l) d (down ! l)"
    using l Cons.prems(1,2) by (simp_all add: shapes_nth)
  from call_nodes_ok [OF g s r e] obtain r' where
    c: "call_nodes g (levels ! (l + 1)) (levels ! l) (down ! l) = Inr (r', [gnn_id g])"
    and r': "has_shape B (Ns ! l) d r'"
    by blast
  from Cons.IH [OF shapes_update [OF Cons.prems(1) r'] Cons.prems(2) rest]
  obtain levels' where
    ih: "mesh_read_out pairs (levels[l := r']) down = Inr (levels', map (\<lambda>(l, g). gnn_id g) pairs)"
    and sh: "shapes B d Ns levels'"
    by blast
  have "mesh_read_out (p # pairs) levels down
          = Inr (levels', map (\<lambda>(l, g). gnn_id g) (p # pairs))"
    using l len c ih by (simp add: p bindT_Inr)
  with sh show ?case by blast
qed

lemma down_loop_ok:
  assumes "shapes B d Ns levels" "shapes B d Ms same" "shapes B d Md down"
    and "list_all (\<lambda>(l, dg, sg). l + 1 < length Ns \<and> l < length Md \<and> l < length Ms
                       \<and> gnn_ok d (Md ! l) (Ns ! (l + 1)) (Ns ! l) dg
                       \<and> gnn_ok d (Ms ! l) (Ns ! l) (Ns ! l) sg) triples"
  shows "\<exists>levels' same' down'.
           down_loop triples levels same down
             = Inr ((levels', same', down'),
                    concat (map (\<lambda>(l, dg, sg). [gnn_id dg, gnn_id sg]) triples))
           \<and> shapes B d Ns levels' \<and> shapes B d Ms same' \<and> shapes B d Md down'"
  using assms
proof (induction triples arbitrary: levels same down)
  case Nil
  then show ?case by (simp add: returnT_def)
next
  case (Cons p triples)
  obtain l dg sg where p: "p = (l, dg, sg)" by (cases p)
  from Cons.prems p have l: "l + 1 < length Ns" "l < length Md" "l < length Ms"
    and dg: "gnn_ok d (Md ! l) (Ns ! (l + 1)) (Ns ! l) dg"
    and sg: "gnn_ok d (Ms ! l) (Ns ! l) (Ns ! l) sg"
    and rest: "list_all (\<lambda>(l, dg, sg). l + 1 < length Ns \<and> l < length Md \<and> l < length Ms
                       \<and> gnn_ok d (Md ! l) (Ns ! (l + 1)) (Ns ! l) dg
                       \<and> gnn_ok d (Ms ! l) (Ns ! l) (Ns ! l) sg) triples"
    by simp_all
  note len = shapes_length [OF Cons.prems(1)] shapes_length [OF Cons.prems(2)]
    shapes_length [OF Cons.prems(3)]
  have s: "has_shape B (Ns ! (l + 1)) d (levels ! (l + 1))"
    and r: "has_shape B (Ns ! l) d (levels ! l)"
    and de: "has_shape B (Md ! l) d (down ! l)"
    and se: "has_shape B (Ms ! l) d (same ! l)"
    using l Cons.prems(1,2,3) by (simp_all add: shapes_nth)
  from call_ok [OF dg s r de] obtain r' e' where
    c1: "call dg (levels ! (l + 1)) (levels ! l) (down ! l) = Inr ((r', e'), [gnn_id dg])"
    and r': "has_shape B (Ns ! l) d r'" and e': "has_shape B (Md ! l) d e'"
    by blast
  from call_ok [OF sg r' r' se] obtain r'' e'' where
    c2: "call sg r' r' (same ! l) = Inr ((r'', e''), [gnn_id sg])"
    and r'': "has_shape B (Ns ! l) d r''" and e'': "has_shape B (Ms ! l) d e''"
    by blast
  from Cons.IH [OF shapes_update [OF Cons.prems(1) r''] shapes_update [OF Cons.prems(2) e'']
      shapes_update [OF Cons.prems(3) e'] rest]
  obtain levels' same' down' where
    ih: "down_loop triples (levels[l := r'']) (same[l := e'']) (down[l := e'])
           = Inr ((levels', same', down'),
                  concat (map (\<lambda>(l, dg, sg). [gnn_id dg, gnn_id sg]) triples))"
    and sh: "shapes B d Ns levels'" "shapes B d Ms same'" "shapes B d Md down'"
    by blast
  have "down_loop (p # triples) levels same down
          = Inr ((levels', same', down'),
                 concat (map (\<lambda>(l, dg, sg). [gnn_id dg, gnn_id sg]) (p # triples)))"
    using l len c1 c2 ih by (simp add: p bindT_Inr)
  with sh show ?case by blast
qed

lemma up_loop_ok:
  assumes "shapes B d Ns levels" "shapes B d Ms same" "shapes B d Mu up"
    and "list_all (\<lambda>(l, ug, sg). 1 \<le> l \<and> l < length Ns \<and> l - 1 < length Mu \<and> l < length Ms
                       \<and> gnn_ok d (Mu ! (l - 1)) (Ns ! (l - 1)) (Ns ! l) ug
                       \<and> gnn_ok d (Ms ! l) (Ns ! l) (Ns ! l) sg) triples"
  shows "\<exists>levels' same' up'.
           up_loop triples levels same up
             = Inr ((levels', same', up'),
                    concat (map (\<lambda>(l, ug, sg). [gnn_id ug, gnn_id sg]) triples))
           \<and> shapes B d Ns levels' \<and> shapes B d Ms same' \<and> shapes B d Mu up'"
  using assms
proof (induction triples arbitrary: levels same up)
  case Nil
  then show ?case by (simp add: returnT_def)
next
  case (Cons p triples)
  obtain l ug sg where p: "p = (l, ug, sg)" by (cases p)
  from Cons.prems p have l: "1 \<le> l" "l < length Ns" "l - 1 < length Mu" "l < length Ms"
    and ug: "gnn_ok d (Mu ! (l - 1)) (Ns ! (l - 1)) (Ns ! l) ug"
    and sg: "gnn_ok d (Ms ! l) (Ns ! l) (Ns ! l) sg"
    and rest: "list_all (\<lambda>(l, ug, sg). 1 \<le> l \<and> l < length Ns \<and> l - 1 < length Mu \<and> l < length Ms
                       \<and> gnn_ok d (Mu ! (l - 1)) (Ns ! (l - 1)) (Ns ! l) ug
                       \<and> gnn_ok d (Ms ! l) (Ns ! l) (Ns ! l) sg) triples"
    by simp_all
  note len = shapes_length [OF Cons.prems(1)] shapes_length [OF Cons.prems(2)]
    shapes_length [OF Cons.prems(3)]
  have s: "has_shape B (Ns ! (l - 1)) d (levels ! (l - 1))"
    and r: "has_shape B (Ns ! l) d (levels ! l)"
    and ue: "has_shape B (Mu ! (l - 1)) d (up ! (l - 1))"
    and se: "has_shape B (Ms ! l) d (same ! l)"
    using l Cons.prems(1,2,3) by (simp_all add: shapes_nth)
  from call_ok [OF ug s r ue] obtain r' e' where
    c1: "call ug (levels ! (l - 1)) (levels ! l) (up ! (l - 1)) = Inr ((r', e'), [gnn_id ug])"
    and r': "has_shape B (Ns ! l) d r'" and e': "has_shape B (Mu ! (l - 1)) d e'"
    by blast
  from call_ok [OF sg r' r' se] obtain r'' e'' where
    c2: "call sg r' r' (same ! l) = Inr ((r'', e''), [gnn_id sg])"
    and r'': "has_shape B (Ns ! l) d r''" and e'': "has_shape B (Ms ! l) d e''"
    by blast
  from Cons.IH [OF shapes_update [OF Cons.prems(1) r''] shapes_update [OF Cons.prems(2) e'']
      shapes_update [OF Cons.prems(3) e'] rest]
  obtain levels' same' up' where
    ih: "up_loop triples (levels[l := r'']) (same[l := e'']) (up[l - 1 := e'])
           = Inr ((levels', same', up'),
                  concat (map (\<lambda>(l, ug, sg). [gnn_id ug, gnn_id sg]) triples))"
    and sh: "shapes B d Ns levels'" "shapes B d Ms same'" "shapes B d Mu up'"
    by blast
  have "up_loop (p # triples) levels same up
          = Inr ((levels', same', up'),
                 concat (map (\<lambda>(l, ug, sg). [gnn_id ug, gnn_id sg]) (p # triples)))"
    using l len c1 c2 ih by (simp add: p bindT_Inr)
  with sh show ?case by blast
qed

section \<open>The zipped lists the loops run over\<close>

lemma zip3_map: "zip xs (zip (map f xs) (map g xs)) = map (\<lambda>x. (x, f x, g x)) xs"
  by (induction xs) auto

lemma zip2_map: "zip xs (map f xs) = map (\<lambda>x. (x, f x)) xs"
  by (induction xs) auto

lemma rev_as_map: "rev xs = map ((!) xs) (rev [0..<length xs])"
  by (simp add: map_nth flip: rev_map)

lemma butlast_as_map: "butlast xs = map ((!) xs) [0..<length xs - 1]"
proof -
  have "butlast xs = map ((!) (butlast xs)) [0..<length (butlast xs)]"
    using map_nth [of "butlast xs"] by simp
  also have "\<dots> = map ((!) xs) [0..<length xs - 1]"
    by (simp add: nth_butlast)
  finally show ?thesis .
qed

lemma down_triples:
  assumes "length ds = n - 1" "length ss = n"
  shows "zip (levels_down n) (zip (rev ds) (rev (butlast ss)))
           = map (\<lambda>l. (l, ds ! l, ss ! l)) (rev [0..<n - 1])"
proof -
  have "rev ds = map ((!) ds) (rev [0..<n - 1])"
    using rev_as_map [of ds] assms by simp
  moreover have "rev (butlast ss) = map ((!) ss) (rev [0..<n - 1])"
    using butlast_as_map [of ss] assms by (simp add: rev_map)
  ultimately show ?thesis by (simp add: levels_down_def zip3_map)
qed

lemma read_pairs:
  assumes "length gs = n - 1"
  shows "zip (levels_down n) (rev gs) = map (\<lambda>l. (l, gs ! l)) (rev [0..<n - 1])"
proof -
  have "rev gs = map ((!) gs) (rev [0..<n - 1])"
    using rev_as_map [of gs] assms by simp
  then show ?thesis by (simp add: levels_down_def zip2_map)
qed

lemma enumerate_from_as_map:
  "enumerate_from s xs = map (\<lambda>l. (l, xs ! (l - s))) [s..<s + length xs]"
  by (rule nth_equalityI) (simp_all add: enumerate_from_def del: upt_Suc)

lemma upt_one: "[Suc 0..<Suc (n - Suc 0)] = [Suc 0..<n]"
  by (cases n) simp_all

lemma init_pairs:
  assumes "length gs = n - 1"
  shows "enumerate_from 1 gs = map (\<lambda>l. (l, gs ! (l - 1))) [1..<n]"
  using assms by (simp add: enumerate_from_as_map upt_one del: upt_Suc)

lemma up_triples:
  assumes "length us = n - 1" "length ss = n"
  shows "enumerate_from 1 (zip us (drop 1 ss)) = map (\<lambda>l. (l, us ! (l - 1), ss ! l)) [1..<n]"
proof -
  have "length (zip us (drop 1 ss)) = n - 1" using assms by simp
  then have "enumerate_from 1 (zip us (drop 1 ss))
               = map (\<lambda>l. (l, zip us (drop 1 ss) ! (l - 1))) [1..<n]"
    by (rule init_pairs)
  also have "\<dots> = map (\<lambda>l. (l, us ! (l - 1), ss ! l)) [1..<n]"
    using assms by (auto simp del: upt_Suc)
  finally show ?thesis .
qed

section \<open>One sweep\<close>

lemma mesh_down_step_ok:
  assumes lv: "shapes B d Ns levels" and sm: "shapes B d Ms same" and dn: "shapes B d Md down"
    and n: "length Ns = n" "length Ms = n" "length Md = n - 1" "1 \<le> n"
    and dgs: "family_ok d Md (\<lambda>l. Ns ! (l + 1)) (\<lambda>l. Ns ! l) (MeshDownGnn k) dgs"
    and sgs: "family_ok d Ms (\<lambda>l. Ns ! l) (\<lambda>l. Ns ! l) (MeshDownSameGnn k) sgs"
  shows "\<exists>levels' same' down'.
           mesh_down_step n levels same down dgs sgs
             = Inr ((levels', same', down'), down_trace k n)
           \<and> shapes B d Ns levels' \<and> shapes B d Ms same' \<and> shapes B d Md down'"
proof -
  note len = shapes_length [OF lv] shapes_length [OF sm] shapes_length [OF dn]
  have lens: "length dgs = n - 1" "length sgs = n"
    using dgs sgs n by (simp_all add: family_ok_def)
  have ne: "sgs \<noteq> []" "levels \<noteq> []" "same \<noteq> []"
    using lens len n by auto
  have last_eq: "last sgs = sgs ! (n - 1)" "last levels = levels ! (n - 1)"
    "last same = same ! (n - 1)"
    using ne lens len n by (simp_all add: last_conv_nth)
  have top_gnn: "gnn_ok d (Ms ! (n - 1)) (Ns ! (n - 1)) (Ns ! (n - 1)) (sgs ! (n - 1))"
    and top_id: "gnn_id (sgs ! (n - 1)) = MeshDownSameGnn k (n - 1)"
    using sgs n by (simp_all add: family_ok_def)
  have top: "has_shape B (Ns ! (n - 1)) d (levels ! (n - 1))"
    and top_e: "has_shape B (Ms ! (n - 1)) d (same ! (n - 1))"
    using n lv sm by (simp_all add: shapes_nth)
  from call_ok [OF top_gnn top top top_e] obtain r' e' where
    c: "call (sgs ! (n - 1)) (levels ! (n - 1)) (levels ! (n - 1)) (same ! (n - 1))
          = Inr ((r', e'), [MeshDownSameGnn k (n - 1)])"
    and r': "has_shape B (Ns ! (n - 1)) d r'" and e': "has_shape B (Ms ! (n - 1)) d e'"
    using top_id by auto
  let ?triples = "map (\<lambda>l. (l, dgs ! l, sgs ! l)) (rev [0..<n - 1])"
  have ok: "list_all (\<lambda>(l, dg, sg). l + 1 < length Ns \<and> l < length Md \<and> l < length Ms
                       \<and> gnn_ok d (Md ! l) (Ns ! (l + 1)) (Ns ! l) dg
                       \<and> gnn_ok d (Ms ! l) (Ns ! l) (Ns ! l) sg) ?triples"
    using dgs sgs n by (auto simp: list_all_iff family_ok_def)
  from down_loop_ok [OF shapes_update [OF lv r'] shapes_update [OF sm e'] dn ok]
  obtain levels' same' down' where
    loop: "down_loop ?triples (levels[n - 1 := r']) (same[n - 1 := e']) down
             = Inr ((levels', same', down'),
                    concat (map (\<lambda>(l, dg, sg). [gnn_id dg, gnn_id sg]) ?triples))"
    and sh: "shapes B d Ns levels'" "shapes B d Ms same'" "shapes B d Md down'"
    by blast
  have ids: "concat (map (\<lambda>(l, dg, sg). [gnn_id dg, gnn_id sg]) ?triples)
               = concat (map (\<lambda>l. [MeshDownGnn k l, MeshDownSameGnn k l]) (rev [0..<n - 1]))"
    using dgs sgs n by (auto simp: family_ok_def comp_def intro!: arg_cong [where f = concat])
  have "mesh_down_step n levels same down dgs sgs
          = Inr ((levels', same', down'), down_trace k n)"
    using ne len n c loop ids down_triples [OF lens]
    by (simp add: mesh_down_step_def last_eq put_last_ok bindT_Inr down_trace_def)
  with sh show ?thesis by blast
qed

lemma mesh_up_step_ok:
  assumes lv: "shapes B d Ns levels" and sm: "shapes B d Ms same" and up: "shapes B d Mu up"
    and n: "length Ns = n" "length Ms = n" "length Mu = n - 1" "1 \<le> n"
    and ugs: "family_ok d Mu (\<lambda>l. Ns ! l) (\<lambda>l. Ns ! (l + 1)) (MeshUpGnn k) ugs"
    and sgs: "family_ok d Ms (\<lambda>l. Ns ! l) (\<lambda>l. Ns ! l) (MeshUpSameGnn k) sgs"
  shows "\<exists>levels' same' up'.
           mesh_up_step levels same up ugs sgs
             = Inr ((levels', same', up'), up_trace k n)
           \<and> shapes B d Ns levels' \<and> shapes B d Ms same' \<and> shapes B d Mu up'"
proof -
  note len = shapes_length [OF lv] shapes_length [OF sm] shapes_length [OF up]
  have lens: "length ugs = n - 1" "length sgs = n"
    using ugs sgs n by (simp_all add: family_ok_def)
  have bot_gnn: "gnn_ok d (Ms ! 0) (Ns ! 0) (Ns ! 0) (sgs ! 0)"
    and bot_id: "gnn_id (sgs ! 0) = MeshUpSameGnn k 0"
    using sgs n by (simp_all add: family_ok_def)
  have bot: "has_shape B (Ns ! 0) d (levels ! 0)"
    and bot_e: "has_shape B (Ms ! 0) d (same ! 0)"
    using n lv sm by (simp_all add: shapes_nth)
  from call_ok [OF bot_gnn bot bot bot_e] obtain r' e' where
    c: "call (sgs ! 0) (levels ! 0) (levels ! 0) (same ! 0)
          = Inr ((r', e'), [MeshUpSameGnn k 0])"
    and r': "has_shape B (Ns ! 0) d r'" and e': "has_shape B (Ms ! 0) d e'"
    using bot_id by auto
  let ?triples = "map (\<lambda>l. (l, ugs ! (l - 1), sgs ! l)) [1..<n]"
  have ok: "list_all (\<lambda>(l, ug, sg). 1 \<le> l \<and> l < length Ns \<and> l - 1 < length Mu \<and> l < length Ms
                       \<and> gnn_ok d (Mu ! (l - 1)) (Ns ! (l - 1)) (Ns ! l) ug
                       \<and> gnn_ok d (Ms ! l) (Ns ! l) (Ns ! l) sg) ?triples"
  proof -
    have u: "gnn_ok d (Mu ! (x - 1)) (Ns ! (x - 1)) (Ns ! x) (ugs ! (x - 1))"
      if "1 \<le> x" "x < n" for x
    proof -
      from that have a: "x - 1 < length Mu" and b: "x - 1 + 1 = x" using n by simp_all
      from ugs a have "gnn_ok d (Mu ! (x - 1)) (Ns ! (x - 1)) (Ns ! (x - 1 + 1)) (ugs ! (x - 1))"
        unfolding family_ok_def by blast
      then show ?thesis unfolding b .
    qed
    have s: "gnn_ok d (Ms ! x) (Ns ! x) (Ns ! x) (sgs ! x)" if "x < n" for x
      using that sgs n by (simp add: family_ok_def)
    have r: "x - 1 < n - 1" if "1 \<le> x" "x < n" for x using that by arith
    show ?thesis using u s r n by (simp add: list_all_iff)
  qed
  from up_loop_ok [OF shapes_update [OF lv r'] shapes_update [OF sm e'] up ok]
  obtain levels' same' up' where
    loop: "up_loop ?triples (levels[0 := r']) (same[0 := e']) up
             = Inr ((levels', same', up'),
                    concat (map (\<lambda>(l, ug, sg). [gnn_id ug, gnn_id sg]) ?triples))"
    and sh: "shapes B d Ns levels'" "shapes B d Ms same'" "shapes B d Mu up'"
    by blast
  have ids: "concat (map (\<lambda>(l, ug, sg). [gnn_id ug, gnn_id sg]) ?triples)
               = concat (map (\<lambda>l. [MeshUpGnn k (l - 1), MeshUpSameGnn k l]) [1..<n])"
    using ugs sgs n by (auto simp: family_ok_def comp_def intro!: arg_cong [where f = concat])
  have "mesh_up_step levels same up ugs sgs = Inr ((levels', same', up'), up_trace k n)"
    using len n lens c loop ids up_triples [OF lens]
    by (simp add: mesh_up_step_def bindT_Inr up_trace_def)
  with sh show ?thesis by blast
qed

section \<open>The constructors\<close>

lemma bind_eq_Inr: "(bind m f = Inr y) = (\<exists>x. m = Inr x \<and> f x = Inr y)"
  by (cases m) simp_all

lemma gnn_id_mk_gnn [simp]: "gnn_id (mk_gnn nets i args) = i"
  by (simp add: mk_gnn_def)

lemma default_args_simps [simp]:
  "net_hidden_dim (default_args ei hp) = hidden_dim hp"
  "edge_index (default_args ei hp) = ei"
  by (simp_all add: default_args_def)

lemma length_enumerate_from [simp]: "length (enumerate_from s xs) = length xs"
  by (simp add: enumerate_from_def)

lemma nth_enumerate_from [simp]:
  "i < length xs \<Longrightarrow> enumerate_from s xs ! i = (s + i, xs ! i)"
  by (simp add: enumerate_from_def)

lemma edges_fit_nth: "edges_fit eis S R \<Longrightarrow> l < length eis \<Longrightarrow> fits (eis ! l) (S l) (R l)"
  by (simp add: edges_fit_def list_all_iff)

lemma inet_contract_gnn_ok:
  assumes "inet_contract nets" "fits (edge_index args) n_send n_rec"
  shows "gnn_ok (net_hidden_dim args) (length (edge_index args)) n_send n_rec
           (mk_gnn nets i args)"
  using assms unfolding inet_contract_def by blast

lemma make_gnns_family:
  assumes "inet_contract nets" and "edges_fit eis S R"
  shows "family_ok (hidden_dim hp) (map length eis) S R name (make_gnns name nets hp eis)"
proof -
  have "gnn_ok (hidden_dim hp) (length (eis ! l)) (S l) (R l)
          (mk_gnn nets i (default_args (eis ! l) hp))" if "l < length eis" for i l
    using inet_contract_gnn_ok [OF assms(1), of "default_args (eis ! l) hp" "S l" "R l" i]
      edges_fit_nth [OF assms(2) that]
    by simp
  then show ?thesis by (simp add: family_ok_def make_gnns_def)
qed

lemma print_levels_ok:
  assumes "\<forall>l \<in> set ls. l < length (m2m_features g)
             \<and> (l < n - 1 \<longrightarrow> l < length (mesh_up_features g) \<and> l < length (mesh_down_features g))"
  shows "print_levels g n ls = Inr ()"
  using assms by (induction ls) auto

lemma BaseHiGraphModel_init_fields:
  assumes "BaseHiGraphModel_init nets hp g = Inr b"
  shows "graph b = g" "N_levels b = length (mesh_static_features g)"
    "N_mesh_levels b = map rows2 (mesh_static_features g)"
    "mesh_embedders b
       = map (\<lambda>l. make_mlp nets (MeshEmbedder l)
                    (cols2 (mesh_static_features g ! 0)
                       # replicate (hidden_layers hp + 1) (hidden_dim hp)))
           [0..<length (mesh_static_features g)]"
    "mesh_same_embedders b
       = map (\<lambda>l. make_mlp nets (MeshSameEmbedder l)
                    (cols2 (m2m_features g ! 0)
                       # replicate (hidden_layers hp + 1) (hidden_dim hp)))
           [0..<length (mesh_static_features g)]"
    "mesh_up_embedders b
       = map (\<lambda>l. make_mlp nets (MeshUpEmbedder l)
                    (cols2 (mesh_up_features g ! 0)
                       # replicate (hidden_layers hp + 1) (hidden_dim hp)))
           [0..<length (mesh_static_features g) - 1]"
    "mesh_down_embedders b
       = map (\<lambda>l. make_mlp nets (MeshDownEmbedder l)
                    (cols2 (mesh_down_features g ! 0)
                       # replicate (hidden_layers hp + 1) (hidden_dim hp)))
           [0..<length (mesh_static_features g) - 1]"
    "mesh_init_gnns b = make_gnns MeshInitGnn nets hp (mesh_up_edge_index g)"
    "mesh_read_gnns b
       = map (\<lambda>(l, ei). mk_gnn nets (MeshReadGnn l)
                          ((default_args ei hp)\<lparr>update_edges := False\<rparr>))
           (enumerate_from 0 (mesh_down_edge_index g))"
  using assms
  by (auto simp: BaseHiGraphModel_init_def Let_def bind_eq_Inr make_gnns_def get_def
      split: if_splits)

lemma BaseHiGraphModel_init_ok:
  assumes "wf_hi_graph g"
  shows "\<exists>b. BaseHiGraphModel_init nets hp g = Inr b"
proof -
  from assms have L: "2 \<le> length (mesh_static_features g)"
    "length (m2m_features g) = length (mesh_static_features g)"
    "length (mesh_up_features g) = length (mesh_static_features g) - 1"
    "length (mesh_down_features g) = length (mesh_static_features g) - 1"
    by (simp_all add: wf_hi_graph_def Let_def)
  have "print_levels g (length (mesh_static_features g)) [0..<length (mesh_static_features g)]
          = Inr ()"
    using L by (intro print_levels_ok) auto
  moreover have "0 < length (mesh_static_features g)" "0 < length (m2m_features g)"
    "0 < length (mesh_up_features g)" "0 < length (mesh_down_features g)"
    using L by linarith+
  ultimately show ?thesis
    by (simp add: BaseHiGraphModel_init_def Let_def)
qed

lemma HiLAM_init_fields:
  assumes "HiLAM_init nets hp g = Inr m"
  shows "BaseHiGraphModel_init nets hp g = Inr (seq_base m)"
    "mesh_down_gnns m
       = map (\<lambda>k. make_gnns (MeshDownGnn k) nets hp (mesh_down_edge_index g))
           [0..<processor_layers hp]"
    "mesh_down_same_gnns m
       = map (\<lambda>k. make_gnns (MeshDownSameGnn k) nets hp (m2m_edge_index g))
           [0..<processor_layers hp]"
    "mesh_up_gnns m
       = map (\<lambda>k. make_gnns (MeshUpGnn k) nets hp (mesh_up_edge_index g))
           [0..<processor_layers hp]"
    "mesh_up_same_gnns m
       = map (\<lambda>k. make_gnns (MeshUpSameGnn k) nets hp (m2m_edge_index g))
           [0..<processor_layers hp]"
  using assms by (auto simp: HiLAM_init_def bind_eq_Inr)

lemma HiLAMParallel_init_fields:
  assumes "HiLAMParallel_init nets hp g = Inr m"
  shows "BaseHiGraphModel_init nets hp g = Inr (par_base m)"
    "edge_split_sections m
       = map length (m2m_edge_index g) @ map length (mesh_up_edge_index g)
           @ map length (mesh_down_edge_index g)"
    "processor_layers hp = 0 \<Longrightarrow> processor m = (\<lambda>x edge_attr. returnT (x, edge_attr))"
    "processor_layers hp \<noteq> 0 \<Longrightarrow>
       processor m
         = sequential
             (map (\<lambda>k. mk_gnn nets (ProcessorNet k)
                     ((default_args
                         (concat (m2m_edge_index g @ mesh_up_edge_index g
                                    @ mesh_down_edge_index g)) hp)
                        \<lparr>edge_chunk_sizes :=
                           Some (map length (m2m_edge_index g @ mesh_up_edge_index g
                                               @ mesh_down_edge_index g)),
                         aggr_chunk_sizes := Some (N_mesh_levels (par_base m))\<rparr>))
                [0..<processor_layers hp])"
  using assms
  by (auto simp: HiLAMParallel_init_def bind_eq_Inr Let_def cat_edge_index_def
      split: if_splits)

section \<open>The processing layers of \<open>HiLAM\<close>\<close>

lemma hi_layers_ok:
  assumes "shapes B d Ns levels" "shapes B d Ms same" "shapes B d Mu up" "shapes B d Md down"
    and n: "length Ns = n" "length Ms = n" "length Mu = n - 1" "length Md = n - 1" "1 \<le> n"
    and fam: "\<forall>i < length ls. case ls ! i of (dgs, dsgs, ugs, usgs) \<Rightarrow>
                family_ok d Md (\<lambda>l. Ns ! (l + 1)) (\<lambda>l. Ns ! l) (MeshDownGnn (k0 + i)) dgs
                \<and> family_ok d Ms (\<lambda>l. Ns ! l) (\<lambda>l. Ns ! l) (MeshDownSameGnn (k0 + i)) dsgs
                \<and> family_ok d Mu (\<lambda>l. Ns ! l) (\<lambda>l. Ns ! (l + 1)) (MeshUpGnn (k0 + i)) ugs
                \<and> family_ok d Ms (\<lambda>l. Ns ! l) (\<lambda>l. Ns ! l) (MeshUpSameGnn (k0 + i)) usgs"
  shows "\<exists>levels' same' up' down'.
           hi_layers n ls levels same up down
             = Inr ((levels', same', up', down'),
                    concat (map (\<lambda>k. down_trace k n @ up_trace k n) [k0..<k0 + length ls]))
           \<and> shapes B d Ns levels' \<and> shapes B d Ms same'
           \<and> shapes B d Mu up' \<and> shapes B d Md down'"
  using assms(1-4) fam
proof (induction ls arbitrary: k0 levels same up down)
  case Nil
  then show ?case by (simp add: returnT_def)
next
  case (Cons x ls)
  obtain dgs dsgs ugs usgs where x: "x = (dgs, dsgs, ugs, usgs)" by (cases x)
  from Cons.prems(5) [rule_format, of 0] x
  have f0: "family_ok d Md (\<lambda>l. Ns ! (l + 1)) (\<lambda>l. Ns ! l) (MeshDownGnn k0) dgs"
    "family_ok d Ms (\<lambda>l. Ns ! l) (\<lambda>l. Ns ! l) (MeshDownSameGnn k0) dsgs"
    "family_ok d Mu (\<lambda>l. Ns ! l) (\<lambda>l. Ns ! (l + 1)) (MeshUpGnn k0) ugs"
    "family_ok d Ms (\<lambda>l. Ns ! l) (\<lambda>l. Ns ! l) (MeshUpSameGnn k0) usgs"
    by simp_all
  have rest: "\<forall>i < length ls. case ls ! i of (dgs, dsgs, ugs, usgs) \<Rightarrow>
                family_ok d Md (\<lambda>l. Ns ! (l + 1)) (\<lambda>l. Ns ! l) (MeshDownGnn (Suc k0 + i)) dgs
                \<and> family_ok d Ms (\<lambda>l. Ns ! l) (\<lambda>l. Ns ! l) (MeshDownSameGnn (Suc k0 + i)) dsgs
                \<and> family_ok d Mu (\<lambda>l. Ns ! l) (\<lambda>l. Ns ! (l + 1)) (MeshUpGnn (Suc k0 + i)) ugs
                \<and> family_ok d Ms (\<lambda>l. Ns ! l) (\<lambda>l. Ns ! l) (MeshUpSameGnn (Suc k0 + i)) usgs"
    using Cons.prems(5) [rule_format, of "Suc i" for i] by simp
  from mesh_down_step_ok [OF Cons.prems(1,2,4) n(1,2,4,5) f0(1,2)]
  obtain l1 s1 d1 where
    dstep: "mesh_down_step n levels same down dgs dsgs = Inr ((l1, s1, d1), down_trace k0 n)"
    and sh1: "shapes B d Ns l1" "shapes B d Ms s1" "shapes B d Md d1"
    by blast
  from mesh_up_step_ok [OF sh1(1,2) Cons.prems(3) n(1,2,3,5) f0(3,4)]
  obtain l2 s2 u2 where
    ustep: "mesh_up_step l1 s1 up ugs usgs = Inr ((l2, s2, u2), up_trace k0 n)"
    and sh2: "shapes B d Ns l2" "shapes B d Ms s2" "shapes B d Mu u2"
    by blast
  from Cons.IH [OF sh2(1,2,3) sh1(3) rest]
  obtain levels' same' up' down' where
    ih: "hi_layers n ls l2 s2 u2 d1
           = Inr ((levels', same', up', down'),
                  concat (map (\<lambda>k. down_trace k n @ up_trace k n) [Suc k0..<Suc k0 + length ls]))"
    and sh: "shapes B d Ns levels'" "shapes B d Ms same'" "shapes B d Mu up'"
      "shapes B d Md down'"
    by blast
  have "[k0..<k0 + length (x # ls)] = k0 # [Suc k0..<Suc k0 + length ls]"
    using upt_conv_Cons [of k0 "k0 + length (x # ls)"] by simp
  then have "hi_layers n (x # ls) levels same up down
          = Inr ((levels', same', up', down'),
                 concat (map (\<lambda>k. down_trace k n @ up_trace k n) [k0..<k0 + length (x # ls)]))"
    using dstep ustep ih by (simp add: x bindT_Inr del: upt_Suc)
  with sh show ?case by blast
qed

lemma zip4_map:
  "zip (map f xs) (zip (map g xs) (zip (map h xs) (map j xs)))
     = map (\<lambda>x. (f x, g x, h x, j x)) xs"
  by (induction xs) auto

lemma hilam_step_ok:
  assumes init: "HiLAM_init nets hp g = Inr m" and inet: "inet_contract nets"
    and fit: "graph_fits g Ns"
    and n: "length (mesh_static_features g) = n" "length (m2m_edge_index g) = n"
      "length (mesh_up_edge_index g) = n - 1" "length (mesh_down_edge_index g) = n - 1"
      "1 \<le> n" "length Ns = n"
    and sh: "shapes B (hidden_dim hp) Ns levels"
      "shapes B (hidden_dim hp) (map length (m2m_edge_index g)) same"
      "shapes B (hidden_dim hp) (map length (mesh_up_edge_index g)) up"
      "shapes B (hidden_dim hp) (map length (mesh_down_edge_index g)) down"
  shows "\<exists>levels' same' up' down'.
           hi_processor_step_seq m levels same up down
             = Inr ((levels', same', up', down'), seq_trace n (processor_layers hp))
           \<and> shapes B (hidden_dim hp) Ns levels'
           \<and> shapes B (hidden_dim hp) (map length (m2m_edge_index g)) same'
           \<and> shapes B (hidden_dim hp) (map length (mesh_up_edge_index g)) up'
           \<and> shapes B (hidden_dim hp) (map length (mesh_down_edge_index g)) down'"
proof -
  note f = HiLAM_init_fields [OF init]
  note b = BaseHiGraphModel_init_fields [OF f(1)]
  from fit have fits:
    "edges_fit (m2m_edge_index g) (\<lambda>l. Ns ! l) (\<lambda>l. Ns ! l)"
    "edges_fit (mesh_up_edge_index g) (\<lambda>l. Ns ! l) (\<lambda>l. Ns ! (l + 1))"
    "edges_fit (mesh_down_edge_index g) (\<lambda>l. Ns ! (l + 1)) (\<lambda>l. Ns ! l)"
    by (simp_all add: graph_fits_def)
  let ?ls = "map (\<lambda>k. (make_gnns (MeshDownGnn k) nets hp (mesh_down_edge_index g),
                        make_gnns (MeshDownSameGnn k) nets hp (m2m_edge_index g),
                        make_gnns (MeshUpGnn k) nets hp (mesh_up_edge_index g),
                        make_gnns (MeshUpSameGnn k) nets hp (m2m_edge_index g)))
               [0..<processor_layers hp]"
  have fam: "\<forall>i < length ?ls. case ?ls ! i of (dgs, dsgs, ugs, usgs) \<Rightarrow>
                family_ok (hidden_dim hp) (map length (mesh_down_edge_index g))
                  (\<lambda>l. Ns ! (l + 1)) (\<lambda>l. Ns ! l) (MeshDownGnn (0 + i)) dgs
                \<and> family_ok (hidden_dim hp) (map length (m2m_edge_index g))
                    (\<lambda>l. Ns ! l) (\<lambda>l. Ns ! l) (MeshDownSameGnn (0 + i)) dsgs
                \<and> family_ok (hidden_dim hp) (map length (mesh_up_edge_index g))
                    (\<lambda>l. Ns ! l) (\<lambda>l. Ns ! (l + 1)) (MeshUpGnn (0 + i)) ugs
                \<and> family_ok (hidden_dim hp) (map length (m2m_edge_index g))
                    (\<lambda>l. Ns ! l) (\<lambda>l. Ns ! l) (MeshUpSameGnn (0 + i)) usgs"
    using make_gnns_family [OF inet fits(1)] make_gnns_family [OF inet fits(2)]
      make_gnns_family [OF inet fits(3)]
    by simp
  have lens: "length (map length (m2m_edge_index g)) = n"
    "length (map length (mesh_up_edge_index g)) = n - 1"
    "length (map length (mesh_down_edge_index g)) = n - 1"
    using n by simp_all
  from hi_layers_ok [OF sh n(6) lens n(5) fam]
  show ?thesis
    using n by (simp add: hi_processor_step_seq_def f b zip4_map seq_trace_def)
qed

section \<open>Shapes under concatenation and split\<close>

lemma wf_join_nodes:
  assumes "list_all (\<lambda>t. wf3 t \<and> dimB t = B \<and> dimF t = F) ts"
  shows "length (join_nodes B (map vals ts)) = B
         \<and> list_all (\<lambda>s. length s = sum_list (map dimN ts) \<and> list_all (\<lambda>r. length r = F) s)
              (join_nodes B (map vals ts))"
  using assms
proof (induction ts)
  case Nil
  then show ?case by (simp add: join_nodes_def list_all_iff)
next
  case (Cons t ts)
  define P where "P = (\<lambda>n s. length s = n \<and> list_all (\<lambda>r::'a list. length r = F) s)"
  have P_app: "P n a \<Longrightarrow> P k b \<Longrightarrow> P (n + k) (a @ b)" for n k a b
    by (simp add: P_def)
  from Cons have t: "wf3 t" "dimB t = B" "dimF t = F"
    and ih: "length (join_nodes B (map vals ts)) = B"
      "list_all (P (sum_list (map dimN ts))) (join_nodes B (map vals ts))"
    by (simp_all add: P_def)
  have tv: "length (vals t) = B" "list_all (P (dimN t)) (vals t)"
    using t by (simp_all add: wf3_def P_def)
  have "list_all (P (dimN t + sum_list (map dimN ts)))
          (map2 (@) (vals t) (join_nodes B (map vals ts)))"
    using tv ih P_app by (simp add: list_all_length)
  then show ?case
    using tv ih by (simp add: join_nodes_Cons P_def)
qed

lemma cat_nodes_shape:
  assumes "ts \<noteq> []" and "shapes B F ns ts"
  shows "cat_nodes ts = Inr (Tensor3 B (sum_list ns) F (join_nodes B (map vals ts)))"
    and "has_shape B (sum_list ns) F (Tensor3 B (sum_list ns) F (join_nodes B (map vals ts)))"
proof -
  note all = shapes_all [OF assms(2)]
  have "list_all (\<lambda>t. dimB t = B \<and> dimF t = F) ts"
    using all by (simp add: list_all_iff)
  from cat_nodes_ok [OF assms(1) this]
  show "cat_nodes ts = Inr (Tensor3 B (sum_list ns) F (join_nodes B (map vals ts)))"
    by (simp add: shapes_dimN [OF assms(2)])
  show "has_shape B (sum_list ns) F (Tensor3 B (sum_list ns) F (join_nodes B (map vals ts)))"
    using wf_join_nodes [OF all] by (simp add: has_shape_def wf3_def shapes_dimN [OF assms(2)])
qed

lemma split_vals_shapes:
  assumes "length v = B"
    and "list_all (\<lambda>s. length s = sum_list ns \<and> list_all (\<lambda>r. length r = F) s) v"
  shows "shapes B F ns (split_vals B F v ns)"
  using assms
proof (induction ns arbitrary: v)
  case Nil
  then show ?case by simp
next
  case (Cons n ns)
  have head: "has_shape B n F (Tensor3 B n F (map (take n) v))"
    using Cons.prems
    by (auto simp: has_shape_def wf3_def list_all_iff dest: in_set_takeD)
  have "list_all (\<lambda>s. length s = sum_list ns \<and> list_all (\<lambda>r. length r = F) s) (map (drop n) v)"
    using Cons.prems(2) by (auto simp: list_all_iff dest: in_set_dropD)
  with Cons.IH [of "map (drop n) v"] Cons.prems(1) head show ?case by simp
qed

lemma split_nodes_shapes:
  assumes "has_shape B (sum_list ns) F t"
  shows "\<exists>ps. split_nodes t ns = Inr ps \<and> shapes B F ns ps"
proof -
  from assms have "length (vals t) = B"
    "list_all (\<lambda>s. length s = sum_list ns \<and> list_all (\<lambda>r. length r = F) s) (vals t)"
    "dimB t = B" "dimF t = F" "dimN t = sum_list ns"
    by (auto simp: has_shape_def wf3_def)
  with split_vals_shapes [of "vals t" B ns F] show ?thesis
    by (simp add: split_nodes_def)
qed

lemma split_cat:
  assumes "ts \<noteq> []" and "shapes B F ns ts"
  shows "split_nodes (Tensor3 B (sum_list ns) F (join_nodes B (map vals ts))) ns = Inr ts"
  using split_vals_join [OF shapes_all [OF assms(2)]] shapes_dimN [OF assms(2)]
  by (simp add: split_nodes_def)

lemma shapes_take: "shapes B F ns ts \<Longrightarrow> shapes B F (take k ns) (take k ts)"
  by (simp add: shapes_def list_all2_takeI)

lemma shapes_drop: "shapes B F ns ts \<Longrightarrow> shapes B F (drop k ns) (drop k ts)"
  by (simp add: shapes_def list_all2_dropI)

section \<open>\<open>HiLAMParallel.hi_processor_step\<close>\<close>

lemma base_init_nonempty:
  assumes "BaseHiGraphModel_init nets hp g = Inr b"
  shows "mesh_static_features g \<noteq> []"
  using assms
  by (auto simp: BaseHiGraphModel_init_def Let_def bind_eq_Inr get_def split: if_splits)

text \<open>
  C4. A \<open>HiLAMParallel\<close> constructed with \<open>processor_layers = 0\<close>, on a graph whose
  edge index lists have one entry per level (same-level) and per pair of adjacent levels
  (up): on node and edge lists of the sizes of the graph, \<open>hi_processor_step\<close> returns
  the four lists it was given, and no \<open>InteractionNet\<close> is called.
\<close>

theorem parallel_zero_layers_identity:
  assumes init: "HiLAMParallel_init nets hp g = Inr m"
    and zero: "processor_layers hp = 0"
    and counts: "length (m2m_edge_index g) = N_levels (par_base m)"
      "length (mesh_up_edge_index g) = N_levels (par_base m) - 1"
    and sh: "shapes B d (N_mesh_levels (par_base m)) mesh_rep_levels"
      "shapes B d (map length (m2m_edge_index g)) mesh_same_rep"
      "shapes B d (map length (mesh_up_edge_index g)) mesh_up_rep"
      "shapes B d (map length (mesh_down_edge_index g)) mesh_down_rep"
  shows "hi_processor_step_parallel m mesh_rep_levels mesh_same_rep mesh_up_rep mesh_down_rep
           = Inr ((mesh_rep_levels, mesh_same_rep, mesh_up_rep, mesh_down_rep), [])"
proof -
  note f = HiLAMParallel_init_fields [OF init]
  note b = BaseHiGraphModel_init_fields [OF f(1)]
  let ?n = "N_levels (par_base m)"
  have n: "1 \<le> ?n" using base_init_nonempty [OF f(1)] b(2) by (cases "mesh_static_features g") auto
  note len = shapes_length [OF sh(1)] shapes_length [OF sh(2)] shapes_length [OF sh(3)]
  have ne: "mesh_rep_levels \<noteq> []" "mesh_same_rep @ mesh_up_rep @ mesh_down_rep \<noteq> []"
    using len n counts b by auto
  let ?edges = "mesh_same_rep @ mesh_up_rep @ mesh_down_rep"
  have esh: "shapes B d (edge_split_sections m) ?edges"
    unfolding f(2) by (intro shapes_append sh)
  note c1 = cat_nodes_shape(1) [OF ne(1) sh(1)]
  note c2 = cat_nodes_shape(1) [OF ne(2) esh]
  note s1 = split_cat [OF ne(1) sh(1)]
  note s2 = split_cat [OF ne(2) esh]
  have lens: "length mesh_same_rep = ?n" "length mesh_up_rep = ?n - 1"
    using len counts by simp_all
  show ?thesis
    using lens c1 c2 s1 s2
    by (simp add: hi_processor_step_parallel_def Let_def f(3) [OF zero] returnT_def)
qed

text \<open>
  C6. \<open>hi_processor_step\<close> of \<open>HiLAMParallel\<close> hands the processor the concatenation of
  the node levels and the concatenation of the edge lists in the order same, up, down.
  When the processor returns tensors with the node-axis sizes it was given, the result is
  the split of the node tensor by \<open>N_mesh_levels\<close> and of the edge tensor by
  \<open>edge_split_sections\<close>, which lists the sizes of the same-level, then the up, then the
  down edge indices: the first \<open>N_levels\<close> sections are returned as the same-level
  list, the next \<open>N_levels - 1\<close> as the up list, the remaining \<open>N_levels - 1\<close> as the
  down list.
\<close>

theorem parallel_concat_split_order:
  assumes init: "HiLAMParallel_init nets hp g = Inr m"
    and counts: "length (m2m_edge_index g) = N_levels (par_base m)"
      "length (mesh_up_edge_index g) = N_levels (par_base m) - 1"
      "length (mesh_down_edge_index g) = N_levels (par_base m) - 1"
    and cat1: "cat_nodes mesh_rep_levels = Inr mesh_rep"
    and cat2: "cat_nodes (mesh_same_rep @ mesh_up_rep @ mesh_down_rep) = Inr mesh_edge_rep"
    and run: "processor m mesh_rep mesh_edge_rep = Inr ((mesh_rep', mesh_edge_rep'), tr)"
    and keep: "dimN mesh_rep' = sum_list (N_mesh_levels (par_base m))"
      "dimN mesh_edge_rep' = sum_list (edge_split_sections m)"
  shows "\<exists>levels' same' up' down'.
           hi_processor_step_parallel m mesh_rep_levels mesh_same_rep mesh_up_rep mesh_down_rep
             = Inr ((levels', same', up', down'), tr)
           \<and> split_nodes mesh_rep' (N_mesh_levels (par_base m)) = Inr levels'
           \<and> split_nodes mesh_edge_rep' (edge_split_sections m) = Inr (same' @ up' @ down')
           \<and> edge_split_sections m
               = map length (m2m_edge_index g) @ map length (mesh_up_edge_index g)
                   @ map length (mesh_down_edge_index g)
           \<and> map dimN levels' = N_mesh_levels (par_base m)
           \<and> map dimN same' = map length (m2m_edge_index g)
           \<and> map dimN up' = map length (mesh_up_edge_index g)
           \<and> map dimN down' = map length (mesh_down_edge_index g)
           \<and> length same' = N_levels (par_base m)
           \<and> length up' = N_levels (par_base m) - 1
           \<and> length down' = N_levels (par_base m) - 1"
proof -
  note f = HiLAMParallel_init_fields [OF init]
  let ?n = "N_levels (par_base m)"
  let ?levels = "split_vals (dimB mesh_rep') (dimF mesh_rep') (vals mesh_rep')
                   (N_mesh_levels (par_base m))"
  let ?secs = "split_vals (dimB mesh_edge_rep') (dimF mesh_edge_rep') (vals mesh_edge_rep')
                 (edge_split_sections m)"
  have dimN_split: "map dimN (split_vals B F v ns) = ns" for B F ns and v :: "'a list list list"
    by (induction ns arbitrary: v) simp_all
  have s1: "split_nodes mesh_rep' (N_mesh_levels (par_base m)) = Inr ?levels"
    and s2: "split_nodes mesh_edge_rep' (edge_split_sections m) = Inr ?secs"
    using keep by (simp_all add: split_nodes_def)
  have step: "hi_processor_step_parallel m mesh_rep_levels mesh_same_rep mesh_up_rep mesh_down_rep
          = Inr ((?levels, take ?n ?secs, take (?n - 1) (drop ?n ?secs),
                  drop (?n + (?n - 1)) ?secs), tr)"
    by (simp add: hi_processor_step_parallel_def Let_def cat1 cat2 run bindT_Inr s1 s2
        returnT_def)
  have secs: "map dimN ?secs = edge_split_sections m" by (rule dimN_split)
  have parts: "take ?n ?secs @ take (?n - 1) (drop ?n ?secs) @ drop (?n + (?n - 1)) ?secs = ?secs"
    by (metis append_take_drop_id drop_drop add.commute)
  have m1: "map dimN (take ?n ?secs) = map length (m2m_edge_index g)"
    using secs counts by (simp add: f(2) flip: take_map)
  have m2: "map dimN (take (?n - 1) (drop ?n ?secs)) = map length (mesh_up_edge_index g)"
    using secs counts by (simp add: f(2) flip: take_map drop_map)
  have m3: "map dimN (drop (?n + (?n - 1)) ?secs) = map length (mesh_down_edge_index g)"
    using secs counts by (simp add: f(2) flip: drop_map)
  have l1: "length (take ?n ?secs) = ?n"
    using arg_cong [OF m1, of length] counts by simp
  have l2: "length (take (?n - 1) (drop ?n ?secs)) = ?n - 1"
    using arg_cong [OF m2, of length] counts by simp
  have l3: "length (drop (?n + (?n - 1)) ?secs) = ?n - 1"
    using arg_cong [OF m3, of length] counts by simp
  have d0: "map dimN ?levels = N_mesh_levels (par_base m)" by (rule dimN_split)
  have s2': "split_nodes mesh_edge_rep' (edge_split_sections m)
               = Inr (take ?n ?secs @ take (?n - 1) (drop ?n ?secs) @ drop (?n + (?n - 1)) ?secs)"
    using s2 parts by simp
  from step s1 s2' f(2) d0 m1 m2 m3 l1 l2 l3 show ?thesis by blast
qed

section \<open>The small concrete model\<close>

lemma has_shape_bump: "has_shape B N F t \<Longrightarrow> has_shape B N F (bump t)"
  by (simp add: has_shape_def wf3_def bump_def list_all_iff)

lemma toy_forward_ok:
  assumes "fits (edge_index args) n_send n_rec"
    and "has_shape B n_send (net_hidden_dim args) s" "has_shape B n_rec (net_hidden_dim args) r"
    and "has_shape B (length (edge_index args)) (net_hidden_dim args) e"
  shows "toy_forward args s r e = Inr (bump r, e)"
  using assms by (simp add: toy_forward_def has_shape_def)

lemma toy_inet: "inet_contract toy_nets"
  unfolding inet_contract_def gnn_ok_def
  by (auto simp: mk_gnn_def toy_nets_def toy_forward_ok has_shape_bump)

lemma toy_fits:
  "fits [(0, 1), (1, 2), (2, 0)] 3 3" "fits [(3, 4), (4, 3)] 2 2"
  "fits [(0, 3), (2, 4)] 3 2" "fits [(3, 0), (3, 1), (4, 2)] 2 3"
  "fits [(0, 1), (1, 2), (2, 0), (3, 4), (4, 3), (0, 3), (2, 4), (3, 0), (3, 1), (4, 2)] 5 5"
  by (simp_all add: fits_def num_rec_def num_send_def)

lemma toy_graph_fits: "graph_fits toy_graph [3, 2]"
  using toy_fits by (simp add: graph_fits_def edges_fit_def toy_graph_def upt_rec)

lemma toy_mlp: "mlp_contract toy_nets"
  by (simp add: mlp_contract_def mlp_ok_def toy_nets_def wf2_def list_all_iff)

lemma toy_graph_wf: "wf_hi_graph (toy_graph :: ('a::{zero,one}) hi_graph)"
proof -
  have "map rows2 (mesh_static_features (toy_graph :: 'a hi_graph)) = [3, 2]"
    by (simp add: toy_graph_def)
  with toy_graph_fits [where 'a = 'a]
  have "graph_fits (toy_graph :: 'a hi_graph)
          (map rows2 (mesh_static_features (toy_graph :: 'a hi_graph)))"
    by simp
  then show ?thesis
    by (simp add: wf_hi_graph_def toy_graph_def same_cols_def wf2_def)
qed

lemma toy_graph_counts:
  "length (mesh_static_features toy_graph) = 2" "length (m2m_edge_index toy_graph) = 2"
  "length (mesh_up_edge_index toy_graph) = 1" "length (mesh_down_edge_index toy_graph) = 1"
  by (simp_all add: toy_graph_def)

lemma toy_shapes:
  "shapes 1 2 [3, 2] toy_levels"
  "shapes 1 2 (map length (m2m_edge_index toy_graph)) toy_same"
  "shapes 1 2 (map length (mesh_up_edge_index toy_graph)) toy_up"
  "shapes 1 2 (map length (mesh_down_edge_index toy_graph)) toy_down"
  by (simp_all add: toy_levels_def toy_same_def toy_up_def toy_down_def toy_graph_def
      has_shape_def wf3_def)

lemma toy_hp_simps [simp]:
  "hidden_dim (toy_hp k) = 2" "processor_layers (toy_hp k) = k"
  by (simp_all add: toy_hp_def)

lemma HiLAM_init_ok:
  assumes "wf_hi_graph g"
  shows "\<exists>m. HiLAM_init nets hp g = Inr m"
  using BaseHiGraphModel_init_ok [OF assms, of nets hp]
  by (auto simp: HiLAM_init_def)

lemma HiLAMParallel_init_ok:
  assumes "wf_hi_graph g"
  shows "\<exists>m. HiLAMParallel_init nets hp g = Inr m"
proof -
  from assms have "length (m2m_edge_index g) = length (m2m_features g)"
    "2 \<le> length (m2m_features g)"
    using map_eq_imp_length_eq [of length "m2m_edge_index g" rows2 "m2m_features g"]
    by (simp_all add: wf_hi_graph_def Let_def)
  then have "m2m_edge_index g \<noteq> []" by auto
  then show ?thesis
    using BaseHiGraphModel_init_ok [OF assms, of nets hp]
    by (auto simp: HiLAMParallel_init_def Let_def cat_edge_index_def)
qed

theorem parallel_zero_layers_identity_witness:
  "\<exists>m. HiLAMParallel_init toy_nets (toy_hp 0) toy_graph = Inr m
       \<and> hi_processor_step_parallel m toy_levels toy_same toy_up toy_down
           = Inr ((toy_levels, toy_same, toy_up, toy_down), [])"
proof -
  obtain m :: "int hilam_parallel"
    where m: "HiLAMParallel_init toy_nets (toy_hp 0) toy_graph = Inr m"
    using HiLAMParallel_init_ok [OF toy_graph_wf] by blast
  note b = BaseHiGraphModel_init_fields [OF HiLAMParallel_init_fields(1) [OF m]]
  have n: "N_levels (par_base m) = 2" "N_mesh_levels (par_base m) = [3, 2]"
    by (simp_all add: b toy_graph_def)
  from parallel_zero_layers_identity [OF m, of 1 2 toy_levels toy_same toy_up toy_down]
  have "hi_processor_step_parallel m toy_levels toy_same toy_up toy_down
          = Inr ((toy_levels, toy_same, toy_up, toy_down), [])"
    using toy_shapes by (simp add: n toy_graph_counts toy_hp_def)
  with m show ?thesis by blast
qed

text \<open>
  C5. A \<open>HiLAM\<close> with one processing layer on a graph of two mesh levels, whose nets
  keep the shapes they are given on the node counts they are built for: one \<open>hi_processor_step\<close> on lists of the sizes of the
  graph, whose edge indices fit the node counts of the two levels, returns, and it calls
  six nets, in this order: the down sweep
  (the same-level net of level 1, the down net into level 0, the same-level net of
  level 0), then the up sweep (the same-level net of level 0, the up net into level 1,
  the same-level net of level 1). Each same-level net of either direction is called
  once.
\<close>

theorem hilam_single_layer_two_levels:
  assumes init: "HiLAM_init nets hp g = Inr m" and inet: "inet_contract nets"
    and one: "processor_layers hp = 1"
    and fit: "graph_fits g [N0, N1]"
    and two: "length (mesh_static_features g) = 2" "length (m2m_edge_index g) = 2"
      "length (mesh_up_edge_index g) = 1" "length (mesh_down_edge_index g) = 1"
    and sh: "shapes B (hidden_dim hp) [N0, N1] mesh_rep_levels"
      "shapes B (hidden_dim hp) (map length (m2m_edge_index g)) mesh_same_rep"
      "shapes B (hidden_dim hp) (map length (mesh_up_edge_index g)) mesh_up_rep"
      "shapes B (hidden_dim hp) (map length (mesh_down_edge_index g)) mesh_down_rep"
  shows "\<exists>res tr.
           hi_processor_step_seq m mesh_rep_levels mesh_same_rep mesh_up_rep mesh_down_rep
             = Inr (res, tr)
           \<and> tr = down_trace 0 2 @ up_trace 0 2
           \<and> down_trace 0 2 = [MeshDownSameGnn 0 1, MeshDownGnn 0 0, MeshDownSameGnn 0 0]
           \<and> up_trace 0 2 = [MeshUpSameGnn 0 0, MeshUpGnn 0 0, MeshUpSameGnn 0 1]
           \<and> count_list tr (MeshDownSameGnn 0 0) = 1
           \<and> count_list tr (MeshDownSameGnn 0 1) = 1
           \<and> count_list tr (MeshUpSameGnn 0 0) = 1
           \<and> count_list tr (MeshUpSameGnn 0 1) = 1"
proof -
  have n: "length (mesh_up_edge_index g) = 2 - 1" "length (mesh_down_edge_index g) = 2 - 1"
    "(1::nat) \<le> 2" "length [N0, N1] = 2"
    using two by simp_all
  from hilam_step_ok [OF init inet fit two(1,2) n sh]
  obtain res where
    step: "hi_processor_step_seq m mesh_rep_levels mesh_same_rep mesh_up_rep mesh_down_rep
             = Inr (res, seq_trace 2 (processor_layers hp))"
    by blast
  have d: "down_trace 0 2 = [MeshDownSameGnn 0 1, MeshDownGnn 0 0, MeshDownSameGnn 0 0]"
    by (simp add: down_trace_def)
  have u: "up_trace 0 2 = [MeshUpSameGnn 0 0, MeshUpGnn 0 0, MeshUpSameGnn 0 1]"
    by (simp add: up_trace_def numeral_2_eq_2)
  have s: "seq_trace 2 (processor_layers hp) = down_trace 0 2 @ up_trace 0 2"
    by (simp add: seq_trace_def one)
  have step': "hi_processor_step_seq m mesh_rep_levels mesh_same_rep mesh_up_rep mesh_down_rep
             = Inr (res, down_trace 0 2 @ up_trace 0 2)"
    using step s by simp
  have c: "count_list (down_trace 0 2 @ up_trace 0 2) (MeshDownSameGnn 0 0) = 1"
    "count_list (down_trace 0 2 @ up_trace 0 2) (MeshDownSameGnn 0 1) = 1"
    "count_list (down_trace 0 2 @ up_trace 0 2) (MeshUpSameGnn 0 0) = 1"
    "count_list (down_trace 0 2 @ up_trace 0 2) (MeshUpSameGnn 0 1) = 1"
    by (simp_all add: d u)
  from step' d u c show ?thesis by blast
qed

theorem hilam_single_layer_two_levels_witness:
  "\<exists>m res. HiLAM_init toy_nets (toy_hp 1) toy_graph = Inr m
     \<and> hi_processor_step_seq m toy_levels toy_same toy_up toy_down
         = Inr (res, [MeshDownSameGnn 0 1, MeshDownGnn 0 0, MeshDownSameGnn 0 0,
                      MeshUpSameGnn 0 0, MeshUpGnn 0 0, MeshUpSameGnn 0 1])"
proof -
  obtain m :: "int hilam" where m: "HiLAM_init toy_nets (toy_hp 1) toy_graph = Inr m"
    using HiLAM_init_ok [OF toy_graph_wf] by blast
  have hp: "processor_layers (toy_hp 1) = 1"
    by simp
  have sh: "shapes 1 (hidden_dim (toy_hp 1)) [3, 2] toy_levels"
    "shapes 1 (hidden_dim (toy_hp 1)) (map length (m2m_edge_index toy_graph)) toy_same"
    "shapes 1 (hidden_dim (toy_hp 1)) (map length (mesh_up_edge_index toy_graph)) toy_up"
    "shapes 1 (hidden_dim (toy_hp 1)) (map length (mesh_down_edge_index toy_graph)) toy_down"
    using toy_shapes by simp_all
  from hilam_single_layer_two_levels [OF m toy_inet hp toy_graph_fits toy_graph_counts sh]
  obtain res tr where
    "hi_processor_step_seq m toy_levels toy_same toy_up toy_down = Inr (res, tr)"
    "tr = down_trace 0 2 @ up_trace 0 2"
    "down_trace 0 2 = [MeshDownSameGnn 0 1, MeshDownGnn 0 0, MeshDownSameGnn 0 0]"
    "up_trace 0 2 = [MeshUpSameGnn 0 0, MeshUpGnn 0 0, MeshUpSameGnn 0 1]"
    by blast
  then have "hi_processor_step_seq m toy_levels toy_same toy_up toy_down
               = Inr (res, [MeshDownSameGnn 0 1, MeshDownGnn 0 0, MeshDownSameGnn 0 0,
                            MeshUpSameGnn 0 0, MeshUpGnn 0 0, MeshUpSameGnn 0 1])"
    by simp
  with m show ?thesis by blast
qed

theorem parallel_concat_split_order_witness:
  "\<exists>m. HiLAMParallel_init toy_nets (toy_hp 1) toy_graph = Inr m
     \<and> edge_split_sections m = [3, 2, 2, 3]
     \<and> hi_processor_step_parallel m toy_levels toy_same toy_up toy_down
         = Inr (([Tensor3 1 3 2 [[[2, 2], [3, 3], [4, 4]]], Tensor3 1 2 2 [[[5, 5], [6, 6]]]],
                 toy_same, toy_up, toy_down), [ProcessorNet 0])"
proof -
  obtain m :: "int hilam_parallel"
    where m: "HiLAMParallel_init toy_nets (toy_hp 1) toy_graph = Inr m"
    using HiLAMParallel_init_ok [OF toy_graph_wf] by blast
  note f = HiLAMParallel_init_fields [OF m]
  note b = BaseHiGraphModel_init_fields [OF f(1)]
  have n: "N_levels (par_base m) = 2" "N_mesh_levels (par_base m) = [3, 2]"
    "edge_split_sections m = [3, 2, 2, 3]"
    by (simp_all add: b f(2) toy_graph_def)
  let ?mr = "Tensor3 1 5 2 [[[1, 1], [2, 2], [3, 3], [4, 4], [5, 5]]] :: int tensor3"
  let ?er = "Tensor3 1 10 2 [[[0, 1], [0, 2], [0, 3], [0, 4], [0, 5], [0, 6], [0, 7],
                               [0, 8], [0, 9], [0, 10]]] :: int tensor3"
  have c1: "cat_nodes toy_levels = Inr ?mr"
    by (simp add: cat_nodes_def join_nodes_def toy_levels_def)
  have c2: "cat_nodes (toy_same @ toy_up @ toy_down) = Inr ?er"
    by (simp add: cat_nodes_def join_nodes_def toy_same_def toy_up_def toy_down_def)
  let ?g = "toy_graph :: int hi_graph"
  have "toy_forward
          ((default_args
              (concat (m2m_edge_index ?g @ mesh_up_edge_index ?g
                         @ mesh_down_edge_index ?g)) (toy_hp 1))
             \<lparr>edge_chunk_sizes :=
                Some (map length (m2m_edge_index ?g @ mesh_up_edge_index ?g
                                    @ mesh_down_edge_index ?g)),
              aggr_chunk_sizes := Some (N_mesh_levels (par_base m))\<rparr>) ?mr ?mr ?er
          = Inr (bump ?mr, ?er)"
    using toy_fits(5) by (simp add: toy_forward_def toy_graph_def default_args_def toy_hp_def)
  then have run: "processor m ?mr ?er = Inr ((bump ?mr, ?er), [ProcessorNet 0])"
    using f(4) by (simp add: call_def mk_gnn_def toy_nets_def bindT_Inr returnT_def)
  from parallel_concat_split_order [OF m _ _ _ c1 c2 run]
  obtain levels' same' up' down' where
    r: "hi_processor_step_parallel m toy_levels toy_same toy_up toy_down
          = Inr ((levels', same', up', down'), [ProcessorNet 0])"
      "split_nodes (bump ?mr) (N_mesh_levels (par_base m)) = Inr levels'"
      "split_nodes ?er (edge_split_sections m) = Inr (same' @ up' @ down')"
      "length same' = N_levels (par_base m)" "length up' = N_levels (par_base m) - 1"
      "length down' = N_levels (par_base m) - 1"
    by (auto simp: n toy_graph_counts bump_def)
  from r(2) have l: "levels' = [Tensor3 1 3 2 [[[2, 2], [3, 3], [4, 4]]],
                                Tensor3 1 2 2 [[[5, 5], [6, 6]]]]"
    by (simp add: n split_nodes_def bump_def)
  have "split_nodes ?er [3, 2, 2, 3] = Inr (toy_same @ toy_up @ toy_down)"
    by (simp add: split_nodes_def toy_same_def toy_up_def toy_down_def)
  with r(3) have eq: "same' @ up' @ down' = toy_same @ toy_up @ toy_down"
    by (simp only: n sum.inject)
  have len: "length same' = length toy_same" "length up' = length toy_up"
    using r(4,5) by (simp_all add: n toy_same_def toy_up_def)
  from eq len(1) have e1: "same' = toy_same" "up' @ down' = toy_up @ toy_down"
    by simp_all
  from e1(2) len(2) have "up' = toy_up" "down' = toy_down"
    by simp_all
  with e1(1) r(1) l m n show ?thesis by blast
qed

section \<open>\<open>BaseHiGraphModel.process_step\<close>\<close>

lemma expand_to_batch_shape:
  "wf2 x \<Longrightarrow> has_shape B (rows2 x) (cols2 x) (expand_to_batch x B)"
  by (simp add: expand_to_batch_def has_shape_def wf3_def wf2_def list_all_iff)

lemma embed_all_ok:
  assumes "list_all2 (\<lambda>emb f. wf2 f \<and> mlp_ok (cols2 f) d emb) embs feats"
  shows "\<exists>xs. embed_all (zip embs feats) B = Inr xs \<and> shapes B d (map rows2 feats) xs"
  using assms
proof (induction embs feats rule: list_all2_induct)
  case Nil
  then show ?case by simp
next
  case (Cons emb embs f feats)
  from Cons(1) obtain y where y: "emb f = Inr y" "wf2 y" "rows2 y = rows2 f" "cols2 y = d"
    unfolding mlp_ok_def by blast
  from Cons.IH obtain xs where
    xs: "embed_all (zip embs feats) B = Inr xs" "shapes B d (map rows2 feats) xs"
    by blast
  from expand_to_batch_shape [OF y(2), of B] y(3,4)
  have "has_shape B (rows2 f) d (expand_to_batch y B)" by simp
  with y(1) xs show ?case by simp
qed

lemma last_blueprint: "last (c # replicate (k + 1) d) = d"
  by (induction k) simp_all

lemma blueprint_mlp_ok:
  assumes "mlp_contract nets"
  shows "mlp_ok c d (make_mlp nets i (c # replicate (k + 1) d))"
  using assms [unfolded mlp_contract_def, rule_format, of "c # replicate (k + 1) d" i]
    last_blueprint [of c k d]
  by (simp del: replicate_Suc)


lemma embedders_ok:
  assumes mlp: "mlp_contract nets" and sc: "same_cols feats"
    and len: "length ls = length feats"
  shows "list_all2 (\<lambda>emb f. wf2 f \<and> mlp_ok (cols2 f) d emb)
           (map (\<lambda>l. make_mlp nets (name l) (cols2 (hd feats) # replicate (k + 1) d)) ls)
           feats"
proof (rule list_all2_all_nthI)
  show "length (map (\<lambda>l. make_mlp nets (name l) (cols2 (hd feats) # replicate (k + 1) d)) ls)
          = length feats"
    using len by simp
next
  fix i
  assume "i < length (map (\<lambda>l. make_mlp nets (name l) (cols2 (hd feats) # replicate (k + 1) d)) ls)"
  then have i: "i < length feats" "i < length ls" using len by simp_all
  then have "feats ! i \<in> set feats" by simp
  with sc have f: "wf2 (feats ! i)" "cols2 (feats ! i) = cols2 (hd feats)"
    unfolding same_cols_def list_all_iff by blast+
  show "wf2 (feats ! i) \<and> mlp_ok (cols2 (feats ! i)) d
          (map (\<lambda>l. make_mlp nets (name l) (cols2 (hd feats) # replicate (k + 1) d)) ls ! i)"
    using f i blueprint_mlp_ok [OF mlp, of "cols2 (hd feats)" d "name (ls ! i)" k]
    by (simp del: replicate_Suc)
qed

lemma same_cols_tl:
  assumes "same_cols (f # fs)"
  shows "list_all (\<lambda>x. wf2 x \<and> cols2 x = cols2 f) fs"
  using assms by (simp add: same_cols_def)

lemma higher_embedders_ok:
  assumes mlp: "mlp_contract nets" and sc: "same_cols feats" and ne: "feats \<noteq> []"
  shows "list_all2 (\<lambda>emb f. wf2 f \<and> mlp_ok (cols2 f) d emb)
           (drop 1 (map (\<lambda>l. make_mlp nets (name l) (cols2 (feats ! 0) # replicate (k + 1) d))
                      [0..<length feats]))
           (drop 1 feats)"
proof -
  have hd0: "feats ! 0 = hd feats" using ne by (simp add: hd_conv_nth)
  have "list_all2 (\<lambda>emb f. wf2 f \<and> mlp_ok (cols2 f) d emb)
           (map (\<lambda>l. make_mlp nets (name l) (cols2 (hd feats) # replicate (k + 1) d))
              [0..<length feats]) feats"
    by (rule embedders_ok [OF mlp sc]) simp
  then show ?thesis
    unfolding hd0 by (rule list_all2_dropI)
qed

lemma read_gnns_family:
  assumes "inet_contract nets" and "edges_fit eis S R"
  shows "family_ok (hidden_dim hp) (map length eis) S R MeshReadGnn
           (map (\<lambda>(l, ei). mk_gnn nets (MeshReadGnn l)
                              ((default_args ei hp)\<lparr>update_edges := False\<rparr>))
              (enumerate_from 0 eis))"
proof -
  have "gnn_ok (hidden_dim hp) (length (eis ! l)) (S l) (R l)
          (mk_gnn nets i ((default_args (eis ! l) hp)\<lparr>update_edges := False\<rparr>))"
    if "l < length eis" for i l
    using inet_contract_gnn_ok [OF assms(1),
        of "(default_args (eis ! l) hp)\<lparr>update_edges := False\<rparr>" "S l" "R l" i]
      edges_fit_nth [OF assms(2) that]
    by simp
  then show ?thesis by (simp add: family_ok_def)
qed

lemma call_nodes_forward:
  assumes "forward g s r e = Inr (r', e')"
  shows "call_nodes g s r e = Inr (r', [gnn_id g])"
  using assms by (simp add: call_nodes_def call_def bindT_Inr returnT_def)

text \<open>
  The read-out loop ends on level 0: what it leaves there is what the read-out net of
  level 0 returns on the final level 1 as senders and on the level 0 it was given as
  receivers.
\<close>

lemma mesh_read_out_bottom:
  assumes "shapes B d Ns levels" "shapes B d Md down"
    and "list_all (\<lambda>(l, g). 1 \<le> l \<and> l + 1 < length Ns \<and> l < length Md
                       \<and> gnn_ok d (Md ! l) (Ns ! (l + 1)) (Ns ! l) g) pre"
    and "1 < length Ns" "0 < length Md" "gnn_ok d (Md ! 0) (Ns ! 1) (Ns ! 0) g0"
  shows "\<exists>levels' e.
           mesh_read_out (pre @ [(0, g0)]) levels down
             = Inr (levels', map (\<lambda>(l, g). gnn_id g) pre @ [gnn_id g0])
           \<and> shapes B d Ns levels'
           \<and> forward g0 (levels' ! 1) (levels ! 0) (down ! 0) = Inr (levels' ! 0, e)"
  using assms(1,3)
proof (induction pre arbitrary: levels)
  case Nil
  note len = shapes_length [OF Nil.prems(1)] shapes_length [OF assms(2)]
  have s: "has_shape B (Ns ! 1) d (levels ! 1)" and r: "has_shape B (Ns ! 0) d (levels ! 0)"
    and e: "has_shape B (Md ! 0) d (down ! 0)"
  proof -
    from assms(4) have "0 < length Ns" by linarith
    then show "has_shape B (Ns ! 0) d (levels ! 0)" by (rule shapes_nth [OF Nil.prems(1)])
    show "has_shape B (Ns ! 1) d (levels ! 1)" by (rule shapes_nth [OF Nil.prems(1) assms(4)])
    show "has_shape B (Md ! 0) d (down ! 0)" by (rule shapes_nth [OF assms(2) assms(5)])
  qed
  from assms(6) [unfolded gnn_ok_def, rule_format, of B "levels ! 1" "levels ! 0" "down ! 0"]
    s r e
  obtain r' e' where
    f: "forward g0 (levels ! 1) (levels ! 0) (down ! 0) = Inr (r', e')"
    and r': "has_shape B (Ns ! 0) d r'"
    by blast
  have "mesh_read_out ([] @ [(0, g0)]) levels down
          = Inr (levels[0 := r'], map (\<lambda>(l, g). gnn_id g) [] @ [gnn_id g0])"
  proof -
    have pos: "0 < length levels" "Suc 0 < length levels" "0 < length down"
      using len assms(4,5) by linarith+
    show ?thesis
      using pos call_nodes_forward [OF f] by (simp add: bindT_Inr returnT_def)
  qed
  moreover have "shapes B d Ns (levels[0 := r'])"
    by (rule shapes_update [OF Nil.prems(1) r'])
  moreover have "forward g0 (levels[0 := r'] ! 1) (levels ! 0) (down ! 0)
                   = Inr (levels[0 := r'] ! 0, e')"
  proof -
    have "0 < length levels" "Suc 0 < length levels" using len assms(4) by linarith+
    then show ?thesis using f by simp
  qed
  ultimately show ?case by blast
next
  case (Cons p pre)
  obtain l g where p: "p = (l, g)" by (cases p)
  from Cons.prems p have l: "1 \<le> l" "l + 1 < length Ns" "l < length Md"
    and g: "gnn_ok d (Md ! l) (Ns ! (l + 1)) (Ns ! l) g"
    and rest: "list_all (\<lambda>(l, g). 1 \<le> l \<and> l + 1 < length Ns \<and> l < length Md
                       \<and> gnn_ok d (Md ! l) (Ns ! (l + 1)) (Ns ! l) g) pre"
    by simp_all
  note len = shapes_length [OF Cons.prems(1)] shapes_length [OF assms(2)]
  have s: "has_shape B (Ns ! (l + 1)) d (levels ! (l + 1))"
    and r: "has_shape B (Ns ! l) d (levels ! l)"
    and e: "has_shape B (Md ! l) d (down ! l)"
    using l Cons.prems(1) assms(2) by (simp_all add: shapes_nth)
  from call_nodes_ok [OF g s r e] obtain r' where
    c: "call_nodes g (levels ! (l + 1)) (levels ! l) (down ! l) = Inr (r', [gnn_id g])"
    and r': "has_shape B (Ns ! l) d r'"
    by blast
  from Cons.IH [OF shapes_update [OF Cons.prems(1) r'] rest]
  obtain levels' e' where
    ih: "mesh_read_out (pre @ [(0, g0)]) (levels[l := r']) down
           = Inr (levels', map (\<lambda>(l, g). gnn_id g) pre @ [gnn_id g0])"
    and sh: "shapes B d Ns levels'"
    and f: "forward g0 (levels' ! 1) (levels[l := r'] ! 0) (down ! 0) = Inr (levels' ! 0, e')"
    by blast
  have "mesh_read_out ((p # pre) @ [(0, g0)]) levels down
          = Inr (levels', map (\<lambda>(l, g). gnn_id g) (p # pre) @ [gnn_id g0])"
    using l len c ih by (simp add: p bindT_Inr)
  moreover have "forward g0 (levels' ! 1) (levels ! 0) (down ! 0) = Inr (levels' ! 0, e')"
    using f l by simp
  ultimately show ?case using sh by blast
qed

section \<open>The stages of \<open>process_step\<close>\<close>

lemma process_step_stages:
  assumes wf: "wf_hi_graph g"
    and mlp: "mlp_contract nets" and inet: "inet_contract nets"
    and init: "BaseHiGraphModel_init nets hp g = Inr m"
    and hi: "hi_step_contract hi_processor_step B (hidden_dim hp) (N_mesh_levels m)
               (map length (m2m_edge_index g)) (map length (mesh_up_edge_index g))
               (map length (mesh_down_edge_index g))"
    and rep: "has_shape B (N_mesh_levels m ! 0) (hidden_dim hp) mesh_rep"
  shows "\<exists>higher same up down levels1 up1 levels2 same2 up2 down2 tr_hi levels3 e.
           embed_all (zip (drop 1 (mesh_embedders m)) (drop 1 (mesh_static_features g))) B
             = Inr higher
           \<and> embed_all (zip (mesh_same_embedders m) (m2m_features g)) B = Inr same
           \<and> embed_all (zip (mesh_up_embedders m) (mesh_up_features g)) B = Inr up
           \<and> embed_all (zip (mesh_down_embedders m) (mesh_down_features g)) B = Inr down
           \<and> mesh_init (enumerate_from 1 (mesh_init_gnns m)) (mesh_rep # higher) up
               = Inr ((levels1, up1), map MeshInitGnn [0..<N_levels m - 1])
           \<and> hi_processor_step levels1 same up1 down
               = Inr ((levels2, same2, up2, down2), tr_hi)
           \<and> mesh_read_out (zip (levels_down (N_levels m)) (rev (mesh_read_gnns m)))
                 levels2 down2
               = Inr (levels3, map MeshReadGnn (rev [0..<N_levels m - 1]))
           \<and> forward (mesh_read_gnns m ! 0) (levels3 ! 1) (levels2 ! 0) (down2 ! 0)
               = Inr (levels3 ! 0, e)
           \<and> process_step hi_processor_step m mesh_rep
               = Inr (levels3 ! 0,
                      map MeshInitGnn [0..<N_levels m - 1] @ tr_hi
                        @ map MeshReadGnn (rev [0..<N_levels m - 1]))
           \<and> has_shape B (N_mesh_levels m ! 0) (hidden_dim hp) (levels3 ! 0)"
proof -
  note b = BaseHiGraphModel_init_fields [OF init]
  let ?L = "length (mesh_static_features g)"
  let ?d = "hidden_dim hp"
  let ?Ns = "map rows2 (mesh_static_features g)"
  let ?Ms = "map length (m2m_edge_index g)"
  let ?Mu = "map length (mesh_up_edge_index g)"
  let ?Md = "map length (mesh_down_edge_index g)"
  from wf have L: "2 \<le> ?L" "length (m2m_features g) = ?L"
    "length (mesh_up_features g) = ?L - 1" "length (mesh_down_features g) = ?L - 1"
    and sc: "same_cols (mesh_static_features g)" "same_cols (m2m_features g)"
      "same_cols (mesh_up_features g)" "same_cols (mesh_down_features g)"
    and rows: "?Ms = map rows2 (m2m_features g)" "?Mu = map rows2 (mesh_up_features g)"
      "?Md = map rows2 (mesh_down_features g)"
    and fit: "graph_fits g ?Ns"
    by (simp_all add: wf_hi_graph_def Let_def)
  from fit have fits:
    "edges_fit (m2m_edge_index g) (\<lambda>l. ?Ns ! l) (\<lambda>l. ?Ns ! l)"
    "edges_fit (mesh_up_edge_index g) (\<lambda>l. ?Ns ! l) (\<lambda>l. ?Ns ! (l + 1))"
    "edges_fit (mesh_down_edge_index g) (\<lambda>l. ?Ns ! (l + 1)) (\<lambda>l. ?Ns ! l)"
    by (simp_all add: graph_fits_def)
  have ne: "mesh_static_features g \<noteq> []" "m2m_features g \<noteq> []"
    "mesh_up_features g \<noteq> []" "mesh_down_features g \<noteq> []"
    using L by auto
  have lens: "length ?Ns = ?L" "length ?Ms = ?L" "length ?Mu = ?L - 1" "length ?Md = ?L - 1"
    using L rows by simp_all
  have hd0: "m2m_features g ! 0 = hd (m2m_features g)"
    "mesh_up_features g ! 0 = hd (mesh_up_features g)"
    "mesh_down_features g ! 0 = hd (mesh_down_features g)"
    using ne by (simp_all add: hd_conv_nth)
  \<comment> \<open>the embeddings\<close>
  have le1: "list_all2 (\<lambda>emb f. wf2 f \<and> mlp_ok (cols2 f) ?d emb)
               (drop 1 (mesh_embedders m)) (drop 1 (mesh_static_features g))"
    unfolding b(4) by (rule higher_embedders_ok [OF mlp sc(1) ne(1)])
  have le2: "list_all2 (\<lambda>emb f. wf2 f \<and> mlp_ok (cols2 f) ?d emb)
               (mesh_same_embedders m) (m2m_features g)"
    unfolding b(5) hd0 by (rule embedders_ok [OF mlp sc(2)]) (simp add: L)
  have le3: "list_all2 (\<lambda>emb f. wf2 f \<and> mlp_ok (cols2 f) ?d emb)
               (mesh_up_embedders m) (mesh_up_features g)"
    unfolding b(6) hd0 by (rule embedders_ok [OF mlp sc(3)]) (simp add: L)
  have le4: "list_all2 (\<lambda>emb f. wf2 f \<and> mlp_ok (cols2 f) ?d emb)
               (mesh_down_embedders m) (mesh_down_features g)"
    unfolding b(7) hd0 by (rule embedders_ok [OF mlp sc(4)]) (simp add: L)
  from embed_all_ok [OF le1, of B] obtain higher where
    e1: "embed_all (zip (drop 1 (mesh_embedders m)) (drop 1 (mesh_static_features g))) B
           = Inr higher"
    and h1: "shapes B ?d (map rows2 (drop 1 (mesh_static_features g))) higher"
    by blast
  from embed_all_ok [OF le2, of B] obtain same where
    e2: "embed_all (zip (mesh_same_embedders m) (m2m_features g)) B = Inr same"
    and h2: "shapes B ?d ?Ms same"
    unfolding rows by blast
  from embed_all_ok [OF le3, of B] obtain up where
    e3: "embed_all (zip (mesh_up_embedders m) (mesh_up_features g)) B = Inr up"
    and h3: "shapes B ?d ?Mu up"
    unfolding rows by blast
  from embed_all_ok [OF le4, of B] obtain down where
    e4: "embed_all (zip (mesh_down_embedders m) (mesh_down_features g)) B = Inr down"
    and h4: "shapes B ?d ?Md down"
    unfolding rows by blast
  have Ns: "?Ns = (?Ns ! 0) # map rows2 (drop 1 (mesh_static_features g))"
    using ne(1) by (cases "mesh_static_features g") simp_all
  have rep': "has_shape B (?Ns ! 0) ?d mesh_rep"
    using rep unfolding b(3) .
  have h0: "shapes B ?d ?Ns (mesh_rep # higher)"
    using rep' h1 by (subst Ns) simp
  \<comment> \<open>mesh init\<close>
  have fi: "family_ok ?d ?Mu (\<lambda>l. ?Ns ! l) (\<lambda>l. ?Ns ! (l + 1)) MeshInitGnn (mesh_init_gnns m)"
    unfolding b(8) by (rule make_gnns_family [OF inet fits(2)])
  have li: "length (mesh_init_gnns m) = ?L - 1"
    using fi lens by (simp add: family_ok_def)
  let ?ip = "map (\<lambda>l. (l, mesh_init_gnns m ! (l - 1))) [1..<?L]"
  have ip: "enumerate_from 1 (mesh_init_gnns m) = ?ip"
    using li by (rule init_pairs)
  have iok: "list_all (\<lambda>(l, g). 1 \<le> l \<and> l < length ?Ns \<and> l - 1 < length ?Mu
                         \<and> gnn_ok ?d (?Mu ! (l - 1)) (?Ns ! (l - 1)) (?Ns ! l) g) ?ip"
  proof -
    have u: "gnn_ok ?d (?Mu ! (x - 1)) (?Ns ! (x - 1)) (?Ns ! x) (mesh_init_gnns m ! (x - 1))"
      if "1 \<le> x" "x < ?L" for x
    proof -
      from that have a: "x - 1 < length ?Mu" and c: "x - 1 + 1 = x" using lens by simp_all
      from fi a
      have "gnn_ok ?d (?Mu ! (x - 1)) (?Ns ! (x - 1)) (?Ns ! (x - 1 + 1))
              (mesh_init_gnns m ! (x - 1))"
        unfolding family_ok_def by blast
      then show ?thesis unfolding c .
    qed
    have r: "x - 1 < ?L - 1" if "1 \<le> x" "x < ?L" for x using that by arith
    have lm: "length ?Ns = ?L" "length ?Mu = ?L - 1" using lens by simp_all
    show ?thesis unfolding list_all_iff lm using u r by auto
  qed
  from mesh_init_ok [OF h0 h3 iok] obtain levels1 up1 where
    i1: "mesh_init ?ip (mesh_rep # higher) up
           = Inr ((levels1, up1), map (\<lambda>(l, g). gnn_id g) ?ip)"
    and s1: "shapes B ?d ?Ns levels1" "shapes B ?d ?Mu up1"
    by blast
  have itr: "map (\<lambda>(l, g). gnn_id g) ?ip = map MeshInitGnn [0..<?L - 1]"
  proof (rule nth_equalityI)
    show "length (map (\<lambda>(l, g). gnn_id g) ?ip) = length (map MeshInitGnn [0..<?L - 1])"
      by simp
  next
    fix i assume "i < length (map (\<lambda>(l, g). gnn_id g) ?ip)"
    then have i: "i < ?L - 1" by simp
    then have "gnn_id (mesh_init_gnns m ! i) = MeshInitGnn i"
      using fi lens by (simp add: family_ok_def)
    with i show "map (\<lambda>(l, g). gnn_id g) ?ip ! i = map MeshInitGnn [0..<?L - 1] ! i"
      by (simp del: upt_Suc)
  qed
  \<comment> \<open>the processor\<close>
  from hi [unfolded hi_step_contract_def b(3), rule_format, of levels1 same up1 down]
    s1 h2 h4
  obtain levels2 same2 up2 down2 tr_hi where
    p: "hi_processor_step levels1 same up1 down = Inr ((levels2, same2, up2, down2), tr_hi)"
    and s2: "shapes B ?d ?Ns levels2" "shapes B ?d ?Md down2"
    by blast
  \<comment> \<open>mesh read out\<close>
  have fr: "family_ok ?d ?Md (\<lambda>l. ?Ns ! (l + 1)) (\<lambda>l. ?Ns ! l) MeshReadGnn
              (mesh_read_gnns m)"
    unfolding b(9) by (rule read_gnns_family [OF inet fits(3)])
  have lr: "length (mesh_read_gnns m) = ?L - 1"
    using fr lens by (simp add: family_ok_def)
  let ?rp = "map (\<lambda>l. (l, mesh_read_gnns m ! l)) (rev [0..<?L - 1])"
  have rp: "zip (levels_down ?L) (rev (mesh_read_gnns m)) = ?rp"
    using lr by (rule read_pairs)
  let ?pre = "map (\<lambda>l. (l, mesh_read_gnns m ! l)) (rev [1..<?L - 1])"
  have L1: "0 < ?L - 1" using L by linarith
  have "rev [0..<?L - 1] = rev [1..<?L - 1] @ [0]"
    using upt_conv_Cons [OF L1] by simp
  then have split: "?rp = ?pre @ [(0, mesh_read_gnns m ! 0)]"
    by simp
  have gr: "gnn_ok ?d (?Md ! x) (?Ns ! (x + 1)) (?Ns ! x) (mesh_read_gnns m ! x)"
    and ir: "gnn_id (mesh_read_gnns m ! x) = MeshReadGnn x"
    if "x < ?L - 1" for x
    using fr that lens unfolding family_ok_def by simp_all
  have lm: "length ?Ns = ?L" "length ?Md = ?L - 1" using lens by simp_all
  have rok: "list_all (\<lambda>(l, g). 1 \<le> l \<and> l + 1 < length ?Ns \<and> l < length ?Md
                         \<and> gnn_ok ?d (?Md ! l) (?Ns ! (l + 1)) (?Ns ! l) g) ?pre"
    unfolding list_all_iff lm using gr by auto
  have one: "1 < length ?Ns" "0 < length ?Md" using L lens by simp_all
  have gr0: "gnn_ok ?d (?Md ! 0) (?Ns ! 1) (?Ns ! 0) (mesh_read_gnns m ! 0)"
    using gr [OF L1] by simp
  from mesh_read_out_bottom [OF s2 rok one gr0] obtain levels3 e where
    r: "mesh_read_out ?rp levels2 down2
          = Inr (levels3, map (\<lambda>(l, g). gnn_id g) ?pre @ [gnn_id (mesh_read_gnns m ! 0)])"
    and s3: "shapes B ?d ?Ns levels3"
    and f0: "forward (mesh_read_gnns m ! 0) (levels3 ! 1) (levels2 ! 0) (down2 ! 0)
               = Inr (levels3 ! 0, e)"
    unfolding split by blast
  have "map (\<lambda>(l, g). gnn_id g) ?rp = map MeshReadGnn (rev [0..<?L - 1])"
    using ir by simp
  then have rtr: "map (\<lambda>(l, g). gnn_id g) ?pre @ [gnn_id (mesh_read_gnns m ! 0)]
                    = map MeshReadGnn (rev [0..<?L - 1])"
    unfolding split by simp
  have dB: "dimB mesh_rep = B" using rep by (simp add: has_shape_def)
  have pos: "0 < length ?Ns" using lens L by linarith
  have out: "has_shape B (?Ns ! 0) ?d (levels3 ! 0)"
    by (rule shapes_nth [OF s3 pos])
  have out_len: "0 < length levels3"
    using shapes_length [OF s3] pos by simp
  have ps: "process_step hi_processor_step m mesh_rep
          = Inr (levels3 ! 0, map MeshInitGnn [0..<?L - 1] @ tr_hi
                              @ map MeshReadGnn (rev [0..<?L - 1]))"
    using e1 e2 e3 e4 ip i1 [unfolded itr] p rp r [unfolded rtr] out_len dB
    by (simp add: process_step_def Let_def b(1,2) bindT_Inr)
  have i1': "mesh_init (enumerate_from 1 (mesh_init_gnns m)) (mesh_rep # higher) up
               = Inr ((levels1, up1), map MeshInitGnn [0..<N_levels m - 1])"
    using i1 unfolding itr ip b(2) .
  have r': "mesh_read_out (zip (levels_down (N_levels m)) (rev (mesh_read_gnns m)))
              levels2 down2
            = Inr (levels3, map MeshReadGnn (rev [0..<N_levels m - 1]))"
    using r unfolding rtr rp b(2) .
  have ps': "process_step hi_processor_step m mesh_rep
          = Inr (levels3 ! 0, map MeshInitGnn [0..<N_levels m - 1] @ tr_hi
                              @ map MeshReadGnn (rev [0..<N_levels m - 1]))"
    using ps unfolding b(2) .
  have out': "has_shape B (N_mesh_levels m ! 0) ?d (levels3 ! 0)"
    using out unfolding b(3) .
  from e1 e2 e3 e4 i1' p r' f0 ps' out' show ?thesis by blast
qed

text \<open>
  C2. A hierarchical model built by \<open>BaseHiGraphModel.__init__\<close> on a well-formed
  graph of \<open>L \<ge> 2\<close> levels, with sub-networks that keep their contracts on the node
  counts they are built for and a \<open>hi_processor_step\<close> that returns lists of the
  shapes it was given: on a \<open>mesh_rep\<close> of shape \<open>(B, N_mesh_levels[0], d_h)\<close>,
  \<open>process_step\<close> returns one tensor, of shape \<open>(B, N_mesh_levels[0], d_h)\<close>, and that
  tensor is entry 0 of the list of levels after the read-out loop. In detail: the
  higher levels and the edges are embedded; the init loop runs on \<open>mesh_rep\<close> followed
  by the embedded higher levels; \<open>hi_processor_step\<close> runs on its result; the read-out
  loop runs on the levels and the down edges that \<open>hi_processor_step\<close> returned and
  gives the list \<open>levels3\<close>; the value returned is \<open>levels3[0]\<close>, which is what the
  read-out net of level 0 returned for the senders \<open>levels3[1]\<close> and the receivers of
  level 0 that \<open>hi_processor_step\<close> left. The entries 1 to \<open>L - 1\<close> of the lists of
  levels are not returned. The nets called are the init nets in ascending order, then
  those of \<open>hi_processor_step\<close>, then the read-out nets in descending order.
\<close>

theorem process_step_bottom_level:
  assumes wf: "wf_hi_graph g"
    and mlp: "mlp_contract nets" and inet: "inet_contract nets"
    and init: "BaseHiGraphModel_init nets hp g = Inr m"
    and hi: "hi_step_contract hi_processor_step B (hidden_dim hp) (N_mesh_levels m)
               (map length (m2m_edge_index g)) (map length (mesh_up_edge_index g))
               (map length (mesh_down_edge_index g))"
    and rep: "has_shape B (N_mesh_levels m ! 0) (hidden_dim hp) mesh_rep"
  shows "\<exists>higher same up down levels1 up1 levels2 same2 up2 down2 tr_hi levels3 e.
           embed_all (zip (drop 1 (mesh_embedders m)) (drop 1 (mesh_static_features g))) B
             = Inr higher
           \<and> embed_all (zip (mesh_same_embedders m) (m2m_features g)) B = Inr same
           \<and> embed_all (zip (mesh_up_embedders m) (mesh_up_features g)) B = Inr up
           \<and> embed_all (zip (mesh_down_embedders m) (mesh_down_features g)) B = Inr down
           \<and> mesh_init (enumerate_from 1 (mesh_init_gnns m)) (mesh_rep # higher) up
               = Inr ((levels1, up1), map MeshInitGnn [0..<N_levels m - 1])
           \<and> hi_processor_step levels1 same up1 down
               = Inr ((levels2, same2, up2, down2), tr_hi)
           \<and> mesh_read_out (zip (levels_down (N_levels m)) (rev (mesh_read_gnns m)))
                 levels2 down2
               = Inr (levels3, map MeshReadGnn (rev [0..<N_levels m - 1]))
           \<and> forward (mesh_read_gnns m ! 0) (levels3 ! 1) (levels2 ! 0) (down2 ! 0)
               = Inr (levels3 ! 0, e)
           \<and> process_step hi_processor_step m mesh_rep
               = Inr (levels3 ! 0,
                      map MeshInitGnn [0..<N_levels m - 1] @ tr_hi
                        @ map MeshReadGnn (rev [0..<N_levels m - 1]))
           \<and> has_shape B (N_mesh_levels m ! 0) (hidden_dim hp) (levels3 ! 0)"
  using process_step_stages [OF wf mlp inet init hi rep] .

section \<open>Both processors keep the contract of \<open>hi_processor_step\<close>\<close>

lemma wf_hi_graph_counts:
  assumes "wf_hi_graph g"
  shows "length (m2m_edge_index g) = length (mesh_static_features g)"
    "length (mesh_up_edge_index g) = length (mesh_static_features g) - 1"
    "length (mesh_down_edge_index g) = length (mesh_static_features g) - 1"
    "1 \<le> length (mesh_static_features g)"
proof -
  from assms have L: "2 \<le> length (mesh_static_features g)"
    "length (m2m_features g) = length (mesh_static_features g)"
    "length (mesh_up_features g) = length (mesh_static_features g) - 1"
    "length (mesh_down_features g) = length (mesh_static_features g) - 1"
    and rows: "map length (m2m_edge_index g) = map rows2 (m2m_features g)"
      "map length (mesh_up_edge_index g) = map rows2 (mesh_up_features g)"
      "map length (mesh_down_edge_index g) = map rows2 (mesh_down_features g)"
    by (simp_all add: wf_hi_graph_def Let_def)
  show "length (m2m_edge_index g) = length (mesh_static_features g)"
    using map_eq_imp_length_eq [OF rows(1)] L by simp
  show "length (mesh_up_edge_index g) = length (mesh_static_features g) - 1"
    using map_eq_imp_length_eq [OF rows(2)] L by simp
  show "length (mesh_down_edge_index g) = length (mesh_static_features g) - 1"
    using map_eq_imp_length_eq [OF rows(3)] L by simp
  show "1 \<le> length (mesh_static_features g)" using L by linarith
qed

lemma hilam_hi_step_contract:
  fixes m :: "'a hilam"
  assumes init: "HiLAM_init nets hp g = Inr m" and inet: "inet_contract nets"
    and wf: "wf_hi_graph g"
  shows "hi_step_contract (hi_processor_step_seq m) B (hidden_dim hp)
           (N_mesh_levels (seq_base m))
           (map length (m2m_edge_index g)) (map length (mesh_up_edge_index g))
           (map length (mesh_down_edge_index g))"
  unfolding hi_step_contract_def
proof (intro allI impI)
  fix levels same up down :: "'a tensor3 list"
  note b = BaseHiGraphModel_init_fields [OF HiLAM_init_fields(1) [OF init]]
  note c = wf_hi_graph_counts [OF wf]
  assume "shapes B (hidden_dim hp) (N_mesh_levels (seq_base m)) levels
          \<and> shapes B (hidden_dim hp) (map length (m2m_edge_index g)) same
          \<and> shapes B (hidden_dim hp) (map length (mesh_up_edge_index g)) up
          \<and> shapes B (hidden_dim hp) (map length (mesh_down_edge_index g)) down"
  then have sh: "shapes B (hidden_dim hp) (N_mesh_levels (seq_base m)) levels"
    "shapes B (hidden_dim hp) (map length (m2m_edge_index g)) same"
    "shapes B (hidden_dim hp) (map length (mesh_up_edge_index g)) up"
    "shapes B (hidden_dim hp) (map length (mesh_down_edge_index g)) down"
    by simp_all
  have n: "length (N_mesh_levels (seq_base m)) = length (mesh_static_features g)"
    by (simp add: b(3))
  have fit: "graph_fits g (N_mesh_levels (seq_base m))"
    using wf by (simp add: wf_hi_graph_def Let_def b(3))
  from hilam_step_ok [OF init inet fit refl c n sh]
  show "\<exists>levels' same' up' down' tr.
          hi_processor_step_seq m levels same up down = Inr ((levels', same', up', down'), tr)
          \<and> shapes B (hidden_dim hp) (N_mesh_levels (seq_base m)) levels'
          \<and> shapes B (hidden_dim hp) (map length (mesh_down_edge_index g)) down'"
    by blast
qed

lemma sequential_ok:
  assumes "list_all (gnn_ok d M N N) gs" "has_shape B N d mr" "has_shape B M d er"
  shows "\<exists>mr' er'. sequential gs mr er = Inr ((mr', er'), map gnn_id gs)
           \<and> has_shape B N d mr' \<and> has_shape B M d er'"
  using assms
proof (induction gs arbitrary: mr er)
  case Nil
  then show ?case by (simp add: returnT_def)
next
  case (Cons g gs)
  then have g: "gnn_ok d M N N g" and gs: "list_all (gnn_ok d M N N) gs" by simp_all
  from call_ok [OF g Cons.prems(2) Cons.prems(2) Cons.prems(3)] obtain r' e' where
    c: "call g mr mr er = Inr ((r', e'), [gnn_id g])"
    and s: "has_shape B N d r'" "has_shape B M d e'"
    by blast
  from Cons.IH [OF gs s] obtain mr' er' where
    ih: "sequential gs r' e' = Inr ((mr', er'), map gnn_id gs)"
    and s': "has_shape B N d mr'" "has_shape B M d er'"
    by blast
  have "sequential (g # gs) mr er = Inr ((mr', er'), map gnn_id (g # gs))"
    using c ih by (simp add: bindT_Inr)
  with s' show ?case by blast
qed

lemma processor_ok:
  assumes init: "HiLAMParallel_init nets hp g = Inr m" and inet: "inet_contract nets"
    and fit: "fits (concat (m2m_edge_index g @ mesh_up_edge_index g @ mesh_down_edge_index g))
                N N"
    and mr: "has_shape B N (hidden_dim hp) mr"
    and er: "has_shape B (sum_list (edge_split_sections m)) (hidden_dim hp) er"
  shows "\<exists>mr' er' tr. processor m mr er = Inr ((mr', er'), tr)
           \<and> has_shape B N (hidden_dim hp) mr'
           \<and> has_shape B (sum_list (edge_split_sections m)) (hidden_dim hp) er'"
proof (cases "processor_layers hp = 0")
  case True
  from HiLAMParallel_init_fields(3) [OF init True] mr er show ?thesis
    by (simp add: returnT_def)
next
  case False
  note f = HiLAMParallel_init_fields [OF init]
  let ?ei = "concat (m2m_edge_index g @ mesh_up_edge_index g @ mesh_down_edge_index g)"
  let ?args = "(default_args ?ei hp)
                 \<lparr>edge_chunk_sizes :=
                    Some (map length (m2m_edge_index g @ mesh_up_edge_index g
                                        @ mesh_down_edge_index g)),
                  aggr_chunk_sizes := Some (N_mesh_levels (par_base m))\<rparr>"
  let ?gs = "map (\<lambda>k. mk_gnn nets (ProcessorNet k) ?args) [0..<processor_layers hp]"
  have M: "length ?ei = sum_list (edge_split_sections m)"
    by (simp add: f(2) length_concat)
  have "gnn_ok (hidden_dim hp) (length ?ei) N N (mk_gnn nets i ?args)" for i
    using inet_contract_gnn_ok [OF inet, of ?args N N i] fit by simp
  then have "list_all (gnn_ok (hidden_dim hp) (sum_list (edge_split_sections m)) N N) ?gs"
    unfolding M by (simp add: list_all_iff)
  from sequential_ok [OF this mr er] show ?thesis
    unfolding f(4) [OF False] by blast
qed

lemma parallel_hi_step_contract:
  fixes m :: "'a hilam_parallel"
  assumes init: "HiLAMParallel_init nets hp g = Inr m" and inet: "inet_contract nets"
    and wf: "wf_hi_graph g"
    and fit: "fits (concat (m2m_edge_index g @ mesh_up_edge_index g @ mesh_down_edge_index g))
                (sum_list (N_mesh_levels (par_base m))) (sum_list (N_mesh_levels (par_base m)))"
  shows "hi_step_contract (hi_processor_step_parallel m) B (hidden_dim hp)
           (N_mesh_levels (par_base m))
           (map length (m2m_edge_index g)) (map length (mesh_up_edge_index g))
           (map length (mesh_down_edge_index g))"
  unfolding hi_step_contract_def
proof (intro allI impI)
  fix levels same up down :: "'a tensor3 list"
  note f = HiLAMParallel_init_fields [OF init]
  note b = BaseHiGraphModel_init_fields [OF f(1)]
  note c = wf_hi_graph_counts [OF wf]
  let ?d = "hidden_dim hp"
  let ?n = "N_levels (par_base m)"
  let ?Ns = "N_mesh_levels (par_base m)"
  let ?Ms = "map length (m2m_edge_index g)"
  let ?Mu = "map length (mesh_up_edge_index g)"
  let ?Md = "map length (mesh_down_edge_index g)"
  assume "shapes B ?d ?Ns levels \<and> shapes B ?d ?Ms same \<and> shapes B ?d ?Mu up
          \<and> shapes B ?d ?Md down"
  then have sh: "shapes B ?d ?Ns levels" "shapes B ?d ?Ms same" "shapes B ?d ?Mu up"
    "shapes B ?d ?Md down"
    by simp_all
  have n: "?n = length (mesh_static_features g)" "length ?Ns = ?n" "1 \<le> ?n"
    using c by (simp_all add: b)
  note len = shapes_length [OF sh(1)] shapes_length [OF sh(2)]
  have ne: "levels \<noteq> []" "same @ up @ down \<noteq> []"
    using len n c by auto
  have esh: "shapes B ?d (edge_split_sections m) (same @ up @ down)"
    unfolding f(2) by (intro shapes_append sh)
  note c1 = cat_nodes_shape [OF ne(1) sh(1)]
  note c2 = cat_nodes_shape [OF ne(2) esh]
  from processor_ok [OF init inet fit c1(2) c2(2)] obtain mr' er' tr where
    run: "processor m (Tensor3 B (sum_list ?Ns) ?d (join_nodes B (map vals levels)))
            (Tensor3 B (sum_list (edge_split_sections m)) ?d
               (join_nodes B (map vals (same @ up @ down))))
            = Inr ((mr', er'), tr)"
    and s: "has_shape B (sum_list ?Ns) ?d mr'"
      "has_shape B (sum_list (edge_split_sections m)) ?d er'"
    by blast
  from split_nodes_shapes [OF s(1)] obtain levels' where
    sp1: "split_nodes mr' ?Ns = Inr levels'" and l': "shapes B ?d ?Ns levels'"
    by blast
  from split_nodes_shapes [OF s(2)] obtain secs where
    sp2: "split_nodes er' (edge_split_sections m) = Inr secs"
    and secs: "shapes B ?d (edge_split_sections m) secs"
    by blast
  have "drop (?n + (?n - 1)) (edge_split_sections m) = ?Md"
    using c n by (simp add: f(2))
  with shapes_drop [OF secs, of "?n + (?n - 1)"]
  have d': "shapes B ?d ?Md (drop (?n + (?n - 1)) secs)" by simp
  have "hi_processor_step_parallel m levels same up down
          = Inr ((levels', take ?n secs, take (?n - 1) (drop ?n secs),
                  drop (?n + (?n - 1)) secs), tr)"
    using c1(1) c2(1) run sp1 sp2
    by (simp add: hi_processor_step_parallel_def Let_def bindT_Inr returnT_def)
  with l' d'
  show "\<exists>levels' same' up' down' tr.
          hi_processor_step_parallel m levels same up down
            = Inr ((levels', same', up', down'), tr)
          \<and> shapes B ?d ?Ns levels' \<and> shapes B ?d ?Md down'"
    by blast
qed

lemma toy_process_step_value:
  "bind (HiLAM_init toy_nets (toy_hp 1) toy_graph)
     (\<lambda>m. process_step (hi_processor_step_seq m) (seq_base m)
            (Tensor3 1 3 2 [[[1, 1], [2, 2], [3, 3]]]))
   = Inr (Tensor3 1 3 2 [[[5, 5], [6, 6], [7 :: int, 7]]],
          [MeshInitGnn 0, MeshDownSameGnn 0 1, MeshDownGnn 0 0, MeshDownSameGnn 0 0,
           MeshUpSameGnn 0 0, MeshUpGnn 0 0, MeshUpSameGnn 0 1, MeshReadGnn 0])"
  by code_simp

theorem process_step_bottom_level_witness:
  "\<exists>m levels2 down2 levels3 e.
     HiLAM_init toy_nets (toy_hp 1) toy_graph = Inr m
     \<and> N_mesh_levels (seq_base m) = [3, 2]
     \<and> process_step (hi_processor_step_seq m) (seq_base m)
          (Tensor3 1 3 2 [[[1, 1], [2, 2], [3, 3]]])
         = Inr (Tensor3 1 3 2 [[[5, 5], [6, 6], [7, 7]]],
                [MeshInitGnn 0, MeshDownSameGnn 0 1, MeshDownGnn 0 0, MeshDownSameGnn 0 0,
                 MeshUpSameGnn 0 0, MeshUpGnn 0 0, MeshUpSameGnn 0 1, MeshReadGnn 0])
     \<and> forward (mesh_read_gnns (seq_base m) ! 0) (levels3 ! 1) (levels2 ! 0) (down2 ! 0)
         = Inr (Tensor3 1 3 2 [[[5, 5], [6, 6], [7 :: int, 7]]], e)"
proof -
  let ?x = "Tensor3 1 3 2 [[[1, 1], [2, 2], [3, 3]]] :: int tensor3"
  let ?y = "Tensor3 1 3 2 [[[5, 5], [6, 6], [7, 7]]] :: int tensor3"
  obtain m :: "int hilam" where m: "HiLAM_init toy_nets (toy_hp 1) toy_graph = Inr m"
    using HiLAM_init_ok [OF toy_graph_wf] by blast
  note bi = HiLAM_init_fields(1) [OF m]
  note b = BaseHiGraphModel_init_fields [OF bi]
  have n: "N_mesh_levels (seq_base m) = [3, 2]"
    by (simp add: b toy_graph_def)
  have rep: "has_shape 1 (N_mesh_levels (seq_base m) ! 0) (hidden_dim (toy_hp 1)) ?x"
    by (simp add: n has_shape_def wf3_def)
  from toy_process_step_value m
  have v: "process_step (hi_processor_step_seq m) (seq_base m) ?x
             = Inr (?y, [MeshInitGnn 0, MeshDownSameGnn 0 1, MeshDownGnn 0 0,
                         MeshDownSameGnn 0 0, MeshUpSameGnn 0 0, MeshUpGnn 0 0,
                         MeshUpSameGnn 0 1, MeshReadGnn 0])"
    by simp
  from process_step_bottom_level [OF toy_graph_wf toy_mlp toy_inet bi
      hilam_hi_step_contract [OF m toy_inet toy_graph_wf] rep]
  obtain levels2 down2 levels3 e tr where
    f: "forward (mesh_read_gnns (seq_base m) ! 0) (levels3 ! 1) (levels2 ! 0) (down2 ! 0)
          = Inr (levels3 ! 0, e)"
    and p: "process_step (hi_processor_step_seq m) (seq_base m) ?x = Inr (levels3 ! 0, tr)"
    by blast
  from p v have "levels3 ! 0 = ?y" by simp
  with f have "forward (mesh_read_gnns (seq_base m) ! 0) (levels3 ! 1) (levels2 ! 0) (down2 ! 0)
                 = Inr (?y, e)"
    by simp
  with m n v show ?thesis by blast
qed

section \<open>Concatenation of features and broadcasting\<close>

lemma map2_append_rows:
  assumes "length s = N" "list_all (\<lambda>r. length r = a) s"
    and "length s' = N" "list_all (\<lambda>r. length r = b) s'"
  shows "length (map2 (@) s s') = N \<and> list_all (\<lambda>r. length r = a + b) (map2 (@) s s')"
  using assms by (simp add: list_all_length)

lemma wf_join_feats:
  assumes "list_all (\<lambda>t. wf3 t \<and> dimB t = B \<and> dimN t = N) ts"
  shows "length (join_feats B N (map vals ts)) = B
         \<and> list_all (\<lambda>s. length s = N \<and> list_all (\<lambda>r. length r = sum_list (map dimF ts)) s)
              (join_feats B N (map vals ts))"
  using assms
proof (induction ts)
  case Nil
  then show ?case by (simp add: join_feats_def list_all_iff)
next
  case (Cons t ts)
  define P where "P = (\<lambda>F s. length s = N \<and> list_all (\<lambda>r::'a list. length r = F) s)"
  have P_app: "P a s \<Longrightarrow> P b s' \<Longrightarrow> P (a + b) (map2 (@) s s')" for a b s s'
    using map2_append_rows [of s N a s' b] by (simp add: P_def)
  let ?J = "join_feats B N (map vals ts)"
  from Cons have t: "wf3 t" "dimB t = B" "dimN t = N"
    and ih: "length ?J = B" "list_all (P (sum_list (map dimF ts))) ?J"
    by (simp_all add: P_def)
  have tv: "length (vals t) = B" "list_all (P (dimF t)) (vals t)"
    using t by (simp_all add: wf3_def P_def)
  have "list_all (P (dimF t + sum_list (map dimF ts))) (map2 (map2 (@)) (vals t) ?J)"
    using tv ih P_app by (simp add: list_all_length)
  moreover have "join_feats B N (map vals (t # ts)) = map2 (map2 (@)) (vals t) ?J"
    by (simp add: join_feats_def)
  ultimately show ?case
    using tv ih by (simp add: P_def)
qed

lemma cat_last_shape:
  assumes "ts \<noteq> []" and "list_all (\<lambda>t. wf3 t \<and> dimB t = B \<and> dimN t = N) ts"
  shows "\<exists>c. cat_last ts = Inr c \<and> has_shape B N (sum_list (map dimF ts)) c"
proof -
  obtain t rest where tr: "ts = t # rest" using assms(1) by (cases ts) auto
  have same: "list_all (\<lambda>u. dimB u = dimB t \<and> dimN u = dimN t) rest" "dimB t = B" "dimN t = N"
    using assms(2) tr by (auto simp: list_all_iff)
  have "cat_last ts = Inr (Tensor3 B N (sum_list (map dimF ts)) (join_feats B N (map vals ts)))"
    using same tr by (simp add: cat_last_def)
  moreover have "has_shape B N (sum_list (map dimF ts))
                   (Tensor3 B N (sum_list (map dimF ts)) (join_feats B N (map vals ts)))"
    using wf_join_feats [OF assms(2)] by (simp add: has_shape_def wf3_def)
  ultimately show ?thesis by blast
qed

lemma bdim_same [simp]: "bdim a a = Some a"
  by (simp add: bdim_def)

lemma stretch_same [simp]: "length xs = n \<Longrightarrow> stretch n xs = xs"
  by (simp add: stretch_def)

lemma stretch_rows:
  "list_all (\<lambda>r. length r = F) s \<Longrightarrow> map (stretch F) s = s"
  by (induction s) simp_all

lemma stretch3_same:
  assumes "length v = B"
    and "list_all (\<lambda>s. length s = N \<and> list_all (\<lambda>r. length r = F) s) v"
  shows "stretch3 B N F v = v"
proof -
  have "map (\<lambda>s. stretch N (map (stretch F) s)) v = v"
    using assms(2) by (induction v) (simp_all add: stretch_rows)
  with assms(1) show ?thesis by (simp add: stretch3_def)
qed

lemma with_vec_same:
  assumes "has_shape B N F t" and "length v = F"
  shows "with_vec f t v = Inr (Tensor3 B N F (map (map (\<lambda>r. map2 f r v)) (vals t)))"
    and "has_shape B N F (Tensor3 B N F (map (map (\<lambda>r. map2 f r v)) (vals t)))"
proof -
  from assms(1) have t: "dimB t = B" "dimN t = N" "dimF t = F" "length (vals t) = B"
    and rows: "\<And>s r. s \<in> set (vals t) \<Longrightarrow> length s = N"
      "\<And>s r. s \<in> set (vals t) \<Longrightarrow> r \<in> set s \<Longrightarrow> length r = F"
    by (auto simp: has_shape_def wf3_def list_all_iff)
  have "map (map (\<lambda>r. map2 f (stretch F r) (stretch F v))) (vals t)
          = map (map (\<lambda>r. map2 f r v)) (vals t)"
    using rows(2) assms(2) by (intro map_cong refl) simp
  then show "with_vec f t v = Inr (Tensor3 B N F (map (map (\<lambda>r. map2 f r v)) (vals t)))"
    using t assms(2) by (simp add: with_vec_def)
  show "has_shape B N F (Tensor3 B N F (map (map (\<lambda>r. map2 f r v)) (vals t)))"
    using t rows assms(2) by (simp add: has_shape_def wf3_def list_all_iff)
qed

lemma with_tensor_same:
  assumes "has_shape B N F a" and "has_shape B N F b"
  shows "with_tensor f a b = Inr (Tensor3 B N F (map2 (map2 (map2 f)) (vals a) (vals b)))"
    and "has_shape B N F (Tensor3 B N F (map2 (map2 (map2 f)) (vals a) (vals b)))"
proof -
  from assms have a: "dimB a = B" "dimN a = N" "dimF a = F" "length (vals a) = B"
    "list_all (\<lambda>s. length s = N \<and> list_all (\<lambda>r. length r = F) s) (vals a)"
    and b: "dimB b = B" "dimN b = N" "dimF b = F" "length (vals b) = B"
    "list_all (\<lambda>s. length s = N \<and> list_all (\<lambda>r. length r = F) s) (vals b)"
    by (auto simp: has_shape_def wf3_def)
  show "with_tensor f a b = Inr (Tensor3 B N F (map2 (map2 (map2 f)) (vals a) (vals b)))"
    using a b by (simp add: with_tensor_def stretch3_same)
  have "list_all (\<lambda>s. length s = N \<and> list_all (\<lambda>r. length r = F) s)
          (map2 (map2 (map2 f)) (vals a) (vals b))"
    using a(4,5) b(4,5) by (simp add: list_all_length)
  then show "has_shape B N F (Tensor3 B N F (map2 (map2 (map2 f)) (vals a) (vals b)))"
    using a(4) b(4) by (simp add: has_shape_def wf3_def)
qed

section \<open>\<open>predict_step\<close>\<close>









text \<open>
  C1. For a model whose sub-networks keep their contracts on the node counts of its
  graph, and a batch of the documented shapes, \<open>(B, N_grid, d_f)\<close> for the two states,
  \<open>(B, N_grid, d_bs)\<close> for the batch static features and \<open>(B, N_grid, d_fo)\<close> for the
  forcing, every stage of \<open>predict_step\<close> returns and the result is built as follows.
  The concatenation of the two states, the batch static features, the forcing and the
  batch-expanded static grid features is a tensor \<open>grid_features\<close> of \<open>grid_dim\<close>
  features. Embed: the grid embedder maps it to \<open>grid_emb\<close>, the two edge embedders and
  \<open>embedd_mesh_nodes\<close> give \<open>g2m_emb\<close>, \<open>m2g_emb\<close> and \<open>mesh_emb\<close>. Encode: \<open>g2m_gnn\<close>
  sends \<open>grid_emb\<close> to the batch-expanded \<open>mesh_emb\<close> along the batch-expanded
  \<open>g2m_emb\<close> and gives \<open>mesh_rep\<close>; the grid representation is \<open>grid_emb\<close> plus the
  encoding MLP of \<open>grid_emb\<close>. Process: \<open>process_step\<close> maps \<open>mesh_rep\<close> to a new mesh
  representation of the same shape \<open>(B, N_mesh, d_h)\<close>. Decode: \<open>m2g_gnn\<close> sends that to the grid representation along the
  batch-expanded \<open>m2g_emb\<close>. The output map gives \<open>net_output\<close> of shape
  \<open>(B, N_grid, d_f)\<close>, and \<open>predict_step\<close> returns
  \<open>prev_state + (net_output * step_diff_std + step_diff_mean)\<close>, a tensor of the shape
  of \<open>prev_state\<close>.
\<close>

theorem predict_step_residual_shape:
  fixes m :: "('a::{plus,times}) base_graph_model"
  assumes ok: "graph_model_ok m N_grid N_mesh d_f d_bs d_fo d_h"
    and prev: "has_shape B N_grid d_f prev_state"
    and prev_prev: "has_shape B N_grid d_f prev_prev_state"
    and static: "has_shape B N_grid d_bs batch_static_features"
    and forcing: "has_shape B N_grid d_fo forcing"
  shows "\<exists>grid_features grid_emb g2m_emb m2g_emb mesh_emb mesh_rep encoded grid_rep
            mesh_rep' grid_rep' net out.
           cat_last [prev_state, prev_prev_state, batch_static_features, forcing,
                     expand_to_batch (grid_static_features m) B] = Inr grid_features
           \<and> has_shape B N_grid (2 * d_f + cols2 (grid_static_features m) + d_fo + d_bs)
               grid_features
           \<and> grid_embedder m grid_features = Inr grid_emb
           \<and> g2m_embedder m (g2m_features m) = Inr g2m_emb
           \<and> m2g_embedder m (m2g_features m) = Inr m2g_emb
           \<and> embedd_mesh_nodes m = Inr mesh_emb
           \<and> g2m_gnn m grid_emb (expand_to_batch mesh_emb B) (expand_to_batch g2m_emb B)
               = Inr mesh_rep
           \<and> encoding_grid_mlp m grid_emb = Inr encoded
           \<and> with_tensor (+) grid_emb encoded = Inr grid_rep
           \<and> has_shape B N_mesh d_h mesh_rep
           \<and> process_step_method m mesh_rep = Inr mesh_rep'
           \<and> has_shape B N_mesh d_h mesh_rep'
           \<and> m2g_gnn m mesh_rep' grid_rep (expand_to_batch m2g_emb B) = Inr grid_rep'
           \<and> output_map m grid_rep' = Inr net
           \<and> net_output m prev_state prev_prev_state batch_static_features forcing = Inr net
           \<and> has_shape B N_grid d_f net
           \<and> predict_step m prev_state prev_prev_state batch_static_features forcing = Inr out
           \<and> vals out = residual_vals (step_diff_std m) (step_diff_mean m)
                           (vals prev_state) (vals net)
           \<and> has_shape B N_grid d_f out
           \<and> shape3 out = shape3 prev_state"
proof -
  let ?gs = "grid_static_features m"
  let ?grid_dim = "2 * d_f + cols2 ?gs + d_fo + d_bs"
  from ok obtain mesh_emb where
    gs: "wf2 ?gs" "rows2 ?gs = N_grid" and g2m: "wf2 (g2m_features m)"
    and m2g: "wf2 (m2g_features m)"
    and ge: "net3_ok ?grid_dim d_h (grid_embedder m)"
    and g2me: "mlp_ok (cols2 (g2m_features m)) d_h (g2m_embedder m)"
    and m2ge: "mlp_ok (cols2 (m2g_features m)) d_h (m2g_embedder m)"
    and me: "embedd_mesh_nodes m = Inr mesh_emb" "wf2 mesh_emb" "rows2 mesh_emb = N_mesh"
      "cols2 mesh_emb = d_h"
    and g2mg: "gnn_nodes_ok d_h (rows2 (g2m_features m)) N_grid N_mesh (g2m_gnn m)"
    and enc: "net3_ok d_h d_h (encoding_grid_mlp m)"
    and proc: "process_ok N_mesh d_h (process_step_method m)"
    and m2gg: "gnn_nodes_ok d_h (rows2 (m2g_features m)) N_mesh N_grid (m2g_gnn m)"
    and om: "net3_ok d_h d_f (output_map m)"
    and std: "length (step_diff_std m) = d_f" and mean: "length (step_diff_mean m) = d_f"
    unfolding graph_model_ok_def by blast
  have dB: "dimB prev_state = B" using prev by (simp add: has_shape_def)
  let ?ts = "[prev_state, prev_prev_state, batch_static_features, forcing,
              expand_to_batch ?gs B]"
  have egs: "has_shape B N_grid (cols2 ?gs) (expand_to_batch ?gs B)"
    using expand_to_batch_shape [OF gs(1), of B] gs(2) by simp
  have all: "list_all (\<lambda>t. wf3 t \<and> dimB t = B \<and> dimN t = N_grid) ?ts"
    using prev prev_prev static forcing egs by (simp add: has_shape_def)
  have dims: "sum_list (map dimF ?ts) = ?grid_dim"
    using prev prev_prev static forcing egs by (simp add: has_shape_def)
  from cat_last_shape [OF _ all] dims obtain grid_features where
    cat: "cat_last ?ts = Inr grid_features"
    and gf: "has_shape B N_grid ?grid_dim grid_features"
    by auto
  from ge gf obtain grid_emb where
    s1: "grid_embedder m grid_features = Inr grid_emb"
    and h1: "has_shape B N_grid d_h grid_emb"
    unfolding net3_ok_def by blast
  from g2me g2m obtain g2m_emb where
    s2: "g2m_embedder m (g2m_features m) = Inr g2m_emb"
    and h2: "wf2 g2m_emb" "rows2 g2m_emb = rows2 (g2m_features m)" "cols2 g2m_emb = d_h"
    unfolding mlp_ok_def by blast
  from m2ge m2g obtain m2g_emb where
    s3: "m2g_embedder m (m2g_features m) = Inr m2g_emb"
    and h3: "wf2 m2g_emb" "rows2 m2g_emb = rows2 (m2g_features m)" "cols2 m2g_emb = d_h"
    unfolding mlp_ok_def by blast
  have x1: "has_shape B N_mesh d_h (expand_to_batch mesh_emb B)"
    using expand_to_batch_shape [OF me(2), of B] me(3,4) by simp
  have x2: "has_shape B (rows2 (g2m_features m)) d_h (expand_to_batch g2m_emb B)"
    using expand_to_batch_shape [OF h2(1), of B] h2(2,3) by simp
  have x3: "has_shape B (rows2 (m2g_features m)) d_h (expand_to_batch m2g_emb B)"
    using expand_to_batch_shape [OF h3(1), of B] h3(2,3) by simp
  from g2mg h1 x1 x2 obtain mesh_rep where
    s4: "g2m_gnn m grid_emb (expand_to_batch mesh_emb B) (expand_to_batch g2m_emb B)
           = Inr mesh_rep"
    and h4: "has_shape B N_mesh d_h mesh_rep"
    unfolding gnn_nodes_ok_def by blast
  from enc h1 obtain encoded where
    s5: "encoding_grid_mlp m grid_emb = Inr encoded"
    and h5: "has_shape B N_grid d_h encoded"
    unfolding net3_ok_def by blast
  note s6 = with_tensor_same [OF h1 h5, where f = "(+)"]
  from proc h4 obtain mesh_rep' where
    s7: "process_step_method m mesh_rep = Inr mesh_rep'"
    and h7: "has_shape B N_mesh d_h mesh_rep'"
    unfolding process_ok_def by blast
  from m2gg h7 s6(2) x3 obtain grid_rep where
    s8: "m2g_gnn m mesh_rep'
           (Tensor3 B N_grid d_h (map2 (map2 (map2 (+))) (vals grid_emb) (vals encoded)))
           (expand_to_batch m2g_emb B) = Inr grid_rep"
    and h8: "has_shape B N_grid d_h grid_rep"
    unfolding gnn_nodes_ok_def by blast
  from om h8 obtain net where
    s9: "output_map m grid_rep = Inr net" and h9: "has_shape B N_grid d_f net"
    unfolding net3_ok_def by blast
  have no: "net_output m prev_state prev_prev_state batch_static_features forcing = Inr net"
    by (simp add: net_output_def Let_def dB cat s1 s2 s3 me(1) s4 s5 s6(1) s7 s8 s9)
  note r1 = with_vec_same [OF h9 std, where f = "(*)"]
  note r2 = with_vec_same [OF r1(2) mean, where f = "(+)"]
  note r3 = with_tensor_same [OF prev r2(2), where f = "(+)"]
  let ?out = "Tensor3 B N_grid d_f
                (residual_vals (step_diff_std m) (step_diff_mean m) (vals prev_state) (vals net))"
  have rv: "map2 (map2 (map2 (+))) (vals prev_state)
              (map (map (\<lambda>r. map2 (+) r (step_diff_mean m)))
                 (map (map (\<lambda>r. map2 (*) r (step_diff_std m))) (vals net)))
            = residual_vals (step_diff_std m) (step_diff_mean m) (vals prev_state) (vals net)"
    by (simp add: residual_vals_def rescale_row_def [abs_def] comp_def)
  have ps: "predict_step m prev_state prev_prev_state batch_static_features forcing = Inr ?out"
    using r3(1) rv by (simp add: predict_step_def no r1(1) r2(1))
  have ho: "has_shape B N_grid d_f ?out"
    using r3(2) rv by simp
  have sh: "shape3 ?out = shape3 prev_state"
    using prev by (simp add: shape3_def has_shape_def)
  have vo: "vals ?out = residual_vals (step_diff_std m) (step_diff_mean m)
                          (vals prev_state) (vals net)"
    by simp
  show ?thesis
  proof (intro exI conjI)
    show "cat_last ?ts = Inr grid_features" by (fact cat)
    show "has_shape B N_grid ?grid_dim grid_features" by (fact gf)
    show "grid_embedder m grid_features = Inr grid_emb" by (fact s1)
    show "g2m_embedder m (g2m_features m) = Inr g2m_emb" by (fact s2)
    show "m2g_embedder m (m2g_features m) = Inr m2g_emb" by (fact s3)
    show "embedd_mesh_nodes m = Inr mesh_emb" by (fact me(1))
    show "g2m_gnn m grid_emb (expand_to_batch mesh_emb B) (expand_to_batch g2m_emb B)
            = Inr mesh_rep" by (fact s4)
    show "encoding_grid_mlp m grid_emb = Inr encoded" by (fact s5)
    show "with_tensor (+) grid_emb encoded
            = Inr (Tensor3 B N_grid d_h (map2 (map2 (map2 (+))) (vals grid_emb) (vals encoded)))"
      by (fact s6(1))
    show "has_shape B N_mesh d_h mesh_rep" by (fact h4)
    show "process_step_method m mesh_rep = Inr mesh_rep'" by (fact s7)
    show "has_shape B N_mesh d_h mesh_rep'" by (fact h7)
    show "m2g_gnn m mesh_rep'
            (Tensor3 B N_grid d_h (map2 (map2 (map2 (+))) (vals grid_emb) (vals encoded)))
            (expand_to_batch m2g_emb B) = Inr grid_rep" by (fact s8)
    show "output_map m grid_rep = Inr net" by (fact s9)
    show "net_output m prev_state prev_prev_state batch_static_features forcing = Inr net"
      by (fact no)
    show "has_shape B N_grid d_f net" by (fact h9)
    show "predict_step m prev_state prev_prev_state batch_static_features forcing = Inr ?out"
      by (fact ps)
    show "vals ?out = residual_vals (step_diff_std m) (step_diff_mean m)
                        (vals prev_state) (vals net)" by (fact vo)
    show "has_shape B N_grid d_f ?out" by (fact ho)
    show "shape3 ?out = shape3 prev_state" by (fact sh)
  qed
qed

section \<open>A hierarchical model keeps the contracts of \<open>predict_step\<close>\<close>

lemma hi_embedd_mesh_nodes_ok:
  assumes wf: "wf_hi_graph g" and mlp: "mlp_contract nets"
    and init: "BaseHiGraphModel_init nets hp g = Inr b"
  shows "\<exists>mesh_emb. BaseHiGraphModel_embedd_mesh_nodes b = Inr mesh_emb \<and> wf2 mesh_emb
           \<and> rows2 mesh_emb = N_mesh_levels b ! 0 \<and> cols2 mesh_emb = hidden_dim hp"
proof -
  note f = BaseHiGraphModel_init_fields [OF init]
  let ?fs = "mesh_static_features g"
  from wf have L: "2 \<le> length ?fs" and sc: "same_cols ?fs"
    by (simp_all add: wf_hi_graph_def Let_def)
  then have pos: "0 < length ?fs" by linarith
  then have "?fs ! 0 \<in> set ?fs" by simp
  with sc have w: "wf2 (?fs ! 0)"
    unfolding same_cols_def list_all_iff by blast
  have e: "mesh_embedders b ! 0
             = make_mlp nets (MeshEmbedder 0)
                 (cols2 (?fs ! 0) # replicate (hidden_layers hp + 1) (hidden_dim hp))"
    using pos by (simp add: f(4) del: replicate_Suc upt_Suc)
  have "mlp_ok (cols2 (?fs ! 0)) (hidden_dim hp) (mesh_embedders b ! 0)"
    unfolding e by (rule blueprint_mlp_ok [OF mlp])
  with w obtain y where y: "(mesh_embedders b ! 0) (?fs ! 0) = Inr y" "wf2 y"
    "rows2 y = rows2 (?fs ! 0)" "cols2 y = hidden_dim hp"
    unfolding mlp_ok_def by blast
  have le: "0 < length (mesh_embedders b)" using pos by (simp add: f(4))
  have "BaseHiGraphModel_embedd_mesh_nodes b = Inr y"
    using le pos y(1) by (simp add: BaseHiGraphModel_embedd_mesh_nodes_def get_def f(1))
  moreover have "rows2 y = N_mesh_levels b ! 0"
    using y(3) pos by (simp add: f(3))
  ultimately show ?thesis using y(2,4) by blast
qed

lemma hilam_process_ok:
  fixes h :: "'a hilam"
  assumes init: "HiLAM_init nets hp g = Inr h" and wf: "wf_hi_graph g"
    and mlp: "mlp_contract nets" and inet: "inet_contract nets"
  shows "process_ok (N_mesh_levels (seq_base h) ! 0) (hidden_dim hp) (HiLAM_process_step h)"
  unfolding process_ok_def
proof (intro allI impI)
  fix B and x :: "'a tensor3"
  assume x: "has_shape B (N_mesh_levels (seq_base h) ! 0) (hidden_dim hp) x"
  note bi = HiLAM_init_fields(1) [OF init]
  from process_step_stages [OF wf mlp inet bi hilam_hi_step_contract [OF init inet wf] x]
  obtain out tr where
    p: "process_step (hi_processor_step_seq h) (seq_base h) x = Inr (out, tr)"
    and o: "has_shape B (N_mesh_levels (seq_base h) ! 0) (hidden_dim hp) out"
    by blast
  from p have "HiLAM_process_step h x = Inr out"
    by (simp add: HiLAM_process_step_def untraced_def)
  with o show "\<exists>y. HiLAM_process_step h x = Inr y
                 \<and> has_shape B (N_mesh_levels (seq_base h) ! 0) (hidden_dim hp) y"
    by blast
qed

lemma nodes_only_ok:
  fixes nets :: "'a nets"
  assumes "gnn_ok d M n_send n_rec (mk_gnn nets i args)"
  shows "gnn_nodes_ok d M n_send n_rec (nodes_only (interaction_net nets i args))"
  unfolding gnn_nodes_ok_def
proof (intro allI impI)
  fix B and s r e :: "'a tensor3"
  assume "has_shape B n_send d s \<and> has_shape B n_rec d r \<and> has_shape B M d e"
  with assms obtain r' e' where
    "forward (mk_gnn nets i args) s r e = Inr (r', e')" "has_shape B n_rec d r'"
    unfolding gnn_ok_def by blast
  then have "nodes_only (interaction_net nets i args) s r e = Inr r'" "has_shape B n_rec d r'"
    by (simp_all add: nodes_only_def mk_gnn_def)
  then show "\<exists>r'. nodes_only (interaction_net nets i args) s r e = Inr r'
                  \<and> has_shape B n_rec d r'"
    by blast
qed

section \<open>The small \<open>BaseGraphModel\<close>\<close>

lemma net3_ok_keep3: "d \<le> d_in \<Longrightarrow> net3_ok d_in d (keep3 d)"
  by (auto simp: net3_ok_def keep3_def has_shape_def wf3_def list_all_iff
      dest: in_set_takeD)

lemma net3_ok_const3: "net3_ok d_in d (const3 d c)"
  by (simp add: net3_ok_def const3_def has_shape_def wf3_def list_all_iff)

lemma toy_mlp_ok: "mlp_ok 1 2 (make_mlp toy_nets i [1, 2])"
  using toy_mlp [unfolded mlp_contract_def, rule_format, of "[1, 2]" i] by simp

lemma toy_grid_fits: "fits toy_g2m_edge_index 2 3" "fits toy_m2g_edge_index 3 2"
  by (simp_all add: fits_def num_rec_def num_send_def toy_g2m_edge_index_def
      toy_m2g_edge_index_def)

lemma toy_grid_lengths: "length toy_g2m_edge_index = 3" "length toy_m2g_edge_index = 2"
  by (simp_all add: toy_g2m_edge_index_def toy_m2g_edge_index_def)

lemma toy_model_ok:
  fixes out_map :: "('a::{zero,one,plus,times}) net3"
  assumes om: "net3_ok 2 1 out_map" and std: "length std = 1" and mean: "length mean = 1"
  shows "graph_model_ok (toy_model out_map std mean) 2 3 1 1 1 2"
proof -
  obtain h :: "'a hilam" where h: "HiLAM_init toy_nets (toy_hp 1) toy_graph = Inr h"
    using HiLAM_init_ok [OF toy_graph_wf] by blast
  note bi = HiLAM_init_fields(1) [OF h]
  note b = BaseHiGraphModel_init_fields [OF bi]
  have n: "N_mesh_levels (seq_base h) ! 0 = 3"
    by (simp add: b toy_graph_def)
  from hi_embedd_mesh_nodes_ok [OF toy_graph_wf toy_mlp bi] obtain mesh_emb where
    me: "BaseHiGraphModel_embedd_mesh_nodes (seq_base h) = Inr mesh_emb" "wf2 mesh_emb"
      "rows2 mesh_emb = 3" "cols2 mesh_emb = 2"
    unfolding n by auto
  have emb: "\<exists>mesh_emb. embedd_mesh_nodes (toy_model out_map std mean) = Inr mesh_emb
               \<and> wf2 mesh_emb \<and> rows2 mesh_emb = 3 \<and> cols2 mesh_emb = 2"
    using me h by (simp add: toy_model_def)
  have "process_ok 3 2 (HiLAM_process_step h)"
    using hilam_process_ok [OF h toy_graph_wf toy_mlp toy_inet] unfolding n by simp
  then have proc: "process_ok 3 2 (process_step_method (toy_model out_map std mean))"
    using h by (simp add: toy_model_def)
  let ?ga = "(default_args toy_g2m_edge_index (toy_hp 1))\<lparr>update_edges := False\<rparr>"
  let ?ma = "(default_args toy_m2g_edge_index (toy_hp 1))\<lparr>update_edges := False\<rparr>"
  have "gnn_ok 2 3 2 3 (mk_gnn (toy_nets :: 'a nets) G2mGnn ?ga)"
    using inet_contract_gnn_ok [OF toy_inet, of ?ga 2 3 G2mGnn] toy_grid_fits(1)
    by (simp add: toy_grid_lengths)
  then have g2m: "gnn_nodes_ok 2 3 2 3 (g2m_gnn (toy_model out_map std mean))"
    using nodes_only_ok [of 2 3 2 3 "toy_nets :: 'a nets" G2mGnn ?ga]
    by (simp add: toy_model_def)
  have "gnn_ok 2 2 3 2 (mk_gnn (toy_nets :: 'a nets) M2gGnn ?ma)"
    using inet_contract_gnn_ok [OF toy_inet, of ?ma 3 2 M2gGnn] toy_grid_fits(2)
    by (simp add: toy_grid_lengths)
  then have m2g: "gnn_nodes_ok 2 2 3 2 (m2g_gnn (toy_model out_map std mean))"
    using nodes_only_ok [of 2 2 3 2 "toy_nets :: 'a nets" M2gGnn ?ma]
    by (simp add: toy_model_def)
  have rest: "wf2 (grid_static_features (toy_model out_map std mean))"
    "rows2 (grid_static_features (toy_model out_map std mean)) = 2"
    "cols2 (grid_static_features (toy_model out_map std mean)) = 1"
    "wf2 (g2m_features (toy_model out_map std mean))"
    "wf2 (m2g_features (toy_model out_map std mean))"
    "rows2 (g2m_features (toy_model out_map std mean)) = 3"
    "rows2 (m2g_features (toy_model out_map std mean)) = 2"
    "cols2 (g2m_features (toy_model out_map std mean)) = 1"
    "cols2 (m2g_features (toy_model out_map std mean)) = 1"
    "grid_embedder (toy_model out_map std mean) = keep3 2"
    "g2m_embedder (toy_model out_map std mean) = make_mlp toy_nets G2mEmbedder [1, 2]"
    "m2g_embedder (toy_model out_map std mean) = make_mlp toy_nets M2gEmbedder [1, 2]"
    "encoding_grid_mlp (toy_model out_map std mean) = const3 2 0"
    "output_map (toy_model out_map std mean) = out_map"
    "step_diff_std (toy_model out_map std mean) = std"
    "step_diff_mean (toy_model out_map std mean) = mean"
    by (simp_all add: toy_model_def wf2_def)
  have ge: "net3_ok 5 2 (keep3 2 :: 'a net3)" by (rule net3_ok_keep3) simp
  have mlps: "mlp_ok 1 2 (make_mlp (toy_nets :: 'a nets) G2mEmbedder [1, 2])"
    "mlp_ok 1 2 (make_mlp (toy_nets :: 'a nets) M2gEmbedder [1, 2])"
    by (rule toy_mlp_ok)+
  show ?thesis
    unfolding graph_model_ok_def rest
    using emb proc g2m m2g om std mean ge net3_ok_const3 [of 2 2 "0::'a"] mlps
    by (simp add: rest)
qed

lemma toy_batch_shapes:
  "has_shape 1 2 1 toy_prev" "has_shape 1 2 1 toy_prev_prev"
  "has_shape 1 2 1 toy_batch_static" "has_shape 1 2 1 toy_forcing"
  by (simp_all add: toy_prev_def toy_prev_prev_def toy_batch_static_def toy_forcing_def
      has_shape_def wf3_def)

lemma toy_predict_step:
  "predict_step (toy_model (keep3 1) [2] [1]) toy_prev toy_prev_prev toy_batch_static
     toy_forcing = Inr (Tensor3 1 2 1 [[[18], [24]]])"
  by code_simp

lemma toy_net_output:
  "net_output (toy_model (keep3 1) [2] [1]) toy_prev toy_prev_prev toy_batch_static
     toy_forcing = Inr (Tensor3 1 2 1 [[[6], [8]]])"
  by code_simp







theorem predict_step_residual_shape_witness:
  "\<exists>mesh_rep mesh_rep'.
     process_step_method (toy_model (keep3 1) [2] [1] :: int base_graph_model) mesh_rep
       = Inr mesh_rep'
     \<and> has_shape 1 3 2 mesh_rep'
     \<and> net_output (toy_model (keep3 1) [2] [1]) toy_prev toy_prev_prev toy_batch_static
          toy_forcing = Inr (Tensor3 1 2 1 [[[6], [8]]])
     \<and> predict_step (toy_model (keep3 1) [2] [1]) toy_prev toy_prev_prev toy_batch_static
          toy_forcing = Inr (Tensor3 1 2 1 [[[18], [24]]])
     \<and> shape3 (Tensor3 1 2 1 [[[18], [24 :: int]]]) = shape3 toy_prev"
proof -
  let ?m = "toy_model (keep3 1) [2] [1] :: int base_graph_model"
  have om: "net3_ok 2 1 (keep3 1 :: int net3)"
    by (rule net3_ok_keep3) simp
  have ok: "graph_model_ok ?m 2 3 1 1 1 2"
    by (rule toy_model_ok [OF om]) simp_all
  from predict_step_residual_shape [OF ok toy_batch_shapes]
  obtain mesh_rep mesh_rep' out where
    p: "process_step_method ?m mesh_rep = Inr mesh_rep'" "has_shape 1 3 2 mesh_rep'"
    and o: "predict_step ?m toy_prev toy_prev_prev toy_batch_static toy_forcing = Inr out"
      "shape3 out = shape3 toy_prev"
    by blast
  have sh: "shape3 (Tensor3 1 2 1 [[[18], [24 :: int]]]) = shape3 toy_prev"
    using o toy_predict_step by simp
  from p toy_net_output toy_predict_step sh show ?thesis by blast
qed

section \<open>Construction of \<open>GraphLAM\<close>\<close>

lemma map_of_setattr [simp]:
  "map_of (setattr self name v) k = (if k = name then Some v else map_of self k)"
  by (simp add: setattr_def)

lemma getattr_setattr [simp]:
  "getattr (setattr self name v) k = (if k = name then Inr v else getattr self k)"
  by (simp add: getattr_def)

lemma map_of_register:
  "map_of (foldl (\<lambda>self (name, v). setattr self name v) self ldict) k
     = (case map_of (rev ldict) k of None \<Rightarrow> map_of self k | Some v \<Rightarrow> Some v)"
  by (induction ldict arbitrary: self) (auto simp: map_add_def split: option.splits)

lemma map_of_None_rev: "k \<notin> fst ` set l \<Longrightarrow> map_of (rev l) k = None"
  by (simp add: map_of_eq_None_iff)

text \<open>
  The attribute read at line 310 is set nowhere: when neither \<open>ARModel.__init__\<close> nor
  the graph dictionary provides a name \<open>hierachical\<close>, the object has no such
  attribute after \<open>BaseGraphModel.__init__\<close>.
\<close>

lemma no_hierachical_attribute:
  assumes "BaseGraphModel_init get_num_mesh (Inr ar) (Inr (h, ldict)) hp = Inr self"
    and "''hierachical'' \<notin> fst ` set ar" and "''hierachical'' \<notin> fst ` set ldict"
  shows "getattr self ''hierachical'' = Inl AttributeError"
proof -
  have ar: "map_of ar ''hierachical'' = None"
    using assms(2) by (simp add: map_of_eq_None_iff)
  have "map_of self ''hierachical'' = None"
    using assms(1)
    by (auto simp: BaseGraphModel_init_def bind_eq_Inr Let_def map_of_register
        map_of_None_rev [OF assms(3)] ar)
  then show ?thesis by (simp add: getattr_def)
qed

lemma GraphLAM_init_never_returns:
  assumes "''hierachical'' \<notin> fst ` set ar" and "''hierachical'' \<notin> fst ` set ldict"
  shows "GraphLAM_init (Inr ar) (Inr (h, ldict)) hp \<noteq> Inr self"
proof
  assume "GraphLAM_init (Inr ar) (Inr (h, ldict)) hp = Inr self"
  then obtain base where
    b: "BaseGraphModel_init GraphLAM_get_num_mesh (Inr ar) (Inr (h, ldict)) hp = Inr base"
    and "\<exists>x. getattr base ''hierachical'' = Inr x"
    by (auto simp: GraphLAM_init_def bind_eq_Inr split: if_splits)
  with no_hierachical_attribute [OF b assms] show False by simp
qed

text \<open>
  C3. The claim: constructing a \<open>GraphLAM\<close> from a valid configuration with a
  non-hierarchical graph succeeds. On the configuration \<open>flat_ar\<close>, \<open>flat_ldict\<close> the
  constructor of the base class returns, with \<open>hierarchical = False\<close> so that the
  assertion of line 309 holds, and \<open>GraphLAM.__init__\<close> raises \<open>AttributeError\<close> at
  line 310.
\<close>

theorem GraphLAM_init_attribute_error:
  "(case BaseGraphModel_init GraphLAM_get_num_mesh (Inr flat_ar) (Inr (False, flat_ldict))
           (toy_hp 4) of
      Inl e \<Rightarrow> False
    | Inr self \<Rightarrow> getattr self ''hierarchical'' = Inr (BoolVal False)
                  \<and> getattr self ''N_grid'' = Inr (IntVal 2)
                  \<and> getattr self ''N_mesh'' = Inr (IntVal 3))
   \<and> GraphLAM_init (Inr flat_ar) (Inr (False, flat_ldict)) (toy_hp 4) = Inl AttributeError"
  by code_simp

end
